(* ===== verification/Prelude.thy ===== *)
theory Prelude
  imports Main "HOL-Library.Word"
begin

text \<open>
  What every theory of the development shares: the C++ exceptions the modelled code throws, the
  collections of evaluation and preservation lemmas, the last \<open>n\<close> elements of a list (what
  a drop-oldest buffer keeps), association lists standing for \<open>std::map\<close> and
  \<open>std::unordered_map\<close>, and prefix tests on strings.
\<close>

named_theorems ev \<comment> \<open>equations that evaluate the model on closed terms\<close>
named_theorems pres \<comment> \<open>preservation of the invariants by the operations\<close>
named_theorems finite_ops \<comment> \<open>finiteness of the doubles an operation computes\<close>

section \<open>Exceptions\<close>

datatype exn = OutOfRange string | RuntimeError string | InvalidArgument string

type_synonym 'a result = "exn + 'a"

section \<open>The last elements of a list\<close>

definition last_n :: "nat \<Rightarrow> 'a list \<Rightarrow> 'a list" where
  "last_n n xs = drop (length xs - n) xs"

lemma length_last_n [simp]: "length (last_n n xs) = min n (length xs)"
  by (simp add: last_n_def)

lemma last_n_all [simp]: "length xs \<le> n \<Longrightarrow> last_n n xs = xs"
  by (simp add: last_n_def)

lemma last_n_snoc: "0 < n \<Longrightarrow> last_n n (xs @ [x]) = (if length xs < n then xs @ [x] else tl (last_n n xs) @ [x])"
  by (auto simp: last_n_def tl_drop drop_Suc Suc_diff_le)

lemma last_n_append_last_n: "last_n n (last_n n xs @ ys) = last_n n (xs @ ys)"
proof (cases "length xs \<le> n")
  case False
  then have "length xs - (length xs - n) = n" "length xs + length ys - n = length ys + (length xs - n)" by auto
  then show ?thesis using False by (simp add: last_n_def)
qed simp

lemma set_last_n: "set (last_n n xs) \<subseteq> set xs"
  by (simp add: last_n_def set_drop_subset)

lemma last_last_n [simp]: "0 < n \<Longrightarrow> xs \<noteq> [] \<Longrightarrow> last (last_n n xs) = last xs"
  by (auto simp: last_n_def last_drop)

section \<open>Option\<close>

lemma map_option_eq_Some_conv: "map_option f x = Some y \<longleftrightarrow> (\<exists>z. x = Some z \<and> f z = y)"
  by (cases x) auto

section \<open>Strings\<close>

text \<open>\<open>std::string::rfind(p, 0) == 0\<close>: the string starts with \<open>p\<close>.\<close>

fun starts_with :: "string \<Rightarrow> string \<Rightarrow> bool" where
  "starts_with s [] = True"
| "starts_with [] (p # ps) = False"
| "starts_with (c # cs) (p # ps) = (c = p \<and> starts_with cs ps)"

lemma starts_with_iff: "starts_with s p \<longleftrightarrow> (\<exists>r. s = p @ r)"
  by (induction s p rule: starts_with.induct) auto

lemma starts_with_append [simp]: "starts_with (p @ r) p"
  by (auto simp: starts_with_iff)

text \<open>\<open>std::string::find(c)\<close>: the position of the first occurrence of a character.\<close>

fun find_char :: "char \<Rightarrow> string \<Rightarrow> nat option" where
  "find_char c [] = None"
| "find_char c (x # xs) = (if x = c then Some 0 else map_option Suc (find_char c xs))"

lemma find_char_Some:
  "find_char c s = Some i \<Longrightarrow> i < length s \<and> s ! i = c \<and> c \<notin> set (take i s)"
  by (induction s arbitrary: i) (auto split: if_splits simp: map_option_eq_Some_conv)

lemma find_char_None: "find_char c s = None \<longleftrightarrow> c \<notin> set s"
  by (induction s) auto

end
