(* ===== verification/Double64.thy ===== *)
theory Double64
  imports Prelude Complex_Main
begin

text \<open>
  The C++ type \<open>double\<close>: IEEE 754 binary64 with round-to-nearest-even, the arithmetic the
  program computes prices, volumes and amounts with (\<open>src/src/core/domain/Types.h\<close>).

  A finite double is the rational number it denotes; every operation computes the exact
  rational result and rounds it (\<open>rnd\<close>): 53 bits of significand, smallest exponent -1074,
  overflow to an infinity. The two zeros are one value: the program divides only by values
  it has compared with zero before, so the sign of a zero is never observed. NaN compares
  false with everything, as in the code.

  \<open>D q\<close> is the double nearest to the rational \<open>q\<close>; the literal \<open>1.001\<close> of the source
  is \<open>D (1001 / 1000)\<close>. The lemmas give the order and rounding facts the components use:
  monotonicity, exactness on representable results, relative error of a sum.
\<close>

section \<open>Rounding rationals to 53 bits\<close>

text \<open>Bit length of a positive integer, and the exponent of the leading bit of a positive rational.\<close>

function blen :: "int \<Rightarrow> int" where
  "blen n = (if n \<le> 0 then 0 else 1 + blen (n div 2))"
  by pat_completeness auto
termination
  by (relation "measure nat") auto

declare blen.simps [simp del]

definition ilog2 :: "rat \<Rightarrow> int" where
  "ilog2 x = (if 1 \<le> x then blen \<lfloor>x\<rfloor> - 1 else - blen (\<lceil>1 / x\<rceil> - 1))"

text \<open>Round half to even, to an integer.\<close>

definition rhe :: "rat \<Rightarrow> int" where
  "rhe x = (let f = \<lfloor>x\<rfloor>; d = x - of_int f
     in if d < 1 / 2 then f else if 1 / 2 < d then f + 1 else if even f then f else f + 1)"

definition ulp_exp :: "rat \<Rightarrow> int" where
  "ulp_exp x = max (ilog2 \<bar>x\<bar> - 52) (- 1074)"

text \<open>Rounding with an unbounded exponent range upwards.\<close>

definition rr :: "rat \<Rightarrow> rat" where
  "rr x = (if x = 0 then 0 else of_int (rhe (x / 2 powi ulp_exp x)) * 2 powi ulp_exp x)"

datatype raw = RNaN | RNInf | RFin rat | RPInf

definition rnd :: "rat \<Rightarrow> raw" where
  "rnd x = (let y = rr x
     in if \<bar>y\<bar> < 2 ^ 1024 then RFin y else if 0 < y then RPInf else RNInf)"

definition rep :: "rat \<Rightarrow> bool" where
  "rep q \<longleftrightarrow> (\<exists>m e. q = of_int m * 2 powi e \<and> \<bar>m\<bar> \<le> 2 ^ 53 \<and> -1074 \<le> e) \<and> \<bar>q\<bar> < 2 ^ 1024"

subsection \<open>Bit length and leading exponent\<close>

lemma blen_nonneg: "0 \<le> blen n"
proof (induction n rule: blen.induct)
  case (1 n)
  then show ?case by (subst blen.simps) auto
qed

lemma blen_bounds: "0 < n \<Longrightarrow> 2 ^ nat (blen n - 1) \<le> n \<and> n < 2 ^ nat (blen n)"
proof (induction n rule: blen.induct)
  case (1 n)
  show ?case
  proof (cases "n = 1")
    case True
    then show ?thesis by (simp add: blen.simps)
  next
    case False
    with "1.prems" have pos: "0 < n div 2" by auto
    with "1.IH" "1.prems" have ih: "2 ^ nat (blen (n div 2) - 1) \<le> n div 2 \<and> n div 2 < 2 ^ nat (blen (n div 2))"
      by auto
    have b: "blen n = 1 + blen (n div 2)" using "1.prems" by (subst blen.simps) auto
    have p: "1 \<le> blen (n div 2)" using pos blen_nonneg [of "n div 2 div 2"]
      by (subst blen.simps) auto
    from p have e1: "nat (blen n - 1) = Suc (nat (blen (n div 2) - 1))"
      and e2: "nat (blen n) = Suc (nat (blen (n div 2)))" by (auto simp: b)
    show ?thesis unfolding e1 e2 using ih by auto
  qed
qed

lemma blen_pos: "0 < n \<Longrightarrow> 1 \<le> blen n"
  using blen_nonneg [of "n div 2"] by (subst blen.simps) auto

lemma powi_nat: "0 \<le> e \<Longrightarrow> (2::rat) powi e = 2 ^ nat e"
  by (simp add: power_int_def)

lemma ilog2_bounds:
  assumes "0 < x"
  shows "2 powi (ilog2 x) \<le> x \<and> x < 2 powi (ilog2 x + 1)"
proof (cases "1 \<le> x")
  case True
  define n where "n = \<lfloor>x\<rfloor>"
  have n: "0 < n" "of_int n \<le> x" "x < of_int n + 1" using True floor_correct [of x] by (auto simp: n_def)
  have b: "2 ^ nat (blen n - 1) \<le> n" "n + 1 \<le> 2 ^ nat (blen n)" "1 \<le> blen n"
    using blen_bounds [OF n(1)] blen_pos [OF n(1)] by auto
  have "(2::rat) ^ nat (blen n - 1) = of_int (2 ^ nat (blen n - 1))" by simp
  also have "\<dots> \<le> of_int n" using b(1) by (simp only: of_int_le_iff)
  finally have lo: "(2::rat) ^ nat (blen n - 1) \<le> x" using n(2) by linarith
  have "of_int (n + 1) \<le> (of_int (2 ^ nat (blen n)) :: rat)" using b(2) by (simp only: of_int_le_iff)
  then have hi: "x < 2 ^ nat (blen n)" using n(3) by simp
  show ?thesis using True lo hi b(3) by (simp add: ilog2_def powi_nat flip: n_def)
next
  case False
  define n where "n = \<lceil>1 / x\<rceil> - 1"
  have "1 < 1 / x" using False assms by (simp add: field_simps)
  then have n: "1 \<le> n" "of_int n < 1 / x" "1 / x \<le> of_int n + 1"
    by (auto simp: n_def) linarith+
  have b: "2 ^ nat (blen n - 1) \<le> n" "n + 1 \<le> 2 ^ nat (blen n)" "1 \<le> blen n"
    using blen_bounds [of n] blen_pos [of n] n(1) by auto
  have "(2::rat) ^ nat (blen n - 1) = of_int (2 ^ nat (blen n - 1))" by simp
  also have "\<dots> \<le> of_int n" using b(1) by (simp only: of_int_le_iff)
  finally have lo: "(2::rat) ^ nat (blen n - 1) < 1 / x" using n(2) by linarith
  have "of_int (n + 1) \<le> (of_int (2 ^ nat (blen n)) :: rat)" using b(2) by (simp only: of_int_le_iff)
  then have hi: "1 / x \<le> 2 ^ nat (blen n)" using n(3) by simp
  have "(2::rat) powi (- blen n) = 1 / 2 ^ nat (blen n)" using b(3)
    by (simp add: power_int_minus powi_nat field_simps)
  also have "\<dots> \<le> x" using hi assms by (simp add: field_simps)
  finally have r1: "2 powi (- blen n) \<le> x" .
  have "x < 1 / 2 ^ nat (blen n - 1)" using lo assms by (simp add: field_simps)
  also have "\<dots> = (2::rat) powi (- (blen n - 1))" using b(3)
    by (simp only: power_int_minus) (simp add: powi_nat field_simps)
  finally have r2: "x < 2 powi (- blen n + 1)" by (simp add: algebra_simps)
  show ?thesis using False r1 r2 by (simp add: ilog2_def flip: n_def)
qed

lemma powi_le_mono: "a \<le> b \<Longrightarrow> (2::rat) powi a \<le> 2 powi b"
  by (rule power_int_increasing) auto

lemma powi_less_iff: "(2::rat) powi a < 2 powi b \<longleftrightarrow> a < b"
  by (meson linorder_not_le one_less_numeral_iff powi_le_mono power_int_strict_increasing semiring_norm(76))

lemma ilog2_mono:
  assumes "0 < x" "x \<le> y"
  shows "ilog2 x \<le> ilog2 y"
proof -
  have "(2::rat) powi (ilog2 x) < 2 powi (ilog2 y + 1)"
    using ilog2_bounds [of x] ilog2_bounds [of y] assms by linarith
  then show ?thesis by (simp add: powi_less_iff)
qed

lemma ilog2_less: "0 < x \<Longrightarrow> x < 2 powi k \<Longrightarrow> ilog2 x < k"
  using ilog2_bounds [of x] by (meson order_le_less_trans powi_less_iff)

lemma ilog2_ge: "0 < x \<Longrightarrow> 2 powi k \<le> x \<Longrightarrow> k \<le> ilog2 x"
proof -
  assume "0 < x" "2 powi k \<le> x"
  then have "(2::rat) powi k < 2 powi (ilog2 x + 1)" using ilog2_bounds [of x] by linarith
  then show "k \<le> ilog2 x" by (simp add: powi_less_iff)
qed


subsection \<open>Rounding to an integer\<close>

lemma rhe_of_int [simp]: "rhe (of_int n) = n"
  by (simp add: rhe_def)

lemma rhe_error: "\<bar>x - of_int (rhe x)\<bar> \<le> 1 / 2"
proof -
  define f where "f = \<lfloor>x\<rfloor>"
  have "of_int f \<le> x" "x < of_int f + 1" using floor_correct [of x] by (auto simp: f_def)
  then show ?thesis unfolding rhe_def Let_def f_def [symmetric] by (auto simp: abs_le_iff)
qed

lemma rhe_mono:
  assumes "x \<le> y"
  shows "rhe x \<le> rhe y"
proof (cases "\<lfloor>x\<rfloor> = \<lfloor>y\<rfloor>")
  case True
  then show ?thesis using assms by (auto simp: rhe_def Let_def)
next
  case False
  then have "\<lfloor>x\<rfloor> + 1 \<le> \<lfloor>y\<rfloor>" using floor_mono [OF assms] by linarith
  moreover have "rhe x \<le> \<lfloor>x\<rfloor> + 1" "\<lfloor>y\<rfloor> \<le> rhe y" by (auto simp: rhe_def Let_def)
  ultimately show ?thesis by linarith
qed

lemma rhe_minus: "rhe (- x) = - rhe x"
proof (cases "x = of_int \<lfloor>x\<rfloor>")
  case True
  then show ?thesis using rhe_of_int [of "\<lfloor>x\<rfloor>"] rhe_of_int [of "- \<lfloor>x\<rfloor>"] by simp
next
  case False
  define f where "f = \<lfloor>x\<rfloor>"
  have f: "of_int f < x" "x < of_int f + 1" using False floor_correct [of x]
    by (auto simp: f_def less_le)
  then have mf: "\<lfloor>- x\<rfloor> = - f - 1" by (intro floor_unique) auto
  show ?thesis unfolding rhe_def Let_def mf f_def [symmetric] using f by auto
qed

lemma rhe_ge: "of_int n \<le> x \<Longrightarrow> n \<le> rhe x"
  using rhe_mono [of "of_int n" x] by simp

lemma rhe_le: "x \<le> of_int n \<Longrightarrow> rhe x \<le> n"
  using rhe_mono [of x "of_int n"] by simp

subsection \<open>Rounding to 53 bits\<close>

lemma rr_0 [simp]: "rr 0 = 0"
  by (simp add: rr_def)

lemma rr_minus: "rr (- x) = - rr x"
  by (simp add: rr_def ulp_exp_def rhe_minus)

lemma ulp_pos [simp]: "0 < (2::rat) powi k"
  by (simp add: zero_less_power_int)

lemma rr_nonneg: "0 \<le> x \<Longrightarrow> 0 \<le> rr x"
  using rhe_ge [of 0 "x / 2 powi ulp_exp x"] by (auto simp: rr_def intro!: mult_nonneg_nonneg)

lemma powi_split: "(2::rat) powi (a + b) = 2 powi a * 2 powi b"
  by (simp add: power_int_add)

lemma scaled_bounds:
  assumes "0 < x"
  shows "x / 2 powi ulp_exp x < 2 ^ 53" "- 1074 < ulp_exp x \<Longrightarrow> 2 ^ 52 \<le> x / 2 powi ulp_exp x"
proof -
  have "x < 2 powi (ilog2 x + 1)" using ilog2_bounds [OF assms] by simp
  also have "\<dots> \<le> 2 powi (ulp_exp x + 53)" using assms by (intro powi_le_mono) (auto simp: ulp_exp_def)
  finally show "x / 2 powi ulp_exp x < 2 ^ 53"
    by (simp add: powi_split field_simps)
next
  assume "- 1074 < ulp_exp x"
  then have "ulp_exp x = ilog2 x - 52" using assms by (auto simp: ulp_exp_def max_def split: if_splits)
  then have "2 powi (ulp_exp x + 52) \<le> x" using ilog2_bounds [OF assms] by simp
  then show "2 ^ 52 \<le> x / 2 powi ulp_exp x" by (simp add: powi_split field_simps)
qed

lemma rr_mono_pos:
  assumes "0 < x" "x \<le> y"
  shows "rr x \<le> rr y"
proof -
  have y: "0 < y" using assms by linarith
  have le: "ulp_exp x \<le> ulp_exp y" using ilog2_mono [OF assms] assms y by (auto simp: ulp_exp_def)
  show ?thesis
  proof (cases "ulp_exp x = ulp_exp y")
    case True
    have "rhe (x / 2 powi ulp_exp x) \<le> rhe (y / 2 powi ulp_exp x)"
      using assms by (intro rhe_mono divide_right_mono) auto
    then show ?thesis using True assms y by (simp add: rr_def)
  next
    case False
    then have lt: "ulp_exp x + 1 \<le> ulp_exp y" using le by linarith
    have big: "- 1074 < ulp_exp y" using lt by (auto simp: ulp_exp_def)
    have "rhe (x / 2 powi ulp_exp x) \<le> 2 ^ 53"
      using scaled_bounds(1) [OF assms(1)] by (intro rhe_le) auto
    then have "of_int (rhe (x / 2 powi ulp_exp x)) \<le> (of_int (2 ^ 53) :: rat)" by (simp only: of_int_le_iff)
    then have "rr x \<le> 2 ^ 53 * 2 powi ulp_exp x" using assms by (simp add: rr_def mult_right_mono)
    also have "\<dots> = 2 ^ 52 * 2 powi (ulp_exp x + 1)" by (simp add: powi_split)
    also have "\<dots> \<le> 2 ^ 52 * 2 powi (ulp_exp y)" by (intro mult_left_mono powi_le_mono lt) auto
    finally have a: "rr x \<le> 2 ^ 52 * 2 powi (ulp_exp y)" .
    have "2 ^ 52 \<le> rhe (y / 2 powi ulp_exp y)" using scaled_bounds(2) [OF y big] by (intro rhe_ge) auto
    then have "(of_int (2 ^ 52) :: rat) \<le> of_int (rhe (y / 2 powi ulp_exp y))" by (simp only: of_int_le_iff)
    then have "2 ^ 52 * 2 powi ulp_exp y \<le> rr y" using y by (simp add: rr_def mult_right_mono)
    with a show ?thesis by linarith
  qed
qed

lemma rr_mono: "x \<le> y \<Longrightarrow> rr x \<le> rr y"
proof -
  assume le: "x \<le> y"
  consider "0 < x" | "x \<le> 0" "0 \<le> y" | "y < 0" by linarith
  then show ?thesis
  proof cases
    case 1 then show ?thesis using rr_mono_pos le by blast
  next
    case 2
    then have "0 \<le> rr (- x)" "0 \<le> rr y" by (auto intro!: rr_nonneg)
    then show ?thesis by (simp add: rr_minus)
  next
    case 3
    then have "rr (- y) \<le> rr (- x)" using le by (intro rr_mono_pos) auto
    then show ?thesis by (simp add: rr_minus)
  qed
qed

lemma rr_dyadic:
  assumes "y = of_int m * 2 powi e" "\<bar>m\<bar> < 2 ^ 53" "- 1074 \<le> e"
  shows "rr y = y"
proof (cases "y = 0")
  case False
  then have m0: "m \<noteq> 0" using assms(1) by auto
  have ay: "\<bar>y\<bar> = of_int \<bar>m\<bar> * 2 powi e" by (simp add: assms(1) abs_mult)
  have "(of_int \<bar>m\<bar> :: rat) < of_int (2 ^ 53)" using assms(2) by (simp only: of_int_less_iff)
  then have "\<bar>y\<bar> < 2 ^ 53 * 2 powi e" unfolding ay by (intro mult_strict_right_mono) auto
  then have "\<bar>y\<bar> < 2 powi (53 + e)" by (simp add: powi_split)
  then have "ilog2 \<bar>y\<bar> < 53 + e" using False by (intro ilog2_less) auto
  then have le: "ulp_exp y \<le> e" using assms(3) by (simp add: ulp_exp_def)
  define u where "u = ulp_exp y"
  define k where "k = nat (e - u)"
  have "(2::rat) powi e = 2 powi (u + (e - u))" by simp
  also have "\<dots> = 2 powi u * 2 ^ k" using le by (subst powi_split) (simp add: k_def u_def powi_nat)
  finally have y: "y = of_int (m * 2 ^ k) * 2 powi u" by (simp add: assms(1))
  have "(2::rat) powi u \<noteq> 0" using ulp_pos [of u] by linarith
  then have "y / 2 powi u = of_int (m * 2 ^ k)" by (metis y nonzero_mult_div_cancel_right)
  then have "rr y = of_int (m * 2 ^ k) * 2 powi u"
    using False by (simp only: rr_def rhe_of_int if_False u_def [symmetric])
  then show ?thesis by (simp only: y [symmetric])
qed simp

lemma rr_pow2: "- 1074 \<le> k \<Longrightarrow> rr (2 powi k) = 2 powi k" "- 1074 \<le> k \<Longrightarrow> rr (- (2 powi k)) = - (2 powi k)"
  using rr_dyadic [of "2 powi k" 1 k] by (auto simp: rr_minus)

lemma rr_rep: "rep q \<Longrightarrow> rr q = q"
proof -
  assume "rep q"
  then obtain m e where q: "q = of_int m * 2 powi e" "\<bar>m\<bar> \<le> 2 ^ 53" "- 1074 \<le> e" by (auto simp: rep_def)
  show "rr q = q"
  proof (cases "\<bar>m\<bar> = 2 ^ 53")
    case True
    then have "m = 2 ^ 53 \<or> m = - (2 ^ 53)" by linarith
    then have "q = 2 powi (53 + e) \<or> q = - (2 powi (53 + e))" using q(1) by (auto simp: powi_split)
    then show ?thesis using rr_pow2 [of "53 + e"] q(3) by auto
  next
    case False
    then show ?thesis using q by (intro rr_dyadic [of q m e]) auto
  qed
qed

lemma rep_rr:
  assumes "\<bar>rr x\<bar> < 2 ^ 1024"
  shows "rep (rr x)"
proof (cases "x = 0")
  case True
  then show ?thesis by (auto simp: rep_def intro!: exI [of _ 0])
next
  case False
  define n where "n = rhe (x / 2 powi ulp_exp x)"
  have e: "ulp_exp \<bar>x\<bar> = ulp_exp x" by (simp add: ulp_exp_def)
  have "\<bar>x\<bar> / 2 powi ulp_exp x < 2 ^ 53" using scaled_bounds(1) [of "\<bar>x\<bar>"] False by (simp add: e)
  then have b: "\<bar>x / 2 powi ulp_exp x\<bar> < of_int (2 ^ 53)" by (simp add: abs_divide)
  have "n \<le> 2 ^ 53" unfolding n_def using b by (intro rhe_le) linarith
  moreover have "- (2 ^ 53) \<le> n" unfolding n_def using b by (intro rhe_ge) linarith
  ultimately have "\<bar>n\<bar> \<le> 2 ^ 53" by linarith
  moreover have "rr x = of_int n * 2 powi ulp_exp x" using False by (simp add: rr_def n_def)
  moreover have "- 1074 \<le> ulp_exp x" by (simp add: ulp_exp_def)
  ultimately show ?thesis using assms unfolding rep_def by blast
qed

lemma rr_error:
  "\<bar>rr x - x\<bar> \<le> 2 powi ulp_exp x / 2"
proof (cases "x = 0")
  case False
  define u where "u = (2::rat) powi ulp_exp x"
  have u: "0 < u" by (simp add: u_def)
  have "rr x - x = - (x / u - of_int (rhe (x / u))) * u"
    using False u by (simp add: rr_def u_def [symmetric] field_simps)
  then have "\<bar>rr x - x\<bar> = \<bar>x / u - of_int (rhe (x / u))\<bar> * u" using u by (simp add: abs_mult)
  also have "\<dots> \<le> 1 / 2 * u" using u by (intro mult_right_mono rhe_error) auto
  finally show ?thesis by (simp add: u_def)
qed simp

lemma rr_rel_error:
  assumes "- 1074 < ulp_exp x"
  shows "\<bar>rr x - x\<bar> \<le> \<bar>x\<bar> / 2 ^ 53"
proof (cases "x = 0")
  case False
  then have "2 ^ 52 \<le> \<bar>x\<bar> / 2 powi ulp_exp \<bar>x\<bar>" using assms
    by (intro scaled_bounds(2)) (auto simp: ulp_exp_def)
  moreover have "ulp_exp \<bar>x\<bar> = ulp_exp x" by (simp add: ulp_exp_def)
  ultimately have "2 ^ 52 * 2 powi ulp_exp x \<le> \<bar>x\<bar>" by (simp add: field_simps)
  then show ?thesis using rr_error [of x] by simp
qed simp

lemma rr_sum_error:
  assumes "rep a" "rep b"
  shows "\<bar>rr (a + b) - (a + b)\<bar> \<le> \<bar>a + b\<bar> / 2 ^ 53"
proof (cases "- 1074 < ulp_exp (a + b)")
  case True
  then show ?thesis by (rule rr_rel_error)
next
  case False
  then have u: "ulp_exp (a + b) = - 1074" by (auto simp: ulp_exp_def)
  have dy: "\<exists>n. q = of_int n * 2 powi (- 1074)" if "rep q" for q
  proof -
    from that obtain m e where q: "q = of_int m * 2 powi e" "- 1074 \<le> e" by (auto simp: rep_def)
    define k where "k = nat (e + 1074)"
    have "e = - 1074 + int k" using q(2) by (simp add: k_def)
    then have "q = of_int (m * 2 ^ k) * 2 powi (- 1074)"
      using q(1) by (simp only: powi_split) (simp add: power_int_def)
    then show ?thesis by blast
  qed
  obtain m n where "a = of_int m * 2 powi (- 1074)" "b = of_int n * 2 powi (- 1074)"
    using dy assms by blast
  then have s: "a + b = of_int (m + n) * 2 powi (- 1074)" by (simp add: algebra_simps)
  have "(2::rat) powi (- 1074) \<noteq> 0" using ulp_pos [of "- 1074"] by linarith
  then have "(a + b) / 2 powi (- 1074) = of_int (m + n)" by (metis s nonzero_mult_div_cancel_right)
  then have "rr (a + b) = a + b" unfolding rr_def u by (simp only: rhe_of_int s [symmetric]) simp
  then show ?thesis by simp
qed

section \<open>Operations on raw values\<close>

fun rneg :: "raw \<Rightarrow> raw" where
  "rneg RNaN = RNaN"
| "rneg RNInf = RPInf"
| "rneg (RFin q) = RFin (- q)"
| "rneg RPInf = RNInf"

fun rsgn :: "raw \<Rightarrow> int" where
  "rsgn RNaN = 0"
| "rsgn RNInf = -1"
| "rsgn (RFin q) = (if 0 < q then 1 else if q < 0 then -1 else 0)"
| "rsgn RPInf = 1"

fun rinf :: "int \<Rightarrow> raw" where
  "rinf s = (if 0 < s then RPInf else if s < 0 then RNInf else RNaN)"

fun radd :: "raw \<Rightarrow> raw \<Rightarrow> raw" where
  "radd RNaN y = RNaN"
| "radd x RNaN = RNaN"
| "radd (RFin a) (RFin b) = rnd (a + b)"
| "radd (RFin a) y = y"
| "radd x (RFin b) = x"
| "radd x y = (if x = y then x else RNaN)"

fun rmul :: "raw \<Rightarrow> raw \<Rightarrow> raw" where
  "rmul (RFin a) (RFin b) = rnd (a * b)"
| "rmul x y = rinf (rsgn x * rsgn y)"

fun rdiv :: "raw \<Rightarrow> raw \<Rightarrow> raw" where
  "rdiv RNaN y = RNaN"
| "rdiv x RNaN = RNaN"
| "rdiv (RFin a) (RFin b) = (if b = 0 then rinf (rsgn (RFin a)) else rnd (a / b))"
| "rdiv (RFin a) y = RFin 0"
| "rdiv x (RFin b) = (if b < 0 then rneg x else x)"
| "rdiv x y = RNaN"

fun rlt :: "raw \<Rightarrow> raw \<Rightarrow> bool" where
  "rlt (RFin a) (RFin b) = (a < b)"
| "rlt RNaN y = False"
| "rlt x RNaN = False"
| "rlt x RNInf = False"
| "rlt RPInf y = False"
| "rlt x y = True"

fun rle :: "raw \<Rightarrow> raw \<Rightarrow> bool" where
  "rle (RFin a) (RFin b) = (a \<le> b)"
| "rle RNaN y = False"
| "rle x RNaN = False"
| "rle RNInf y = True"
| "rle x RPInf = True"
| "rle x y = False"

text \<open>Integer square root, and the correctly rounded square root: \<open>s\<close> is the root truncated to
  600 binary places; when it is not exact, one more binary place (a sticky bit) decides the
  rounding, and no rounding boundary lies strictly between two such values.\<close>

fun isqrt :: "int \<Rightarrow> int" where
  "isqrt n = (if n \<le> 0 then 0
     else let r = 2 * isqrt (n div 4) in if (r + 1) * (r + 1) \<le> n then r + 1 else r)"

declare isqrt.simps [simp del]

definition sqrt_q :: "rat \<Rightarrow> rat" where
  "sqrt_q q = (let n = \<lfloor>q * 4 ^ 600\<rfloor>; s = isqrt n
     in if s * s = n then of_int s / 2 ^ 600 else of_int (2 * s + 1) / 2 ^ 601)"

fun rsqrt :: "raw \<Rightarrow> raw" where
  "rsqrt (RFin q) = (if q < 0 then RNaN else rnd (sqrt_q q))"
| "rsqrt RPInf = RPInf"
| "rsqrt x = RNaN"

fun rfloor :: "raw \<Rightarrow> raw" where
  "rfloor (RFin q) = RFin (of_int \<lfloor>q\<rfloor>)"
| "rfloor x = x"

fun wf :: "raw \<Rightarrow> bool" where
  "wf (RFin q) = rep q"
| "wf x = True"

lemma rep_less: "rep q \<Longrightarrow> \<bar>q\<bar> < 2 ^ 1024"
  unfolding rep_def by (rule conjunct2)

lemma rep_0 [simp, intro]: "rep 0"
  by (auto simp: rep_def intro!: exI [of _ 0])

lemma rep_minus [simp]: "rep (- q) = rep q"
proof -
  have "rep (- q)" if "rep q" for q
  proof -
    from that obtain m e where "q = of_int m * 2 powi e" "\<bar>m\<bar> \<le> 2 ^ 53" "- 1074 \<le> e" "\<bar>q\<bar> < 2 ^ 1024"
      by (auto simp: rep_def)
    then show ?thesis unfolding rep_def by (intro conjI exI [of _ "- m"] exI [of _ e]) auto
  qed
  from this [of q] this [of "- q"] show ?thesis by auto
qed

lemma wf_rnd [simp]: "wf (rnd x)"
  using rep_rr [of x] by (auto simp: rnd_def Let_def)

lemma rnd_rep [simp]: "rep q \<Longrightarrow> rnd q = RFin q"
  using rep_less [of q] by (simp only: rnd_def rr_rep Let_def if_True)

lemma wf_rneg [simp]: "wf x \<Longrightarrow> wf (rneg x)" by (cases x) auto
lemma wf_rinf [simp]: "wf (rinf s)" by simp
lemma wf_radd [simp]: "wf x \<Longrightarrow> wf y \<Longrightarrow> wf (radd x y)" by (cases x; cases y) auto
lemma wf_rmul [simp]: "wf x \<Longrightarrow> wf y \<Longrightarrow> wf (rmul x y)" by (cases x; cases y) (auto simp del: rinf.simps)
lemma wf_rdiv [simp]: "wf x \<Longrightarrow> wf y \<Longrightarrow> wf (rdiv x y)" by (cases x; cases y) (auto simp del: rinf.simps)
lemma wf_rsqrt [simp]: "wf x \<Longrightarrow> wf (rsqrt x)" by (cases x) auto

lemma floor_rep: "rep q \<Longrightarrow> rep (of_int \<lfloor>q\<rfloor>)"
proof -
  assume r: "rep q"
  then obtain m e where q: "q = of_int m * 2 powi e" "\<bar>m\<bar> \<le> 2 ^ 53" "- 1074 \<le> e" "\<bar>q\<bar> < 2 ^ 1024"
    by (auto simp: rep_def)
  show "rep (of_int \<lfloor>q\<rfloor>)"
  proof (cases "0 \<le> e")
    case True
    then have "q = of_int (m * 2 ^ nat e)" by (simp add: q(1) powi_nat)
    then have "of_int \<lfloor>q\<rfloor> = q" by (simp only: floor_of_int)
    then show ?thesis using r by (simp only:)
  next
    case False
    then have p: "(2::rat) powi e \<le> 1" using powi_le_mono [of e 0] by simp
    have am: "(of_int \<bar>m\<bar> :: rat) \<le> of_int (2 ^ 53)" using q(2) by (simp only: of_int_le_iff)
    have "\<bar>q\<bar> = of_int \<bar>m\<bar> * 2 powi e" by (simp add: q(1) abs_mult)
    also have "\<dots> \<le> of_int (2 ^ 53) * 1" using p am by (intro mult_mono) auto
    finally have "\<bar>q\<bar> \<le> of_int (2 ^ 53)" by simp
    then have b: "\<lfloor>q\<rfloor> \<le> 2 ^ 53" "- (2 ^ 53) \<le> \<lfloor>q\<rfloor>" by (auto simp: le_floor_iff floor_le_iff abs_le_iff)
    then have "\<bar>\<lfloor>q\<rfloor>\<bar> \<le> 2 ^ 53" by linarith
    then have "(of_int \<bar>\<lfloor>q\<rfloor>\<bar> :: rat) \<le> of_int (2 ^ 53)" by (simp only: of_int_le_iff)
    then have "\<bar>of_int \<lfloor>q\<rfloor>\<bar> \<le> (2::rat) ^ 53" by simp
    also have "\<dots> < 2 ^ 1024" by (rule power_strict_increasing) auto
    finally show ?thesis using \<open>\<bar>\<lfloor>q\<rfloor>\<bar> \<le> 2 ^ 53\<close> unfolding rep_def
      by (intro conjI exI [of _ "\<lfloor>q\<rfloor>"] exI [of _ 0]) auto
  qed
qed

lemma wf_rfloor [simp]: "wf x \<Longrightarrow> wf (rfloor x)" by (cases x) (auto intro: floor_rep)

section \<open>The type\<close>

typedef double = "{r. wf r}"
  by (rule exI [of _ RNaN]) simp

setup_lifting type_definition_double

lift_definition D :: "rat \<Rightarrow> double" is rnd by simp
lift_definition DNaN :: double is RNaN by simp
lift_definition DInf :: double is RPInf by simp
lift_definition DNInf :: double is RNInf by simp

text \<open>\<open>std::isfinite\<close>, and the rational a finite double denotes (0 for the others).\<close>

lift_definition fin :: "double \<Rightarrow> bool" is "\<lambda>r. case r of RFin q \<Rightarrow> True | _ \<Rightarrow> False" .
lift_definition val :: "double \<Rightarrow> rat" is "\<lambda>r. case r of RFin q \<Rightarrow> q | _ \<Rightarrow> 0" .

instantiation double :: "{equal, zero, one, plus, minus, uminus, times, inverse, ord}"
begin

text \<open>Equality of HOL on doubles is identity of the values; the C++ \<open>==\<close> is \<open>deq\<close> below, which
  differs on NaN only.\<close>

lift_definition equal_double :: "double \<Rightarrow> double \<Rightarrow> bool" is "\<lambda>x y. x = y" .
definition zero_double :: double where "0 = D 0"
definition one_double :: double where "1 = D 1"
lift_definition plus_double :: "double \<Rightarrow> double \<Rightarrow> double" is radd by simp
lift_definition minus_double :: "double \<Rightarrow> double \<Rightarrow> double" is "\<lambda>x y. radd x (rneg y)" by simp
lift_definition uminus_double :: "double \<Rightarrow> double" is rneg by simp
lift_definition times_double :: "double \<Rightarrow> double \<Rightarrow> double" is rmul by simp
lift_definition divide_double :: "double \<Rightarrow> double \<Rightarrow> double" is rdiv by simp
definition inverse_double :: "double \<Rightarrow> double" where "inverse_double x = D 1 div x"
lift_definition less_double :: "double \<Rightarrow> double \<Rightarrow> bool" is rlt .
lift_definition less_eq_double :: "double \<Rightarrow> double \<Rightarrow> bool" is rle .

instance
  by standard (transfer, simp)

end

lift_definition dsqrt :: "double \<Rightarrow> double" is rsqrt by simp
lift_definition dfloor :: "double \<Rightarrow> double" is rfloor by simp

text \<open>\<open>operator==\<close>, \<open>std::max\<close>, \<open>std::min\<close>, \<open>std::abs\<close> on doubles, and the conversion of an integer.\<close>

definition deq :: "double \<Rightarrow> double \<Rightarrow> bool" where
  "deq x y \<longleftrightarrow> x \<le> y \<and> y \<le> x"

definition dmax :: "double \<Rightarrow> double \<Rightarrow> double" where
  "dmax a b = (if a < b then b else a)"

definition dmin :: "double \<Rightarrow> double \<Rightarrow> double" where
  "dmin a b = (if b < a then b else a)"

definition dabs :: "double \<Rightarrow> double" where
  "dabs x = (if x < 0 then - x else x)"

definition dnat :: "nat \<Rightarrow> double" where
  "dnat n = D (of_nat n)"

subsection \<open>Finite values\<close>

lemma fin_D [simp]: "rep q \<Longrightarrow> fin (D q)"
  by transfer simp

lemma val_D [simp]: "rep q \<Longrightarrow> val (D q) = q"
  by transfer simp

lemma rep_val [simp, intro]: "rep (val x)"
  by transfer (auto split: raw.splits)

lemma D_val [simp]: "fin x \<Longrightarrow> D (val x) = x"
  by transfer (auto split: raw.splits)

lemma double_cases [case_names NaN NInf Fin Inf]:
  obtains "x = DNaN" | "x = DNInf" | q where "rep q" "x = D q" | "x = DInf"
proof (cases "fin x")
  case True
  then show ?thesis using that(3) [of "val x"] by simp
next
  case False
  then have "x = DNaN \<or> x = DNInf \<or> x = DInf" by transfer (auto split: raw.splits)
  then show ?thesis using that by blast
qed

lemma fin_cases:
  assumes "fin x"
  obtains q where "rep q" "x = D q" "val x = q"
  using assms that [of "val x"] by simp

lemma fin_special [simp]: "\<not> fin DNaN" "\<not> fin DInf" "\<not> fin DNInf"
  by (transfer, simp)+

lemma D_inject [simp]: "rep a \<Longrightarrow> rep b \<Longrightarrow> D a = D b \<longleftrightarrow> a = b"
  by transfer simp

lemma D_special [simp]:
  "rep a \<Longrightarrow> D a \<noteq> DNaN" "rep a \<Longrightarrow> D a \<noteq> DInf" "rep a \<Longrightarrow> D a \<noteq> DNInf"
  "DInf \<noteq> DNaN" "DNInf \<noteq> DNaN" "DInf \<noteq> DNInf"
  by (transfer, simp)+

lemma D_arith:
  assumes "rep a" "rep b"
  shows D_add: "D a + D b = D (a + b)" and D_diff: "D a - D b = D (a - b)"
    and D_mult: "D a * D b = D (a * b)" and D_div: "b \<noteq> 0 \<Longrightarrow> D a div D b = D (a / b)"
    and D_less: "D a < D b \<longleftrightarrow> a < b" and D_le: "D a \<le> D b \<longleftrightarrow> a \<le> b"
    and D_deq: "deq (D a) (D b) \<longleftrightarrow> a = b"
proof -
  show "D a \<le> D b \<longleftrightarrow> a \<le> b" using assms by transfer simp
  moreover have "D b \<le> D a \<longleftrightarrow> b \<le> a" using assms by transfer simp
  ultimately show "deq (D a) (D b) \<longleftrightarrow> a = b" by (auto simp: deq_def)
qed (use assms in \<open>transfer, simp\<close>)+

lemma fin_val_less: "fin x \<Longrightarrow> fin y \<Longrightarrow> x < y \<longleftrightarrow> val x < val y"
  by (metis D_less D_val rep_val)

lemma fin_val_le: "fin x \<Longrightarrow> fin y \<Longrightarrow> x \<le> y \<longleftrightarrow> val x \<le> val y"
  by (metis D_le D_val rep_val)

lemma fin_add: "fin x \<Longrightarrow> fin y \<Longrightarrow> x + y = D (val x + val y)"
  by (metis D_add D_val rep_val)

lemma fin_diff: "fin x \<Longrightarrow> fin y \<Longrightarrow> x - y = D (val x - val y)"
  by (metis D_diff D_val rep_val)

lemma fin_mult: "fin x \<Longrightarrow> fin y \<Longrightarrow> x * y = D (val x * val y)"
  by (metis D_mult D_val rep_val)

lemma fin_div: "fin x \<Longrightarrow> fin y \<Longrightarrow> val y \<noteq> 0 \<Longrightarrow> x div y = D (val x / val y)"
  by (metis D_div D_val rep_val)

lemma fin_0 [simp]: "fin 0" and val_0 [simp]: "val 0 = 0"
  by (simp_all add: zero_double_def)

subsection \<open>Small rationals are represented\<close>

lemma rep_int: "\<bar>n\<bar> \<le> 2 ^ 53 \<Longrightarrow> rep (of_int n)"
proof -
  assume b: "\<bar>n\<bar> \<le> 2 ^ 53"
  then have "(of_int \<bar>n\<bar> :: rat) \<le> of_int (2 ^ 53)" by (simp only: of_int_le_iff)
  then have "\<bar>of_int n\<bar> \<le> (2::rat) ^ 53" by simp
  also have "\<dots> < 2 ^ 1024" by (rule power_strict_increasing) auto
  finally show "rep (of_int n)" using b unfolding rep_def
    by (intro conjI exI [of _ n] exI [of _ 0]) auto
qed

lemma rep_1 [simp]: "rep 1"
  using rep_int [of 1] by simp

lemma rep_numeral [simp]: "(numeral n :: int) \<le> 2 ^ 53 \<Longrightarrow> rep (numeral n)"
  using rep_int [of "numeral n"] by simp

lemma rep_of_nat [simp]: "n \<le> 2 ^ 53 \<Longrightarrow> rep (of_nat n)"
  using rep_int [of "int n"] by simp

lemma rep_dyadic:
  assumes "\<bar>m\<bar> \<le> 2 ^ 53" "k \<le> 1074"
  shows "rep (of_int m / 2 ^ k)"
proof -
  have "(of_int \<bar>m\<bar> :: rat) \<le> of_int (2 ^ 53)" using assms(1) by (simp only: of_int_le_iff)
  then have m: "\<bar>of_int m\<bar> \<le> (2::rat) ^ 53" by simp
  have "\<bar>of_int m / 2 ^ k\<bar> = \<bar>of_int m\<bar> / (2::rat) ^ k" by (simp add: abs_divide)
  also have "\<dots> \<le> \<bar>of_int m\<bar> / 1" by (rule divide_left_mono) auto
  also have "\<dots> \<le> 2 ^ 53" using m by simp
  also have "\<dots> < 2 ^ 1024" by (rule power_strict_increasing) auto
  finally have "\<bar>of_int m / 2 ^ k\<bar> < (2::rat) ^ 1024" .
  moreover have "of_int m / 2 ^ k = of_int m * (2::rat) powi (- int k)"
    by (simp add: power_int_minus field_simps)
  ultimately show ?thesis using assms unfolding rep_def
    by (intro conjI exI [of _ m] exI [of _ "- int k"]) auto
qed

lemma rep_half [simp]: "(numeral n :: int) \<le> 2 ^ 53 \<Longrightarrow> rep (numeral n / 2)"
  and rep_quarter [simp]: "(numeral n :: int) \<le> 2 ^ 53 \<Longrightarrow> rep (numeral n / 4)"
  and rep_eighth [simp]: "(numeral n :: int) \<le> 2 ^ 53 \<Longrightarrow> rep (numeral n / 8)"
  and rep_1_2 [simp]: "rep (1 / 2)" and rep_1_4 [simp]: "rep (1 / 4)" and rep_1_8 [simp]: "rep (1 / 8)"
  using rep_dyadic [of "numeral n" 1] rep_dyadic [of "numeral n" 2] rep_dyadic [of "numeral n" 3]
    rep_dyadic [of 1 1] rep_dyadic [of 1 2] rep_dyadic [of 1 3] by auto

lemma D_minus [simp]: "rep a \<Longrightarrow> - D a = D (- a)"
  by transfer simp

subsection \<open>Evaluation on literals\<close>

lemma D_0 [simp]: "D 0 = 0" and D_1 [simp]: "D 1 = 1"
  by (simp_all add: zero_double_def one_double_def)

declare D_arith [simp]

lemma D_eq_01 [simp]:
  "rep a \<Longrightarrow> D a = 0 \<longleftrightarrow> a = 0" "rep a \<Longrightarrow> 0 = D a \<longleftrightarrow> a = 0"
  "rep a \<Longrightarrow> D a = 1 \<longleftrightarrow> a = 1" "(0::double) \<noteq> 1" "(1::double) \<noteq> 0"
  by (auto simp add: zero_double_def one_double_def simp del: D_0 D_1)

lemma D_ord_01 [simp]:
  "rep a \<Longrightarrow> 0 \<le> D a \<longleftrightarrow> 0 \<le> a" "rep a \<Longrightarrow> D a \<le> 0 \<longleftrightarrow> a \<le> 0"
  "rep a \<Longrightarrow> 0 < D a \<longleftrightarrow> 0 < a" "rep a \<Longrightarrow> D a < 0 \<longleftrightarrow> a < 0"
  "rep a \<Longrightarrow> 1 \<le> D a \<longleftrightarrow> 1 \<le> a" "rep a \<Longrightarrow> D a \<le> 1 \<longleftrightarrow> a \<le> 1"
  "rep a \<Longrightarrow> 1 < D a \<longleftrightarrow> 1 < a" "rep a \<Longrightarrow> D a < 1 \<longleftrightarrow> a < 1"
  "rep a \<Longrightarrow> deq (D a) 0 \<longleftrightarrow> a = 0" "rep a \<Longrightarrow> deq 0 (D a) \<longleftrightarrow> a = 0"
  "rep a \<Longrightarrow> deq (D a) 1 \<longleftrightarrow> a = 1" "rep a \<Longrightarrow> deq 1 (D a) \<longleftrightarrow> a = 1"
  "deq 1 1" "\<not> deq 1 0" "\<not> deq 0 1"
  "(0::double) \<le> 0" "\<not> (0::double) < 0" "deq 0 0" "(0::double) < 1" "(0::double) \<le> 1"
  "\<not> (1::double) \<le> 0" "\<not> (1::double) < 0" "(1::double) \<le> 1" "\<not> (1::double) < 1"
  by (simp_all add: zero_double_def one_double_def del: D_0 D_1)

lemma fin_1 [simp]: "fin 1" and val_1 [simp]: "val 1 = 1"
  using fin_D [of 1] val_D [of 1] by simp_all

lemma D_minus_0 [simp]: "- (0::double) = 0"
  unfolding zero_double_def by transfer simp

lemma D_ar_01 [simp]:
  "rep a \<Longrightarrow> 1 + D a = D (1 + a)" "rep a \<Longrightarrow> D a + 1 = D (a + 1)"
  "rep a \<Longrightarrow> 0 - D a = D (- a)" "rep a \<Longrightarrow> 1 - D a = D (1 - a)" "rep a \<Longrightarrow> D a - 1 = D (a - 1)"
  "rep a \<Longrightarrow> a \<noteq> 0 \<Longrightarrow> 0 div D a = 0" "rep a \<Longrightarrow> a \<noteq> 0 \<Longrightarrow> 1 div D a = D (1 / a)"
  "(1::double) + 1 = D 2" "(1::double) - 1 = 0"
  by (simp_all add: zero_double_def one_double_def del: D_0 D_1)

lemma dadd_commute: "(x::double) + y = y + x"
  by (transfer, case_tac x; case_tac y) (auto simp: add.commute)

lemma dmult_commute: "(x::double) * y = y * x"
  by (transfer, case_tac x; case_tac y) (auto simp: mult.commute)

lemma dadd_0_right [simp]: "(x::double) + 0 = x"
  unfolding zero_double_def by (transfer, case_tac x, simp_all)

lemma dadd_0_left [simp]: "0 + (x::double) = x"
  by (simp add: dadd_commute [of 0])

lemma ddiff_0 [simp]: "(x::double) - 0 = x"
  unfolding zero_double_def by (transfer, case_tac x, simp_all)

lemma dmult_1_right [simp]: "(x::double) * 1 = x"
  unfolding one_double_def by (transfer, case_tac x, simp_all)

lemma dmult_1_left [simp]: "1 * (x::double) = x"
  by (simp add: dmult_commute [of 1])

lemma ddiv_1 [simp]: "(x::double) div 1 = x"
  unfolding one_double_def by (transfer, case_tac x, simp_all)

lemma dmult_0 [simp]: "fin x \<Longrightarrow> (x::double) * 0 = 0" "fin x \<Longrightarrow> 0 * (x::double) = 0"
  by (auto simp: fin_mult)

lemma ddiff_self [simp]: "fin x \<Longrightarrow> (x::double) - x = 0"
  by (auto simp: fin_diff)

lemma ddiv_0_left [simp]: "fin y \<Longrightarrow> val y \<noteq> 0 \<Longrightarrow> 0 div (y::double) = 0"
  by (simp add: fin_div)

lemma D_nonrep: "\<bar>rr q\<bar> < 2 ^ 1024 \<Longrightarrow> D q = D (rr q)"
proof -
  assume h: "\<bar>rr q\<bar> < 2 ^ 1024"
  have "rr (rr q) = rr q" using rep_rr [OF h] by (rule rr_rep)
  then have "rnd q = rnd (rr q)" by (simp only: rnd_def)
  then show ?thesis by transfer
qed

section \<open>Order and sign\<close>

lemma rnd_mono: "a \<le> b \<Longrightarrow> rle (rnd a) (rnd b)"
proof -
  assume "a \<le> b"
  then have m: "rr a \<le> rr b" by (rule rr_mono)
  define B where "B = (2::rat) ^ 1024"
  have "0 < B" unfolding B_def by (rule zero_less_power) simp
  then show ?thesis using m unfolding rnd_def Let_def B_def [symmetric] by (auto simp: abs_less_iff)
qed

lemma D_mono: "a \<le> b \<Longrightarrow> D a \<le> D b"
  by transfer (rule rnd_mono)

lemma D_nonneg: "0 \<le> a \<Longrightarrow> 0 \<le> D a"
  using D_mono [of 0 a] by simp

lemma D_nonpos: "a \<le> 0 \<Longrightarrow> D a \<le> 0"
  using D_mono [of a 0] by simp

lemma dle_trans [trans]: "(x::double) \<le> y \<Longrightarrow> y \<le> z \<Longrightarrow> x \<le> z"
  by (transfer, case_tac x; case_tac y; case_tac z) auto

lemma dless_le_trans [trans]: "(x::double) < y \<Longrightarrow> y \<le> z \<Longrightarrow> x < z"
  by (transfer, case_tac x; case_tac y; case_tac z) auto

lemma dle_less_trans [trans]: "(x::double) \<le> y \<Longrightarrow> y < z \<Longrightarrow> x < z"
  by (transfer, case_tac x; case_tac y; case_tac z) auto

lemma dless_imp_le: "(x::double) < y \<Longrightarrow> x \<le> y"
  by (transfer, case_tac x; case_tac y) auto

lemma dless_irrefl [simp]: "\<not> (x::double) < x"
  by (transfer, case_tac x) auto

lemma dless_not_le: "(x::double) < y \<Longrightarrow> \<not> y \<le> x"
  by (transfer, case_tac x; case_tac y) auto

lemma dle_not_less: "(x::double) \<le> y \<Longrightarrow> \<not> y < x"
  by (transfer, case_tac x; case_tac y) auto

lemma fin_le_refl [simp]: "fin x \<Longrightarrow> x \<le> x"
  by (simp add: fin_val_le)

lemma dnot_less: "fin x \<Longrightarrow> fin y \<Longrightarrow> \<not> x < y \<longleftrightarrow> y \<le> x"
  by (auto simp: fin_val_less fin_val_le)

lemma dnot_le: "fin x \<Longrightarrow> fin y \<Longrightarrow> \<not> x \<le> y \<longleftrightarrow> y < x"
  by (auto simp: fin_val_less fin_val_le)

lemma dle_antisym: "(x::double) \<le> y \<Longrightarrow> y \<le> x \<Longrightarrow> x = y"
  by (transfer, case_tac x; case_tac y) auto

lemma deq_iff: "fin x \<or> fin y \<Longrightarrow> deq x y \<longleftrightarrow> x = y"
  by (auto simp: deq_def dle_antisym)

lemma deq_imp_eq: "deq x y \<Longrightarrow> x = y"
  by (auto simp: deq_def dle_antisym)

lemma dadd_nonneg: "(0::double) \<le> x \<Longrightarrow> 0 \<le> y \<Longrightarrow> 0 \<le> x + y"
  unfolding zero_double_def
  by (transfer, case_tac x; case_tac y) (auto intro: rnd_mono [of 0, simplified])

lemma ddiff_nonneg: "fin y \<Longrightarrow> (y::double) \<le> x \<Longrightarrow> 0 \<le> x - y"
  unfolding zero_double_def
  by (transfer, case_tac x; case_tac y) (auto intro: rnd_mono [of 0, simplified])

lemma dmult_nonneg: "fin x \<Longrightarrow> fin y \<Longrightarrow> 0 \<le> x \<Longrightarrow> 0 \<le> y \<Longrightarrow> 0 \<le> x * y"
  by (auto simp: fin_mult fin_val_le intro!: D_nonneg mult_nonneg_nonneg)

lemma ddiv_nonneg: "fin y \<Longrightarrow> 0 \<le> x \<Longrightarrow> 0 < y \<Longrightarrow> 0 \<le> x div (y::double)"
  unfolding zero_double_def
  by (transfer, case_tac x; case_tac y) (auto intro: rnd_mono [of 0, simplified])

lemma dadd_ge: "fin x \<Longrightarrow> 0 \<le> y \<Longrightarrow> (x::double) \<le> x + y"
  unfolding zero_double_def
proof (transfer, goal_cases)
  case (1 x y)
  then show ?case using rnd_mono [of "case x of RFin a \<Rightarrow> a" "(case x of RFin a \<Rightarrow> a) + (case y of RFin b \<Rightarrow> b)"]
    by (cases x; cases y) auto
qed

lemma ddiff_le: "fin x \<Longrightarrow> 0 \<le> y \<Longrightarrow> x - y \<le> (x::double)"
  unfolding zero_double_def
proof (transfer, goal_cases)
  case (1 x y)
  then show ?case using rnd_mono [of "(case x of RFin a \<Rightarrow> a) - (case y of RFin b \<Rightarrow> b)" "case x of RFin a \<Rightarrow> a"]
    by (cases x; cases y) auto
qed

lemma dadd_mono: "fin a \<Longrightarrow> fin b \<Longrightarrow> fin x \<Longrightarrow> fin y \<Longrightarrow> a \<le> x \<Longrightarrow> b \<le> y \<Longrightarrow> a + b \<le> x + (y::double)"
  by (auto simp: fin_add fin_val_le intro!: D_mono)

lemma ddiff_mono: "fin a \<Longrightarrow> fin b \<Longrightarrow> fin x \<Longrightarrow> fin y \<Longrightarrow> a \<le> x \<Longrightarrow> y \<le> b \<Longrightarrow> a - b \<le> x - (y::double)"
  by (auto simp: fin_diff fin_val_le intro!: D_mono)

text \<open>A bounded result does not overflow.\<close>

lemma fin_between: "fin a \<Longrightarrow> fin b \<Longrightarrow> a \<le> x \<Longrightarrow> x \<le> b \<Longrightarrow> fin (x::double)"
  by (transfer, case_tac a; case_tac b; case_tac x) auto

lemma fin_diff_nonneg: "fin x \<Longrightarrow> fin y \<Longrightarrow> 0 \<le> y \<Longrightarrow> y \<le> x \<Longrightarrow> fin (x - (y::double))"
  using fin_between [of 0 x "x - y"] ddiff_nonneg ddiff_le by auto

lemma dle_fin: "x \<le> y \<Longrightarrow> fin y \<Longrightarrow> 0 \<le> x \<Longrightarrow> fin (x::double)"
  using fin_between [of 0 y x] by auto

text \<open>\<open>std::max\<close> and \<open>std::min\<close>.\<close>

lemma fin_dmax [simp]: "fin x \<Longrightarrow> fin y \<Longrightarrow> fin (dmax x y)"
  and fin_dmin [simp]: "fin x \<Longrightarrow> fin y \<Longrightarrow> fin (dmin x y)"
  by (auto simp: dmax_def dmin_def)

lemma dmax_ge: "fin x \<Longrightarrow> fin y \<Longrightarrow> x \<le> dmax x y" "fin x \<Longrightarrow> fin y \<Longrightarrow> y \<le> dmax x y"
  by (auto simp: dmax_def dnot_less dless_imp_le)

lemma dmin_le: "fin x \<Longrightarrow> fin y \<Longrightarrow> dmin x y \<le> x" "fin x \<Longrightarrow> fin y \<Longrightarrow> dmin x y \<le> y"
  by (auto simp: dmin_def dnot_less dless_imp_le)

lemma dmax_nonneg: "0 \<le> dmax 0 x"
  by (auto simp: dmax_def dless_imp_le)

text \<open>The rounding error of a sum or a difference of finite values is at most one part in \<open>2 ^ 53\<close> of
  the exact result, in the subnormal range too.\<close>

lemma val_D_eq_rr: "fin (D q) \<Longrightarrow> val (D q) = rr q"
  by transfer (auto simp: rnd_def Let_def split: if_splits)

lemma dadd_error:
  "fin x \<Longrightarrow> fin y \<Longrightarrow> fin (x + y) \<Longrightarrow> \<bar>val (x + y) - (val x + val y)\<bar> \<le> \<bar>val x + val y\<bar> / 2 ^ 53"
  by (simp add: fin_add val_D_eq_rr rr_sum_error del: power_numeral)

lemma ddiff_error:
  "fin x \<Longrightarrow> fin y \<Longrightarrow> fin (x - y) \<Longrightarrow> \<bar>val (x - y) - (val x - val y)\<bar> \<le> \<bar>val x - val y\<bar> / 2 ^ 53"
  using rr_sum_error [of "val x" "- val y"] by (simp add: fin_diff val_D_eq_rr del: power_numeral)

section \<open>Literals\<close>

text \<open>A literal that no double represents exactly, such as \<open>1.001\<close>, stays \<open>D (1001 / 1000)\<close>; these facts give its
  range.\<close>

lemma fin_lit: "\<bar>q\<bar> \<le> 2 ^ 53 \<Longrightarrow> fin (D q)"
proof -
  assume "\<bar>q\<bar> \<le> 2 ^ 53"
  then have "D (- (2 ^ 53)) \<le> D q" "D q \<le> D (2 ^ 53)" by (auto intro!: D_mono)
  moreover have "fin (D (- (2 ^ 53)))" "fin (D (2 ^ 53))" by simp_all
  ultimately show ?thesis using fin_between by blast
qed

lemma D_pos: "1 / 2 ^ 60 \<le> q \<Longrightarrow> 0 < D q"
proof -
  assume "1 / 2 ^ 60 \<le> q"
  then have "D (1 / 2 ^ 60) \<le> D q" by (rule D_mono)
  moreover have "0 < D (1 / 2 ^ 60)" using rep_dyadic [of 1 60] by simp
  ultimately show ?thesis using dless_le_trans by blast
qed

lemma D_ge_1: "1 \<le> q \<Longrightarrow> 1 \<le> D q"
  using D_mono [of 1 q] by simp

lemma D_uminus: "- D q = D (- q)"
proof -
  define B where "B = (2::rat) ^ 1024"
  have "rneg (rnd q) = rnd (- q)"
    unfolding rnd_def Let_def rr_minus B_def [symmetric]
    by (auto simp: B_def zero_less_power)
  then show ?thesis by transfer
qed

lemma dminus_diff: "fin x \<Longrightarrow> fin y \<Longrightarrow> - (x - y) = y - (x::double)"
  by (simp add: fin_diff D_uminus)

lemma rep_scaled: "n \<le> 2 ^ 53 \<Longrightarrow> k \<le> 900 \<Longrightarrow> rep (2 ^ k * of_nat n)"
proof -
  assume n: "n \<le> 2 ^ 53" and k: "k \<le> 900"
  have "(of_nat n :: rat) \<le> of_nat (2 ^ 53)" using n by (simp only: of_nat_le_iff)
  then have "(2::rat) ^ k * of_nat n \<le> 2 ^ k * 2 ^ 53" by (intro mult_left_mono) auto
  also have "\<dots> = 2 ^ (k + 53)" by (simp only: power_add)
  also have "\<dots> < 2 ^ 1024" using k by (intro power_strict_increasing) auto
  finally have l: "(2::rat) ^ k * of_nat n < 2 ^ 1024" .
  have "0 \<le> (2::rat) ^ k * of_nat n" by (intro mult_nonneg_nonneg) auto
  then have "\<bar>2 ^ k * of_nat n\<bar> < (2::rat) ^ 1024" using l by (simp only: abs_of_nonneg)
  moreover have "2 ^ k * of_nat n = of_int (int n) * (2::rat) powi (int k)"
    by (simp only: of_int_of_nat_eq power_int_of_nat mult.commute)
  moreover have "\<bar>int n\<bar> \<le> 2 ^ 53" using n by (metis abs_of_nat of_nat_le_iff of_nat_numeral of_nat_power)
  moreover have "- 1074 \<le> int k" by simp
  ultimately show ?thesis unfolding rep_def by blast
qed

text \<open>The conversion of a count.\<close>

lemma dnat_0 [simp]: "dnat 0 = 0" and dnat_1 [simp]: "dnat 1 = 1" "dnat (Suc 0) = 1"
  and dnat_numeral [simp]: "dnat (numeral n) = D (numeral n)"
  by (simp_all add: dnat_def)

lemma fin_dnat [simp]: "n \<le> 2 ^ 53 \<Longrightarrow> fin (dnat n)" and val_dnat [simp]: "n \<le> 2 ^ 53 \<Longrightarrow> val (dnat n) = of_nat n"
  by (simp_all add: dnat_def)

text \<open>Dividing by at least 1 does not increase a nonnegative value (the divisor may be infinite).\<close>

lemma ddiv_ge_1:
  assumes "fin x" "0 \<le> x" "1 \<le> y"
  shows "0 \<le> x / y \<and> x / y \<le> (x::double)"
proof (cases y rule: double_cases)
  case (Fin q)
  then have q: "1 \<le> q" using assms(3) by simp
  obtain p where p: "rep p" "x = D p" using assms(1) by (rule fin_cases)
  then have p0: "0 \<le> p" using assms(2) by simp
  have "p / q \<le> p" using p0 q by (simp add: divide_le_eq mult_le_cancel_left1)
  moreover have "0 \<le> p / q" using p0 q by simp
  ultimately show ?thesis using p Fin q D_mono [of 0 "p / q"] D_mono [of "p / q" p] by simp
next
  case Inf
  have "x / DInf = 0" using assms(1) unfolding zero_double_def by transfer (auto split: raw.splits)
  then show ?thesis using assms Inf by simp
next
  case NaN
  have "\<not> 1 \<le> DNaN" unfolding one_double_def by transfer simp
  then show ?thesis using assms NaN by simp
next
  case NInf
  have "\<not> 1 \<le> DNInf" unfolding one_double_def by transfer simp
  then show ?thesis using assms NInf by simp
qed

lemma dsqrt_not_neg: "\<not> dsqrt x < 0"
proof -
  have b: "0 \<le> isqrt n" for n
    by (induction n rule: isqrt.induct) (subst isqrt.simps, auto simp: Let_def)
  have "0 \<le> sqrt_q q" for q using b [of "\<lfloor>q * 4 ^ 600\<rfloor>"] unfolding sqrt_q_def Let_def
    by (auto simp del: power_numeral intro!: divide_nonneg_nonneg)
  then have "\<not> rlt (rnd (sqrt_q q)) (rnd 0)" for q
    using rnd_mono [of 0 "sqrt_q q"] by (cases "rnd (sqrt_q q)") auto
  then show ?thesis unfolding zero_double_def
    by transfer (case_tac x, simp_all del: rnd_rep add: rnd_rep [of 0])
qed

text \<open>Comparisons with the special values.\<close>

lemma nan_ord1 [simp]: "\<not> x \<le> DNaN"
  by (transfer, case_tac x) auto

lemma nan_ord2 [simp]: "\<not> DNaN \<le> x"
  by (transfer, case_tac x) auto

lemma nan_ord3 [simp]: "\<not> x < DNaN"
  by (transfer, case_tac x) auto

lemma nan_ord4 [simp]: "\<not> DNaN < x"
  by (transfer, case_tac x) auto

lemma inf_ord1 [simp]: "fin x \<Longrightarrow> x < DInf"
  by (transfer, case_tac x) auto

lemma inf_ord2 [simp]: "fin x \<Longrightarrow> \<not> DInf < x"
  by (transfer, case_tac x) auto

lemma inf_ord3 [simp]: "fin x \<Longrightarrow> \<not> DInf \<le> x"
  by (transfer, case_tac x) auto

lemma inf_ord4 [simp]: "fin x \<Longrightarrow> x \<le> DInf"
  by (transfer, case_tac x) auto

lemma inf_ord5 [simp]: "fin x \<Longrightarrow> DNInf < x"
  by (transfer, case_tac x) auto

lemma inf_ord6 [simp]: "fin x \<Longrightarrow> \<not> x < DNInf"
  by (transfer, case_tac x) auto

lemma inf_ord7 [simp]: "fin x \<Longrightarrow> DNInf \<le> x"
  by (transfer, case_tac x) auto

lemma inf_ord8 [simp]: "fin x \<Longrightarrow> \<not> x \<le> DNInf"
  by (transfer, case_tac x) auto

lemma special_ord_0 [simp]:
  "0 < DInf" "0 \<le> DInf" "\<not> DInf < 0" "\<not> DInf \<le> 0" "DNInf < 0" "DNInf \<le> 0" "\<not> 0 < DNInf" "\<not> 0 \<le> DNInf"
  by simp_all

lemma dnot_less_nonneg: "0 \<le> x \<Longrightarrow> fin y \<Longrightarrow> \<not> y < x \<Longrightarrow> x \<le> y"
  by (cases x rule: double_cases) (auto simp: dnot_less)

text \<open>Subtracting a finite value and clamping at 0.\<close>

lemma not_less_D_nonpos: "q \<le> 0 \<Longrightarrow> \<not> D q < 0 \<Longrightarrow> D q = 0"
proof -
  assume q: "q \<le> 0" "\<not> D q < 0"
  show ?thesis
  proof (cases "D q" rule: double_cases)
    case (Fin p)
    then have "p \<le> 0" "\<not> p < 0" using q D_nonpos [of q] by auto
    then show ?thesis using Fin by simp
  next
    case NaN
    then show ?thesis using D_nonpos [of q] q by simp
  next
    case Inf
    then show ?thesis using D_nonpos [of q] q by simp
  next
    case NInf
    then show ?thesis using q by simp
  qed
qed

lemma ddiff_clamp: "0 \<le> x \<Longrightarrow> fin y \<Longrightarrow> 0 \<le> (if x - y < 0 then 0 else x - y)"
proof -
  assume x: "0 \<le> x" and y: "fin y"
  show ?thesis
  proof (cases x rule: double_cases)
    case Inf
    have "DInf - y = DInf" using y by transfer (auto split: raw.splits)
    then show ?thesis using Inf by simp
  next
    case (Fin q)
    then have "x - y = D (q - val y)" using y by (simp add: fin_diff)
    moreover have "0 \<le> D (q - val y)" if "\<not> D (q - val y) < 0"
    proof (cases "0 \<le> q - val y")
      case True
      then show ?thesis by (rule D_nonneg)
    next
      case False
      then have "D (q - val y) = 0" using that by (intro not_less_D_nonpos) auto
      then show ?thesis by simp
    qed
    ultimately show ?thesis by simp
  qed (use x in auto)
qed

lemma fin_D_big: "\<bar>q\<bar> \<le> 2 ^ 101 \<Longrightarrow> fin (D q)"
proof -
  assume q: "\<bar>q\<bar> \<le> 2 ^ 101"
  have r: "rep (2 ^ 101)" using rep_scaled [of 1 101] by simp
  have "D (- (2 ^ 101)) \<le> D q" by (rule D_mono) (use q in linarith)
  moreover have "D q \<le> D (2 ^ 101)" by (rule D_mono) (use q in linarith)
  moreover have "fin (D (2 ^ 101))" using r by (rule fin_D)
  moreover have "fin (D (- (2 ^ 101)))" by (rule fin_D) (simp only: rep_minus r)
  ultimately show ?thesis using fin_between by blast
qed

lemma val_0_iff: "fin x \<Longrightarrow> val x = 0 \<longleftrightarrow> x = 0"
  by (metis D_0 D_val val_0)


text \<open>Rounding a literal: within half a unit of a multiple of \<open>2 ^ - k\<close> in the binade of that unit.\<close>

lemma rhe_near: "\<bar>x - of_int m\<bar> < 1 / 2 \<Longrightarrow> rhe x = m"
proof -
  assume h: "\<bar>x - of_int m\<bar> < 1 / 2"
  have "\<bar>(of_int (rhe x) :: rat) - of_int m\<bar> < 1" using h rhe_error [of x] by linarith
  then have "(of_int \<bar>rhe x - m\<bar> :: rat) < of_int 1" by simp
  then show ?thesis by (simp only: of_int_less_iff)
qed

lemma rr_near:
  assumes k: "k \<le> 1074" and q: "2 ^ 52 \<le> q * 2 ^ k" "q * 2 ^ k < 2 ^ 53" "\<bar>q * 2 ^ k - of_int m\<bar> < 1 / 2"
  shows "rr q = of_int m / 2 ^ k"
proof -
  have e: "(2::rat) powi (52 - int k) = 2 ^ 52 / 2 ^ k" "(2::rat) powi (53 - int k) = 2 ^ 53 / 2 ^ k"
    "(2::rat) powi (- int k) = 1 / 2 ^ k"
    using powi_split [of 52 "- int k"] powi_split [of 53 "- int k"] by (simp_all add: power_int_minus field_simps)
  have q1: "2 powi (52 - int k) \<le> q" "q < 2 powi (53 - int k)"
    using q by (simp_all only: e pos_divide_le_eq pos_less_divide_eq zero_less_power zero_less_numeral)
  then have pos: "0 < q" using ulp_pos [of "52 - int k"] by linarith
  have "ilog2 q = 52 - int k" using ilog2_ge [OF pos q1(1)] ilog2_less [OF pos, of "53 - int k"] q1(2) by linarith
  then have u: "ulp_exp q = - int k" using k pos by (simp add: ulp_exp_def)
  have "q / 2 powi (- int k) = q * 2 ^ k" by (simp only: e) simp
  then show ?thesis using pos rhe_near [OF q(3)] by (simp only: rr_def u if_False) (simp add: e(3))
qed

lemma D_near:
  assumes "k \<le> 1074" "2 ^ 52 \<le> q * 2 ^ k" "q * 2 ^ k < 2 ^ 53" "\<bar>q * 2 ^ k - of_int m\<bar> < 1 / 2" "\<bar>m\<bar> \<le> 2 ^ 53"
  shows "D q = D (of_int m / 2 ^ k) \<and> rep (of_int m / 2 ^ k)"
proof -
  have r: "rr q = of_int m / 2 ^ k" using rr_near assms by blast
  moreover have "rep (of_int m / 2 ^ k)" using assms(1,5) rep_dyadic by blast
  moreover from this have "\<bar>rr q\<bar> < 2 ^ 1024" using rep_less r by metis
  ultimately show ?thesis using D_nonrep by metis
qed

end
