(* ===== verification/TextFormat.thy ===== *)
theory TextFormat
  imports Double64
begin

text \<open>
  The text the program makes of numbers: \<open>std::to_string\<close> of integers and a stream with \<open>std::fixed\<close>
  and \<open>std::setprecision\<close> (correctly rounded decimal expansion, ties to even, as the C library does).
\<close>

definition digit :: "nat \<Rightarrow> char" where
  "digit n = char_of (48 + n)"

function nat_str :: "nat \<Rightarrow> string" where
  "nat_str n = (if n < 10 then [digit n] else nat_str (n div 10) @ [digit (n mod 10)])"
  by pat_completeness auto
termination by (relation "measure id") auto

declare nat_str.simps [simp del]

definition int_str :: "int \<Rightarrow> string" where
  "int_str i = (if i < 0 then ''-'' @ nat_str (nat (- i)) else nat_str (nat i))"

text \<open>The last \<open>n\<close> decimal digits of \<open>k\<close>, with leading zeros.\<close>

fun pad_digits :: "nat \<Rightarrow> nat \<Rightarrow> string" where
  "pad_digits 0 k = []"
| "pad_digits (Suc n) k = pad_digits n (k div 10) @ [digit (k mod 10)]"

definition fixed_rat :: "nat \<Rightarrow> rat \<Rightarrow> string" where
  "fixed_rat prec q =
     (let k = nat (rhe (\<bar>q\<bar> * 10 ^ prec))
      in (if q < 0 then ''-'' else []) @ nat_str (k div 10 ^ prec) @
         (if prec = 0 then [] else ''.'' @ pad_digits prec k))"

definition fixed_str :: "nat \<Rightarrow> double \<Rightarrow> string" where
  "fixed_str prec x =
     (if fin x then fixed_rat prec (val x)
      else if x = DInf then ''inf'' else if x = DNInf then ''-inf'' else ''nan'')"

lemma length_pad_digits [simp]: "length (pad_digits n k) = n"
  by (induction n arbitrary: k) auto

lemma nat_str_nonempty [simp]: "nat_str n \<noteq> []"
  by (subst nat_str.simps) auto

end
