(* ===== verification/NumberText.thy ===== *)
theory NumberText
  imports TextFormat Prelude
begin

text \<open>
  Reading numbers: what \<open>std::from_chars\<close>, \<open>std::strtod\<close> and \<open>std::stod\<close> of the C++ library do with a decimal text,
  and the wrappers of the program around them (\<open>parseDoubleOr\<close> of \<open>src/src/api/upbit/mappers/OpenOrdersMapper.h\<close>,
  \<open>toDoubleOrZero\<close> of \<open>AccountMapper.h\<close>). A conversion is correctly rounded to binary64. A range
  error is an infinite result or, as the GNU library reports it, a nonzero number below the least normal double.
\<close>

section \<open>Characters\<close>

abbreviation code :: "char \<Rightarrow> nat" where
  "code c \<equiv> of_char c"

definition is_digit :: "char \<Rightarrow> bool" where
  "is_digit c \<longleftrightarrow> 48 \<le> code c \<and> code c \<le> 57"

definition is_space :: "char \<Rightarrow> bool" where
  "is_space c \<longleftrightarrow> code c = 32 \<or> 9 \<le> code c \<and> code c \<le> 13"

definition lower :: "char \<Rightarrow> char" where
  "lower c = (if 65 \<le> code c \<and> code c \<le> 90 then char_of (code c + 32) else c)"

text \<open>The value of a hexadecimal digit, or \<open>-1\<close>: \<open>fromHex\<close> of \<open>src/src/util/UrlCodec.h\<close>.\<close>

definition fromHex :: "char \<Rightarrow> int" where
  "fromHex c =
     (if 48 \<le> code c \<and> code c \<le> 57 then int (code c) - 48
      else if 65 \<le> code c \<and> code c \<le> 70 then 10 + (int (code c) - 65)
      else if 97 \<le> code c \<and> code c \<le> 102 then 10 + (int (code c) - 97)
      else - 1)"

definition digits_val :: "nat \<Rightarrow> string \<Rightarrow> nat" where
  "digits_val base s = foldl (\<lambda>acc c. acc * base + nat (fromHex c)) 0 s"

section \<open>Scanning a number\<close>

text \<open>An exponent part \<open>e[+-]digits\<close>; without digits nothing of it is consumed.\<close>

definition scan_exp :: "char \<Rightarrow> string \<Rightarrow> int \<times> string" where
  "scan_exp mark s =
     (case s of
        [] \<Rightarrow> (0, s)
      | c # t \<Rightarrow>
          if lower c \<noteq> mark then (0, s)
          else let (neg, u) = (case t of CHR ''-'' # u \<Rightarrow> (True, u) | CHR ''+'' # u \<Rightarrow> (False, u) | _ \<Rightarrow> (False, t));
                   ds = takeWhile is_digit u
               in if ds = [] then (0, s)
                  else ((if neg then - int (digits_val 10 ds) else int (digits_val 10 ds)), dropWhile is_digit u))"

text \<open>Digits with an optional fraction and exponent: the value and the rest.\<close>

definition scan_number :: "nat \<Rightarrow> (char \<Rightarrow> bool) \<Rightarrow> char \<Rightarrow> rat \<Rightarrow> string \<Rightarrow> (rat \<times> string) option" where
  "scan_number base isd mark exp_base s =
     (let ip = takeWhile isd s;
          r = dropWhile isd s;
          (fp, r1) = (case r of CHR ''.'' # t \<Rightarrow> (takeWhile isd t, dropWhile isd t) | _ \<Rightarrow> ([], r))
      in if ip = [] \<and> fp = [] then None
         else let (e, r2) = scan_exp mark r1
              in Some (of_nat (digits_val base (ip @ fp)) / of_nat base ^ length fp * exp_base powi e, r2))"

definition scan_decimal :: "string \<Rightarrow> (rat \<times> string) option" where
  "scan_decimal s = scan_number 10 is_digit (CHR ''e'') 10 s"

definition scan_hex :: "string \<Rightarrow> (rat \<times> string) option" where
  "scan_hex s =
     (case s of
        CHR ''0'' # x # t \<Rightarrow> if lower x = CHR ''x'' then scan_number 16 (\<lambda>c. 0 \<le> fromHex c) (CHR ''p'') 2 t else None
      | _ \<Rightarrow> None)"

definition range_error :: "rat \<Rightarrow> bool" where
  "range_error q \<longleftrightarrow> q \<noteq> 0 \<and> (\<not> fin (D q) \<or> \<bar>q\<bar> < 1 / 2 ^ 1022)"

text \<open>\<open>strtod\<close>: white space, a sign, then a hexadecimal or decimal number, an infinity or a NaN; the rest of the text
  is ignored. \<open>None\<close> is "no conversion", the flag is \<open>errno = ERANGE\<close>.\<close>

definition strtod :: "string \<Rightarrow> (double \<times> bool) option" where
  "strtod s =
     (let s1 = dropWhile is_space s;
          (neg, s2) = (case s1 of CHR ''-'' # t \<Rightarrow> (True, t) | CHR ''+'' # t \<Rightarrow> (False, t) | _ \<Rightarrow> (False, s1));
          num = (case scan_hex s2 of Some r \<Rightarrow> Some r | None \<Rightarrow> scan_decimal s2)
      in case num of
           Some (q, _) \<Rightarrow> Some (D (if neg then - q else q), range_error q)
         | None \<Rightarrow>
             (let w = map lower (take 3 s2)
              in if w = ''inf'' then Some (if neg then DNInf else DInf, False)
                 else if w = ''nan'' then Some (DNaN, False)
                 else None))"

text \<open>\<open>from_chars\<close> into a double, as far as \<open>parseDoubleOr\<close> uses it: the conversion of a text consumed to its end.
  No white space, no plus sign, no hexadecimal form.\<close>

definition from_chars_all :: "string \<Rightarrow> double option" where
  "from_chars_all s =
     (let (neg, s1) = (case s of CHR ''-'' # t \<Rightarrow> (True, t) | _ \<Rightarrow> (False, s))
      in case scan_decimal s1 of
           Some (q, r) \<Rightarrow> if r = [] \<and> \<not> range_error q then Some (D (if neg then - q else q)) else None
         | None \<Rightarrow>
             (if map lower s1 = ''inf'' \<or> map lower s1 = ''infinity'' then Some (if neg then DNInf else DInf)
              else if map lower s1 = ''nan'' then Some DNaN else None))"

definition parseDoubleOr :: "string \<Rightarrow> double \<Rightarrow> double" where
  "parseDoubleOr sv fallback =
     (if sv = [] then fallback
      else case from_chars_all sv of
        Some out \<Rightarrow> out
      | None \<Rightarrow>
          (case strtod sv of
             None \<Rightarrow> fallback
           | Some (v, erange) \<Rightarrow> if erange then fallback else v))"

definition parseOptDouble :: "string option \<Rightarrow> double option" where
  "parseOptDouble s = (case s of None \<Rightarrow> None | Some t \<Rightarrow> Some (parseDoubleOr t 0))"

text \<open>\<open>std::stod\<close> throws on no conversion and on a range error; both become 0.\<close>

definition toDoubleOrZero :: "string \<Rightarrow> double" where
  "toDoubleOrZero s = (case strtod s of None \<Rightarrow> 0 | Some (v, erange) \<Rightarrow> if erange then 0 else v)"

text \<open>\<open>from_chars\<close> into an \<open>int\<close>: the value and the rest, or the error (no digits, out of range).\<close>

definition from_chars_int :: "string \<Rightarrow> (int \<times> string) option" where
  "from_chars_int s =
     (let (neg, s1) = (case s of CHR ''-'' # t \<Rightarrow> (True, t) | _ \<Rightarrow> (False, s));
          ds = takeWhile is_digit s1;
          v = (if neg then - int (digits_val 10 ds) else int (digits_val 10 ds))
      in if ds = [] \<or> v < - (2 ^ 31) \<or> 2 ^ 31 \<le> v then None else Some (v, dropWhile is_digit s1))"

section \<open>Reading back what was written\<close>

lemma code_digit: "n < 10 \<Longrightarrow> code (digit n) = 48 + n"
  by (simp add: digit_def)

lemma is_digit_digit [simp]: "n < 10 \<Longrightarrow> is_digit (digit n)"
  by (simp add: is_digit_def code_digit)

lemma fromHex_digit [simp]: "n < 10 \<Longrightarrow> fromHex (digit n) = int n"
  by (simp add: fromHex_def code_digit)

lemma digits_val_snoc: "digits_val b (s @ [c]) = digits_val b s * b + nat (fromHex c)"
  by (simp add: digits_val_def)

lemma digits_val_Nil [simp]: "digits_val b [] = 0"
  by (simp add: digits_val_def)

lemma nat_str_digits: "list_all is_digit (nat_str n)"
proof (induction n rule: nat_str.induct)
  case (1 n)
  then show ?case by (subst nat_str.simps) auto
qed

lemma digits_val_nat_str [simp]: "digits_val 10 (nat_str n) = n"
proof (induction n rule: nat_str.induct)
  case (1 n)
  then show ?case using digits_val_snoc [of 10 "[]" "digit n"]
    by (subst nat_str.simps) (auto simp: digits_val_snoc)
qed

lemma pad_digits_digits: "list_all is_digit (pad_digits n k)"
  by (induction n arbitrary: k) auto

lemma digits_val_append: "digits_val b (s @ t) = digits_val b s * b ^ length t + digits_val b t"
proof (induction t rule: rev_induct)
  case (snoc c t)
  then show ?case using digits_val_snoc [of b "s @ t" c] digits_val_snoc [of b t c] by (simp add: algebra_simps)
qed simp

lemma digits_val_pad [simp]: "digits_val 10 (pad_digits n k) = k mod 10 ^ n"
proof (induction n arbitrary: k)
  case (Suc n)
  have "k mod 10 ^ Suc n = k div 10 mod 10 ^ n * 10 + k mod 10"
    using mod_mult2_eq [of k 10 "10 ^ n"] by (simp add: mult.commute add.commute)
  then show ?case by (simp add: digits_val_snoc Suc)
qed simp

lemma takeWhile_digits:
  "list_all is_digit s \<Longrightarrow> takeWhile is_digit (s @ t) = s @ takeWhile is_digit t \<and> dropWhile is_digit (s @ t) = dropWhile is_digit t"
  by (induction s) auto

lemma digit_not_special: "is_digit c \<Longrightarrow> c \<noteq> CHR ''.'' \<and> c \<noteq> CHR ''-'' \<and> c \<noteq> CHR ''+'' \<and> \<not> is_space c"
  by (auto simp: is_digit_def is_space_def)

text \<open>A fixed-point text of a nonnegative number reads back as the number the digits stand for.\<close>

lemma scan_fixed:
  assumes "prec > 0"
  shows "scan_decimal (nat_str (k div 10 ^ prec) @ ''.'' @ pad_digits prec k) = Some (of_nat k / 10 ^ prec, [])"
proof -
  have dot: "takeWhile is_digit (CHR ''.'' # t) = []" "dropWhile is_digit (CHR ''.'' # t) = CHR ''.'' # t" for t
    by (simp_all add: is_digit_def)
  have p: "takeWhile is_digit (pad_digits prec k) = pad_digits prec k" "dropWhile is_digit (pad_digits prec k) = []"
    using takeWhile_digits [OF pad_digits_digits, of prec k "[]"] by simp_all
  have v: "digits_val 10 (nat_str (k div 10 ^ prec) @ pad_digits prec k) = k"
    by (simp add: digits_val_append div_mult_mod_eq)
  have "nat_str (k div 10 ^ prec) @ ''.'' @ pad_digits prec k = nat_str (k div 10 ^ prec) @ (CHR ''.'' # pad_digits prec k)" by simp
  then show ?thesis
    by (simp only: scan_decimal_def scan_number_def Let_def takeWhile_digits [OF nat_str_digits] dot p v)
      (simp add: scan_exp_def p v)
qed

lemma scan_nat: "scan_decimal (nat_str k) = Some (of_nat k, [])"
proof -
  have p: "takeWhile is_digit (nat_str k) = nat_str k" "dropWhile is_digit (nat_str k) = []"
    using takeWhile_digits [OF nat_str_digits, of k "[]"] by simp_all
  show ?thesis by (simp add: scan_decimal_def scan_number_def p scan_exp_def)
qed

lemma from_chars_int_nat: "n < 2 ^ 31 \<Longrightarrow> from_chars_int (nat_str n) = Some (int n, [])"
proof -
  assume n: "n < 2 ^ 31"
  have p: "takeWhile is_digit (nat_str n) = nat_str n" "dropWhile is_digit (nat_str n) = []"
    using takeWhile_digits [OF nat_str_digits, of n "[]"] by simp_all
  obtain c cs where c: "nat_str n = c # cs" "is_digit c" using nat_str_nonempty [of n] nat_str_digits [of n] by (cases "nat_str n") auto
  then have "(case nat_str n of CHR ''-'' # t \<Rightarrow> (True, t) | _ \<Rightarrow> (False, nat_str n)) = (False, nat_str n)"
    using digit_not_special [of c] by (auto split: list.split char.split bool.split)
  then show ?thesis using n by (simp add: from_chars_int_def p)
qed

end
