(* ===== verification/Domain.thy ===== *)
theory Domain
  imports Double64
begin

text \<open>
  The domain types of \<open>src/src/core/domain\<close>: orders and their requests, fills, positions,
  accounts, candles, market data. Structs are records whose fields carry a prefix of
  the struct's name, enums are datatypes, \<open>std::variant<VolumeSize, AmountSize>\<close> is a datatype with two
  constructors, \<open>std::int64_t\<close> is a 64-bit word read as signed.
\<close>

type_synonym Price = double
type_synonym Volume = double
type_synonym Amount = double
type_synonym int64 = "64 word"
type_synonym int32 = "32 word"

section \<open>Enumerations\<close>

datatype OrderPosition = ASK | BID

datatype OrderType = Market | Limit

datatype OrderStatus = New | Open | Pending | Filled | Canceled | Rejected

datatype PositionEffect = EffUnknown | EffNone | EffOpened | EffReduced | EffClosed

datatype PriceChangeState = Even | Rise | Fall

fun status_to_string :: "OrderStatus \<Rightarrow> string" where
  "status_to_string New = ''New''"
| "status_to_string Open = ''Open''"
| "status_to_string Pending = ''Pending''"
| "status_to_string Filled = ''Filled''"
| "status_to_string Canceled = ''Canceled''"
| "status_to_string Rejected = ''Rejected''"

section \<open>Orders\<close>

record Order =
  o_market :: string
  o_identifier :: "string option"
  o_id :: string
  o_position :: OrderPosition
  o_type :: OrderType
  o_price :: "Price option"
  o_volume :: "Volume option"
  o_requested_amount :: "Amount option"
  o_executed_volume :: Volume
  o_remaining_volume :: Volume
  o_trades_count :: int
  o_reserved_fee :: Amount
  o_paid_fee :: Amount
  o_remaining_fee :: Amount
  o_locked :: Amount
  o_executed_funds :: Amount
  o_status :: OrderStatus
  o_created_at :: string

definition status_open :: "OrderStatus \<Rightarrow> bool" where
  "status_open s \<longleftrightarrow> s = New \<or> s = Open \<or> s = Pending"

definition status_done :: "OrderStatus \<Rightarrow> bool" where
  "status_done s \<longleftrightarrow> s = Filled \<or> s = Canceled \<or> s = Rejected"

definition isOpen :: "Order \<Rightarrow> bool" where
  "isOpen ord \<longleftrightarrow> status_open (o_status ord)"

definition isDone :: "Order \<Rightarrow> bool" where
  "isDone ord \<longleftrightarrow> status_done (o_status ord)"

lemma isOpen_not_isDone: "isOpen ord \<longleftrightarrow> \<not> isDone ord"
  by (cases "o_status ord") (auto simp: isOpen_def isDone_def status_open_def status_done_def)

datatype OrderSize = VolumeSize Volume | AmountSize Amount

record OrderRequest =
  rq_market :: string
  rq_position :: OrderPosition
  rq_type :: OrderType
  rq_size :: OrderSize
  rq_price :: "Price option"
  rq_strategy_id :: string
  rq_identifier :: string
  rq_client_tag :: string

section \<open>Fills\<close>

record MyTrade =
  t_order_uuid :: string
  t_trade_uuid :: string
  t_market :: string
  t_side :: OrderPosition
  t_price :: Price
  t_volume :: Volume
  t_executed_funds :: Amount
  t_fee :: Amount
  t_is_maker :: "bool option"
  t_trade_timestamp_ms :: int64
  t_identifier :: "string option"
  t_strategy_id :: "string option"
  t_client_tag :: "string option"

definition makeMyTradeFromFill ::
    "string \<Rightarrow> string \<Rightarrow> string \<Rightarrow> OrderPosition \<Rightarrow> Price \<Rightarrow> Volume \<Rightarrow> Amount \<Rightarrow> int64 \<Rightarrow> MyTrade" where
  "makeMyTradeFromFill order_uuid trade_uuid market side price volume fee ts =
     \<lparr> t_order_uuid = order_uuid, t_trade_uuid = trade_uuid, t_market = market, t_side = side,
       t_price = price, t_volume = volume, t_executed_funds = price * volume, t_fee = fee,
       t_is_maker = None, t_trade_timestamp_ms = ts, t_identifier = None,
       t_strategy_id = None, t_client_tag = None \<rparr>"

section \<open>Accounts and market data\<close>

record Position =
  p_currency :: string
  p_free :: double
  p_avg_buy_price :: Price
  p_unit_currency :: string

record Account =
  a_id :: string
  a_krw_free :: Amount
  a_krw_locked :: Amount
  a_positions :: "Position list"
  a_totalAssetValue :: Amount

datatype TimeFrame = MIN_3 | MIN_5 | MIN_10 | MIN_15 | MIN_30 | MIN_60 | MIN_240

record Candle =
  c_market :: string
  c_open_price :: Price
  c_high_price :: Price
  c_low_price :: Price
  c_close_price :: Price
  c_volume :: Volume
  c_start_timestamp :: string

record Ticker =
  tk_market :: string
  tk_opening_price :: Price
  tk_high_price :: Price
  tk_low_price :: Price
  tk_trade_price :: Price
  tk_prev_closing_price :: Price
  tk_trade_timestamp :: int64
  tk_change_price :: double
  tk_change_rate :: double
  tk_trade_volume :: Volume
  tk_acc_trade_volume :: Volume
  tk_acc_trade_volume_24h :: Volume

record OrderbookLevel =
  ol_ask_price :: Price
  ol_ask_size :: Volume
  ol_bid_price :: Price
  ol_bid_size :: Volume

record Orderbook =
  ob_market :: string
  ob_timestamp :: int64
  ob_total_ask_size :: Volume
  ob_total_bid_size :: Volume
  ob_top_levels :: "OrderbookLevel list"
  ob_price_unit :: "double option"

record MarketInfo =
  mi_market :: string
  mi_ko_name :: string
  mi_en_name :: string
  mi_is_warning :: bool

end
