(* ===== verification/Config.thy ===== *)
theory Config
  imports Domain
begin

text \<open>
  The runtime configuration, \<open>src/src/util/Config.h\<close>. The program reads it through a mutable singleton
  (\<open>AppConfig::instance\<close>); here it is an argument \<open>cfg\<close> of the operations that read it, and
  \<open>default_config\<close> holds the initialisers of the source. Durations are in seconds.
\<close>

record AppConfig =
  min_notional_krw :: double
  max_seen_trades :: nat
  max_private_batch :: int
  reserve_margin :: double
  default_trade_fee_rate :: double
  max_backlog :: nat
  idle_timeout_s :: nat
  max_reconnect_attempts :: int
  coin_epsilon :: double
  krw_dust_threshold :: double
  init_dust_threshold_krw :: double
  bot_markets :: "string list"
  live_candle_unit_minutes :: int
  db_path :: string

definition default_config :: AppConfig where
  "default_config =
     \<lparr> min_notional_krw = D 5000, max_seen_trades = 20000, max_private_batch = 256,
       reserve_margin = D (1001 / 1000), default_trade_fee_rate = D (5 / 10000),
       max_backlog = 5000, idle_timeout_s = 1, max_reconnect_attempts = 5,
       coin_epsilon = D (1 / 100000000), krw_dust_threshold = D 1,
       init_dust_threshold_krw = D 5000,
       bot_markets = [''KRW-ADA'', ''KRW-ETH'', ''KRW-XRP''],
       live_candle_unit_minutes = 15, db_path = ''db/coinbot.db'' \<rparr>"

text \<open>What the components rely on: finite, ordered thresholds and a margin that does not shrink a
  reservation.\<close>

definition config_ok :: "AppConfig \<Rightarrow> bool" where
  "config_ok cfg \<longleftrightarrow>
     fin (min_notional_krw cfg) \<and> 0 \<le> min_notional_krw cfg \<and>
     fin (reserve_margin cfg) \<and> 1 \<le> reserve_margin cfg \<and>
     fin (default_trade_fee_rate cfg) \<and> 0 \<le> default_trade_fee_rate cfg \<and>
     fin (coin_epsilon cfg) \<and> 0 < coin_epsilon cfg \<and>
     fin (krw_dust_threshold cfg) \<and> 0 \<le> krw_dust_threshold cfg \<and>
     fin (init_dust_threshold_krw cfg) \<and> 0 \<le> init_dust_threshold_krw cfg"

lemma default_config_ok: "config_ok default_config"
  by (simp add: config_ok_def default_config_def fin_lit D_pos D_ge_1 D_nonneg)

end
