(* ===== verification/UpbitMappers.thy ===== *)
theory UpbitMappers
  imports NumberText Config
begin

text \<open>
  From the exchange's messages to the domain: the data transfer objects of \<open>src/src/api/upbit/dto\<close> that the program
  reads, the mappers of \<open>src/src/api/upbit/mappers\<close>, and the two parsers of \<open>WsMessageParser.cpp\<close>. Reading JSON
  (the third-party nlohmann library and the field accesses through it) is an argument of the parsers: a function from the text to
  the transfer object, or to none where the library or a field access throws. Theory \<open>JsonRead\<close> has the field accesses.
\<close>

section \<open>Transfer objects\<close>

record UpbitMyOrderDto =
  wd_type :: string
  wd_code :: string
  wd_uuid :: string
  wd_ask_bid :: string
  wd_order_type :: string
  wd_state :: string
  wd_price :: double
  wd_volume :: double
  wd_remaining_volume :: double
  wd_executed_volume :: double
  wd_trades_count :: int
  wd_reserved_fee :: double
  wd_remaining_fee :: double
  wd_paid_fee :: double
  wd_locked :: double
  wd_executed_funds :: double
  wd_trade_uuid :: "string option"
  wd_trade_fee :: "double option"
  wd_is_maker :: "bool option"
  wd_identifier :: "string option"
  wd_trade_timestamp :: "int64 option"
  wd_order_timestamp :: "int64 option"
  wd_timestamp :: "int64 option"

datatype Side = Bid | Ask

datatype OrdState = St_wait | St_watch | St_done | St_cancel

datatype OrdCondition = Ioc | Fok | Post_only

datatype SMP = Cancel_maker | Cancel_taker | Reduce

record ArrayOfTrade =
  at_market :: string
  at_uuid :: string
  at_price :: string
  at_volume :: string
  at_funds :: string
  at_trend :: string
  at_created_at :: string
  at_side :: Side

record OrderResponseDto =
  rs_market :: string
  rs_uuid :: string
  rs_side :: Side
  rs_ord_type :: string
  rs_price :: "string option"
  rs_volume :: "string option"
  rs_state :: OrdState
  rs_created_at :: string
  rs_remaining_volume :: "string option"
  rs_executed_volume :: string
  rs_executed_funds :: "string option"
  rs_reserved_fee :: string
  rs_remaining_fee :: string
  rs_paid_fee :: string
  rs_locked :: string
  rs_time_in_force :: "OrdCondition option"
  rs_smp_type :: "SMP option"
  rs_prevented_volume :: string
  rs_prevented_locked :: "string option"
  rs_trades_count :: int
  rs_identifier :: "string option"
  rs_trades :: "ArrayOfTrade list"

record WaitOrderResponseDto =
  wr_market :: string
  wr_uuid :: string
  wr_side :: Side
  wr_ord_type :: string
  wr_price :: "string option"
  wr_volume :: "string option"
  wr_state :: OrdState
  wr_created_at :: string
  wr_remaining_volume :: string
  wr_executed_volume :: string
  wr_executed_funds :: string
  wr_reserved_fee :: string
  wr_remaining_fee :: string
  wr_paid_fee :: string
  wr_locked :: string
  wr_time_in_force :: "OrdCondition option"
  wr_smp_type :: "SMP option"
  wr_prevented_volume :: string
  wr_prevented_locked :: "string option"
  wr_trades_count :: int
  wr_identifier :: "string option"

record AccountDto =
  ad_currency :: string
  ad_balance :: string
  ad_locked :: string
  ad_avg_buy_price :: string
  ad_avg_buy_price_modified :: bool
  ad_unit_currency :: string

record CandleDto_Minute =
  cd_market :: string
  cd_candle_date_time_utc :: string
  cd_candle_date_time_kst :: string
  cd_opening_price :: double
  cd_high_price :: double
  cd_low_price :: double
  cd_trade_price :: double
  cd_timestamp :: int64
  cd_candle_acc_trade_price :: double
  cd_candle_acc_trade_volume :: double
  cd_unit :: int32

record TickerDto =
  td_market :: string
  td_trade_date :: string
  td_trade_time :: string
  td_trade_date_kst :: string
  td_trade_time_kst :: string
  td_trade_timestamp :: int64
  td_opening_price :: double
  td_high_price :: double
  td_low_price :: double
  td_trade_price :: double
  td_prev_closing_price :: double
  td_change :: string
  td_change_price :: double
  td_change_rate :: double
  td_signed_change_price :: double
  td_signed_change_rate :: double
  td_trade_volume :: double
  td_acc_trade_price :: double
  td_acc_trade_price_24h :: double
  td_acc_trade_volume :: double
  td_acc_trade_volume_24h :: double
  td_highest_52_week_price :: double
  td_highest_52_week_date :: string
  td_lowest_52_week_price :: double
  td_lowest_52_week_date :: string
  td_timestamp :: int32

record OrderbookUnitDto =
  ud_ask_price :: double
  ud_ask_size :: double
  ud_bid_price :: double
  ud_bid_size :: double

record OrderbookDto =
  od_market :: string
  od_timestamp :: int64
  od_total_ask_size :: double
  od_total_bid_size :: double
  od_orderbook_units :: "OrderbookUnitDto list"
  od_level :: double

record MarketCautionDto =
  mc_price_fluctuations :: bool
  mc_trading_volume_soaring :: bool
  mc_deposit_amount_soaring :: bool
  mc_global_price_differences :: bool
  mc_concentration_of_small_accounts :: bool

record MarketEventDto =
  mv_warning :: bool
  mv_caution :: "MarketCautionDto option"

record MarketDto =
  md_market :: string
  md_korean_name :: string
  md_english_name :: string
  md_market_event :: "MarketEventDto option"

section \<open>Order events of the web socket\<close>

datatype MyOrderEvent = OrderEv Order | TradeEv MyTrade

definition toSide :: "string \<Rightarrow> OrderPosition" where
  "toSide ask_bid = (if ask_bid = ''ASK'' then ASK else BID)"

definition toOrderType :: "string \<Rightarrow> OrderType" where
  "toOrderType order_type = (if order_type = ''limit'' \<or> order_type = ''best'' then Limit else Market)"

definition toOrderStatus :: "string \<Rightarrow> double \<Rightarrow> OrderStatus" where
  "toOrderStatus state remaining_volume =
     (if state = ''wait'' then Open
      else if state = ''watch'' then Pending
      else if state = ''trade'' then Open
      else if state = ''done'' then Filled
      else if state = ''cancel'' then Canceled
      else if state = ''prevented'' then Canceled
      else Rejected)"

definition toTrade :: "AppConfig \<Rightarrow> UpbitMyOrderDto \<Rightarrow> string \<Rightarrow> MyTrade" where
  "toTrade cfg d trade_uuid =
     (let funds = wd_price d * wd_volume d
      in \<lparr> t_order_uuid = wd_uuid d, t_trade_uuid = trade_uuid, t_market = wd_code d, t_side = toSide (wd_ask_bid d),
           t_price = wd_price d, t_volume = wd_volume d, t_executed_funds = funds,
           t_fee = (case wd_trade_fee d of Some fee \<Rightarrow> fee | None \<Rightarrow> funds * default_trade_fee_rate cfg),
           t_is_maker = wd_is_maker d,
           t_trade_timestamp_ms = (case wd_trade_timestamp d of Some ts \<Rightarrow> ts | None \<Rightarrow> 0),
           t_identifier = wd_identifier d, t_strategy_id = None, t_client_tag = None \<rparr>)"

definition toOrder :: "UpbitMyOrderDto \<Rightarrow> Order" where
  "toOrder d =
     (let pos = toSide (wd_ask_bid d); typ = toOrderType (wd_order_type d); trade = (wd_state d = ''trade'')
      in \<lparr> o_market = wd_code d, o_identifier = wd_identifier d, o_id = wd_uuid d, o_position = pos, o_type = typ,
           o_price = (if trade then None else if typ = Limit then Some (wd_price d) else None),
           o_volume = (if trade then None else if typ = Limit then Some (wd_volume d)
                       else if pos = ASK then Some (wd_volume d) else None),
           o_requested_amount = (if trade then None else if typ = Limit then None
                                 else if pos = ASK then None else Some (wd_price d)),
           o_executed_volume = wd_executed_volume d, o_remaining_volume = wd_remaining_volume d,
           o_trades_count = wd_trades_count d, o_reserved_fee = wd_reserved_fee d, o_paid_fee = wd_paid_fee d,
           o_remaining_fee = wd_remaining_fee d, o_locked = wd_locked d, o_executed_funds = wd_executed_funds d,
           o_status = toOrderStatus (wd_state d) (wd_remaining_volume d),
           o_created_at = (case wd_order_timestamp d of
               Some ts \<Rightarrow> int_str (sint ts)
             | None \<Rightarrow> (case wd_timestamp d of Some ts \<Rightarrow> int_str (sint ts) | None \<Rightarrow> [])) \<rparr>)"

definition toEvents :: "AppConfig \<Rightarrow> UpbitMyOrderDto \<Rightarrow> MyOrderEvent list" where
  "toEvents cfg d =
     (if wd_state d = ''trade''
      then (case wd_trade_uuid d of Some trade_uuid \<Rightarrow> [TradeEv (toTrade cfg d trade_uuid)] | None \<Rightarrow> [])
      else []) @ [OrderEv (toOrder d)]"

section \<open>Orders of the REST interface\<close>

definition toDomainPosition :: "Side \<Rightarrow> OrderPosition" where
  "toDomainPosition s = (case s of Bid \<Rightarrow> BID | Ask \<Rightarrow> ASK)"

definition toDomainOrderType :: "string \<Rightarrow> OrderType" where
  "toDomainOrderType ord_type = (if ord_type = ''limit'' \<or> ord_type = ''best'' then Limit else Market)"

definition toDomainStatus :: "OrdState \<Rightarrow> OrderStatus" where
  "toDomainStatus st = (case st of St_wait \<Rightarrow> Open | St_watch \<Rightarrow> Pending | St_done \<Rightarrow> Filled | St_cancel \<Rightarrow> Canceled)"

definition sumTradeFunds :: "ArrayOfTrade list \<Rightarrow> double" where
  "sumTradeFunds trades = foldl (\<lambda>total t. total + parseDoubleOr (at_funds t) 0) 0 trades"

definition toDomain_wait :: "WaitOrderResponseDto \<Rightarrow> Order" where
  "toDomain_wait dto =
     (let by_amount = (wr_ord_type dto = ''price'')
      in \<lparr> o_market = wr_market dto, o_identifier = wr_identifier dto, o_id = wr_uuid dto,
           o_position = toDomainPosition (wr_side dto), o_type = toDomainOrderType (wr_ord_type dto),
           o_price = (if by_amount then None else parseOptDouble (wr_price dto)),
           o_volume = (if by_amount then None else parseOptDouble (wr_volume dto)),
           o_requested_amount = (if by_amount then parseOptDouble (wr_price dto) else None),
           o_executed_volume = parseDoubleOr (wr_executed_volume dto) 0,
           o_remaining_volume = parseDoubleOr (wr_remaining_volume dto) 0,
           o_trades_count = wr_trades_count dto,
           o_reserved_fee = parseDoubleOr (wr_reserved_fee dto) 0, o_paid_fee = parseDoubleOr (wr_paid_fee dto) 0,
           o_remaining_fee = parseDoubleOr (wr_remaining_fee dto) 0, o_locked = parseDoubleOr (wr_locked dto) 0,
           o_executed_funds = parseDoubleOr (wr_executed_funds dto) 0,
           o_status = toDomainStatus (wr_state dto), o_created_at = wr_created_at dto \<rparr>)"

definition toDomain_order :: "OrderResponseDto \<Rightarrow> Order" where
  "toDomain_order dto =
     (let by_amount = (rs_ord_type dto = ''price'')
      in \<lparr> o_market = rs_market dto, o_identifier = rs_identifier dto, o_id = rs_uuid dto,
           o_position = toDomainPosition (rs_side dto), o_type = toDomainOrderType (rs_ord_type dto),
           o_price = (if by_amount then None else parseOptDouble (rs_price dto)),
           o_volume = (if by_amount then None else parseOptDouble (rs_volume dto)),
           o_requested_amount = (if by_amount then parseOptDouble (rs_price dto) else None),
           o_executed_volume = parseDoubleOr (rs_executed_volume dto) 0,
           o_remaining_volume = (case rs_remaining_volume dto of Some s \<Rightarrow> parseDoubleOr s 0 | None \<Rightarrow> 0),
           o_trades_count = (if rs_trades_count dto = 0 \<and> rs_trades dto \<noteq> [] then int (length (rs_trades dto))
                             else rs_trades_count dto),
           o_reserved_fee = parseDoubleOr (rs_reserved_fee dto) 0, o_paid_fee = parseDoubleOr (rs_paid_fee dto) 0,
           o_remaining_fee = parseDoubleOr (rs_remaining_fee dto) 0, o_locked = parseDoubleOr (rs_locked dto) 0,
           o_executed_funds = (case rs_executed_funds dto of Some s \<Rightarrow> parseDoubleOr s 0 | None \<Rightarrow> sumTradeFunds (rs_trades dto)),
           o_status = toDomainStatus (rs_state dto), o_created_at = rs_created_at dto \<rparr>)"

definition toDomain_wait_list :: "WaitOrderResponseDto list \<Rightarrow> Order list" where
  "toDomain_wait_list dtoList = map toDomain_wait dtoList"

section \<open>Accounts and quotations\<close>

fun toDomain_rows :: "AccountDto list \<Rightarrow> Account \<Rightarrow> Account" where
  "toDomain_rows [] a = a"
| "toDomain_rows (row # rows) a =
     (let bal = toDoubleOrZero (ad_balance row);
          lck = toDoubleOrZero (ad_locked row);
          avg = toDoubleOrZero (ad_avg_buy_price row);
          a1 = (if ad_currency row = ''KRW'' then a \<lparr> a_krw_free := bal, a_krw_locked := lck \<rparr> else a);
          p = \<lparr> p_currency = ad_currency row, p_free = bal, p_avg_buy_price = avg, p_unit_currency = ad_unit_currency row \<rparr>
      in toDomain_rows rows (a1 \<lparr> a_positions := a_positions a1 @ [p] \<rparr>))"

definition toDomain_account :: "AccountDto list \<Rightarrow> Account" where
  "toDomain_account rows = toDomain_rows rows
     \<lparr> a_id = ''inguk'', a_krw_free = 0, a_krw_locked = 0, a_positions = [], a_totalAssetValue = 0 \<rparr>"

definition toDomain_candle :: "CandleDto_Minute \<Rightarrow> Candle" where
  "toDomain_candle dto =
     \<lparr> c_market = cd_market dto, c_open_price = cd_opening_price dto, c_high_price = cd_high_price dto,
       c_low_price = cd_low_price dto, c_close_price = cd_trade_price dto, c_volume = cd_candle_acc_trade_volume dto,
       c_start_timestamp = cd_candle_date_time_kst dto \<rparr>"

definition toDomain_ticker :: "TickerDto \<Rightarrow> Ticker" where
  "toDomain_ticker dto =
     \<lparr> tk_market = td_market dto, tk_opening_price = td_opening_price dto, tk_high_price = td_high_price dto,
       tk_low_price = td_low_price dto, tk_trade_price = td_trade_price dto,
       tk_prev_closing_price = td_prev_closing_price dto, tk_trade_timestamp = td_trade_timestamp dto,
       tk_change_price = td_signed_change_price dto, tk_change_rate = td_signed_change_rate dto,
       tk_trade_volume = td_trade_volume dto, tk_acc_trade_volume = td_acc_trade_volume dto,
       tk_acc_trade_volume_24h = td_acc_trade_volume_24h dto \<rparr>"

definition toDomain_orderbook :: "OrderbookDto \<Rightarrow> Orderbook" where
  "toDomain_orderbook dto =
     \<lparr> ob_market = od_market dto, ob_timestamp = od_timestamp dto, ob_total_ask_size = od_total_ask_size dto,
       ob_total_bid_size = od_total_bid_size dto,
       ob_top_levels = map (\<lambda>u. \<lparr> ol_ask_price = ud_ask_price u, ol_ask_size = ud_ask_size u,
                                 ol_bid_price = ud_bid_price u, ol_bid_size = ud_bid_size u \<rparr>) (od_orderbook_units dto),
       ob_price_unit = (if 0 < od_level dto then Some (od_level dto) else None) \<rparr>"

definition toDomain_market :: "MarketDto \<Rightarrow> MarketInfo" where
  "toDomain_market dto =
     \<lparr> mi_market = md_market dto, mi_ko_name = md_korean_name dto, mi_en_name = md_english_name dto, mi_is_warning = False \<rparr>"

definition toTimeFrameFromMinuteUnit :: "int \<Rightarrow> TimeFrame" where
  "toTimeFrameFromMinuteUnit unit =
     (if unit = 3 then MIN_3 else if unit = 5 then MIN_5 else if unit = 10 then MIN_10 else if unit = 15 then MIN_15
      else if unit = 30 then MIN_30 else if unit = 60 then MIN_60 else if unit = 240 then MIN_240 else MIN_5)"

section \<open>Messages of the web socket\<close>

definition parseMinuteCandleUnit :: "string \<Rightarrow> int option" where
  "parseMinuteCandleUnit type =
     (let prefix = ''candle.''
      in if \<not> starts_with type prefix \<or> length type \<le> length prefix + 1 then None
         else if last type \<noteq> CHR ''m'' then None
         else let number = take (length type - length prefix - 1) (drop (length prefix) type)
              in case from_chars_int number of
                   None \<Rightarrow> None
                 | Some (unit, rest) \<Rightarrow> if rest \<noteq> [] \<or> unit \<le> 0 then None else Some unit)"

record WsCandleResult =
  wc_candle :: Candle
  wc_unit_minutes :: int

definition parseMyOrder :: "(string \<Rightarrow> UpbitMyOrderDto option) \<Rightarrow> AppConfig \<Rightarrow> string \<Rightarrow> MyOrderEvent list" where
  "parseMyOrder read_order cfg json = (case read_order json of None \<Rightarrow> [] | Some dto \<Rightarrow> toEvents cfg dto)"

text \<open>\<open>read_type\<close> is \<open>Inr None\<close> where the text is no JSON, the member \<open>type\<close> (or its default \<open>''''\<close>) where it is an
  object, and the exception of the library where it is no object or its \<open>type\<close> no string: that call stands outside
  of the \<open>try\<close> of the source.\<close>

definition parseCandle ::
    "(string \<Rightarrow> exn + string option) \<Rightarrow> (string \<Rightarrow> CandleDto_Minute option) \<Rightarrow> string \<Rightarrow> int \<Rightarrow> exn + WsCandleResult option" where
  "parseCandle read_type read_candle json configured_fallback_unit =
     (case read_type json of
        Inl e \<Rightarrow> Inl e
      | Inr None \<Rightarrow> Inr None
      | Inr (Some type) \<Rightarrow>
          if \<not> starts_with type ''candle'' then Inr None
          else let unit = (case parseMinuteCandleUnit type of Some u \<Rightarrow> u | None \<Rightarrow> configured_fallback_unit)
               in case read_candle json of
                    None \<Rightarrow> Inr None
                  | Some dto \<Rightarrow> Inr (Some \<lparr> wc_candle = toDomain_candle dto, wc_unit_minutes = unit \<rparr>))"

section \<open>Properties\<close>

text \<open>
  A fill always reaches the engine before the snapshot that may close its order, and a fill message never
  closes an order: the events of a message end with exactly one order snapshot, at most one fill comes before it, a fill
  comes only from a message in state \<open>trade\<close> and belongs to the same order, market and side, and the snapshot
  of such a message is open and leaves the requested price, volume and amount unset.
\<close>

theorem order_events_shape:
  assumes "read_order json = Some d"
  shows "\<exists>fills. parseMyOrder read_order cfg json = map TradeEv fills @ [OrderEv (toOrder d)] \<and>
     length fills = (if wd_state d = ''trade'' \<and> wd_trade_uuid d \<noteq> None then 1 else 0) \<and>
     map (\<lambda>t. (t_order_uuid t, t_market t, t_side t)) fills =
       replicate (length fills) (o_id (toOrder d), o_market (toOrder d), o_position (toOrder d)) \<and>
     (wd_state d = ''trade'' \<longrightarrow> isOpen (toOrder d) \<and> o_price (toOrder d) = None \<and> o_volume (toOrder d) = None
        \<and> o_requested_amount (toOrder d) = None)"
proof -
  define fills where "fills = (if wd_state d = ''trade'' then
      (case wd_trade_uuid d of Some u \<Rightarrow> [toTrade cfg d u] | None \<Rightarrow> []) else [])"
  have "parseMyOrder read_order cfg json = map TradeEv fills @ [OrderEv (toOrder d)]"
    using assms by (simp add: parseMyOrder_def toEvents_def fills_def split: option.split)
  moreover have "length fills = (if wd_state d = ''trade'' \<and> wd_trade_uuid d \<noteq> None then 1 else 0)"
    by (simp add: fills_def split: option.split)
  moreover have "map (\<lambda>t. (t_order_uuid t, t_market t, t_side t)) fills =
      replicate (length fills) (o_id (toOrder d), o_market (toOrder d), o_position (toOrder d))"
    by (simp add: fills_def toTrade_def toOrder_def Let_def split: option.split)
  moreover have "wd_state d = ''trade'' \<longrightarrow> isOpen (toOrder d) \<and> o_price (toOrder d) = None \<and> o_volume (toOrder d) = None
      \<and> o_requested_amount (toOrder d) = None"
    by (simp add: toOrder_def toOrderStatus_def isOpen_def status_open_def Let_def)
  ultimately show ?thesis by blast
qed

definition ws_example :: UpbitMyOrderDto where
  "ws_example = \<lparr> wd_type = ''myOrder'', wd_code = ''KRW-BTC'', wd_uuid = ''u1'', wd_ask_bid = ''BID'', wd_order_type = ''price'',
     wd_state = ''wait'', wd_price = D 5000, wd_volume = 0, wd_remaining_volume = 0, wd_executed_volume = 0,
     wd_trades_count = 0, wd_reserved_fee = 0, wd_remaining_fee = 0, wd_paid_fee = 0, wd_locked = D 5000,
     wd_executed_funds = 0, wd_trade_uuid = None, wd_trade_fee = None, wd_is_maker = None, wd_identifier = None,
     wd_trade_timestamp = None, wd_order_timestamp = None, wd_timestamp = None \<rparr>"

theorem order_events_shape_witness:
  "\<exists>t. parseMyOrder (\<lambda>_. Some (ws_example \<lparr> wd_state := ''trade'', wd_trade_uuid := Some ''t1'' \<rparr>)) default_config ''{}'' =
     [TradeEv t, OrderEv (toOrder (ws_example \<lparr> wd_state := ''trade'', wd_trade_uuid := Some ''t1'' \<rparr>))]"
  using order_events_shape [of "\<lambda>_. Some (ws_example \<lparr> wd_state := ''trade'', wd_trade_uuid := Some ''t1'' \<rparr>)" "''{}''" _
      default_config, OF refl]
  by (auto simp: length_Suc_conv)

end
