(* ===== verification/BoundedFifo.thy ===== *)
theory BoundedFifo
  imports Prelude "HOL-Library.Sublist"
begin

text \<open>
  The interface of a buffer that drops its oldest element when it is full. The event queue
  (\<open>core/BlockingQueue.h\<close>) and the indicator window (\<open>trading/indicators/RingBuffer.h\<close>) both provide
  it; the clients (event routing, SMA, close[N] windows) use only these laws: what a buffer
  holds after a sequence of pushes, and that its size never exceeds the capacity.
\<close>

locale bounded_fifo =
  fixes contents :: "'q \<Rightarrow> 'a list"
    and cap :: "'q \<Rightarrow> nat"
    and push :: "'a \<Rightarrow> 'q \<Rightarrow> 'q"
    and ok :: "'q \<Rightarrow> bool"
  assumes push_ok: "ok q \<Longrightarrow> ok (push x q)"
    and push_cap: "ok q \<Longrightarrow> cap (push x q) = cap q"
    and push_contents: "ok q \<Longrightarrow> 0 < cap q \<Longrightarrow>
      contents (push x q) = (if length (contents q) < cap q then contents q @ [x] else tl (contents q) @ [x])"
    and length_le: "ok q \<Longrightarrow> 0 < cap q \<Longrightarrow> length (contents q) \<le> cap q"
begin

lemma push_last_n:
  assumes "ok q" "0 < cap q"
  shows "contents (push x q) = last_n (cap q) (contents q @ [x])"
  using push_contents [OF assms] length_le [OF assms] last_n_snoc [OF assms(2), of "contents q" x] by auto

lemma fold_push_ok: "ok q \<Longrightarrow> ok (fold push xs q) \<and> cap (fold push xs q) = cap q"
  by (induction xs arbitrary: q) (auto simp: push_ok push_cap)

lemma fold_push_contents:
  assumes "ok q" "0 < cap q"
  shows "contents (fold push xs q) = last_n (cap q) (contents q @ xs)"
  using assms
proof (induction xs arbitrary: q)
  case Nil
  then show ?case by (simp add: length_le)
next
  case (Cons x xs)
  then have "contents (fold push (x # xs) q) = last_n (cap q) (last_n (cap q) (contents q @ [x]) @ xs)"
    by (simp add: push_ok push_cap push_last_n)
  then show ?case by (simp add: last_n_append_last_n)
qed

lemma push_newest: "ok q \<Longrightarrow> 0 < cap q \<Longrightarrow> contents (push x q) \<noteq> [] \<and> last (contents (push x q)) = x"
  by (simp add: push_contents)

lemma push_length: "ok q \<Longrightarrow> 0 < cap q \<Longrightarrow> length (contents (push x q)) = min (cap q) (length (contents q) + 1)"
  using length_le [of q] by (auto simp: push_last_n)

lemma push_subseq: "ok q \<Longrightarrow> 0 < cap q \<Longrightarrow> subseq (contents (push x q)) (contents q @ [x])"
proof -
  assume q: "ok q" "0 < cap q"
  have "subseq (tl (contents q)) (contents q)" by (cases "contents q") auto
  then show ?thesis using q by (auto simp: push_contents)
qed

end

end
