(* ===== verification/RingBuffer.thy ===== *)
theory RingBuffer
  imports BoundedFifo
begin

text \<open>
  The fixed-capacity ring buffer of the indicators, \<open>src/src/trading/indicators/RingBuffer.h\<close>, with its
  physical layout: \<open>rb_buf\<close> is the preallocated vector, \<open>rb_head\<close> the physical index of the oldest element,
  \<open>rb_size\<close> the number of live elements. \<open>rb_list\<close> is the abstract content, oldest first; the
  lemmas show that the modular index arithmetic implements the list operations. The counters are
  naturals: \<open>head + size + cap\<close> stays below \<open>3 * cap\<close>, far from the end of \<open>std::size_t\<close> for any
  vector that fits in memory, so no addition of the source wraps.

  The last section is \<open>ThreadSafeRingBuffer.h\<close>, the same buffer behind a mutex.
\<close>

record 'a RingBuffer =
  rb_buf :: "'a list"
  rb_cap :: nat
  rb_head :: nat
  rb_size :: nat

definition rb_new :: "'a \<Rightarrow> nat \<Rightarrow> 'a RingBuffer" where
  "rb_new dflt capacity = \<lparr> rb_buf = replicate capacity dflt, rb_cap = capacity, rb_head = 0, rb_size = 0 \<rparr>"

definition rb_reset :: "'a \<Rightarrow> nat \<Rightarrow> 'a RingBuffer \<Rightarrow> 'a RingBuffer" where
  "rb_reset dflt capacity rb =
     rb \<lparr> rb_buf := replicate capacity dflt, rb_cap := capacity, rb_head := 0, rb_size := 0 \<rparr>"

definition rb_clear :: "'a RingBuffer \<Rightarrow> 'a RingBuffer" where
  "rb_clear rb = rb \<lparr> rb_head := 0, rb_size := 0 \<rparr>"

definition rb_empty :: "'a RingBuffer \<Rightarrow> bool" where
  "rb_empty rb \<longleftrightarrow> rb_size rb = 0"

definition rb_full :: "'a RingBuffer \<Rightarrow> bool" where
  "rb_full rb \<longleftrightarrow> rb_cap rb \<noteq> 0 \<and> rb_size rb = rb_cap rb"

definition rb_hasEnough :: "nat \<Rightarrow> 'a RingBuffer \<Rightarrow> bool" where
  "rb_hasEnough n rb \<longleftrightarrow> n \<le> rb_size rb"

definition physicalIndexFromOldest :: "'a RingBuffer \<Rightarrow> nat \<Rightarrow> nat" where
  "physicalIndexFromOldest rb i = (if rb_cap rb = 0 then 0 else (rb_head rb + i) mod rb_cap rb)"

definition physicalIndexFromNewest :: "'a RingBuffer \<Rightarrow> nat \<Rightarrow> nat" where
  "physicalIndexFromNewest rb back_index =
     (if rb_cap rb = 0 then 0
      else let newest = (rb_head rb + rb_size rb - 1) mod rb_cap rb
           in (newest + rb_cap rb - (back_index mod rb_cap rb)) mod rb_cap rb)"

definition rb_pushImpl :: "'a \<Rightarrow> 'a RingBuffer \<Rightarrow> 'a option \<times> 'a RingBuffer" where
  "rb_pushImpl v rb =
     (if rb_cap rb = 0 then (None, rb)
      else if rb_size rb = rb_cap rb then
        (Some (rb_buf rb ! rb_head rb),
         rb \<lparr> rb_buf := (rb_buf rb) [rb_head rb := v], rb_head := (rb_head rb + 1) mod rb_cap rb \<rparr>)
      else
        (None,
         rb \<lparr> rb_buf := (rb_buf rb) [(rb_head rb + rb_size rb) mod rb_cap rb := v], rb_size := rb_size rb + 1 \<rparr>))"

definition rb_push :: "'a \<Rightarrow> 'a RingBuffer \<Rightarrow> 'a RingBuffer" where
  "rb_push v rb = snd (rb_pushImpl v rb)"

definition rb_at :: "'a RingBuffer \<Rightarrow> nat \<Rightarrow> 'a result" where
  "rb_at rb i =
     (if rb_size rb \<le> i then Inl (OutOfRange ''RingBuffer::at (oldest) out of range'')
      else Inr (rb_buf rb ! physicalIndexFromOldest rb i))"

definition rb_newest :: "'a RingBuffer \<Rightarrow> 'a result" where
  "rb_newest rb =
     (if rb_size rb = 0 then Inl (OutOfRange ''RingBuffer::newest on empty buffer'')
      else Inr (rb_buf rb ! physicalIndexFromNewest rb 0))"

definition rb_oldest :: "'a RingBuffer \<Rightarrow> 'a result" where
  "rb_oldest rb =
     (if rb_size rb = 0 then Inl (OutOfRange ''RingBuffer::oldest on empty buffer'')
      else Inr (rb_buf rb ! physicalIndexFromOldest rb 0))"

definition rb_valueFromBack :: "'a RingBuffer \<Rightarrow> nat \<Rightarrow> 'a option" where
  "rb_valueFromBack rb back_index =
     (if rb_size rb \<le> back_index then None
      else Some (rb_buf rb ! physicalIndexFromNewest rb back_index))"

definition rb_refFromBack :: "'a RingBuffer \<Rightarrow> nat \<Rightarrow> 'a result" where
  "rb_refFromBack rb back_index =
     (if rb_size rb \<le> back_index then Inl (OutOfRange ''RingBuffer::refFromBack out of range'')
      else Inr (rb_buf rb ! physicalIndexFromNewest rb back_index))"

section \<open>Representation\<close>

definition rb_ok :: "'a RingBuffer \<Rightarrow> bool" where
  "rb_ok rb \<longleftrightarrow> length (rb_buf rb) = rb_cap rb \<and> rb_size rb \<le> rb_cap rb \<and>
     (0 < rb_cap rb \<longrightarrow> rb_head rb < rb_cap rb)"

definition rb_list :: "'a RingBuffer \<Rightarrow> 'a list" where
  "rb_list rb = map (\<lambda>i. rb_buf rb ! ((rb_head rb + i) mod rb_cap rb)) [0..<rb_size rb]"

lemma rb_ok_new [simp]: "rb_ok (rb_new d n)" and rb_list_new [simp]: "rb_list (rb_new d n) = []"
  and rb_cap_new [simp]: "rb_cap (rb_new d n) = n"
  by (auto simp: rb_ok_def rb_new_def rb_list_def)

lemma rb_ok_clear [simp]: "rb_ok rb \<Longrightarrow> rb_ok (rb_clear rb)" and rb_list_clear [simp]: "rb_list (rb_clear rb) = []"
  by (auto simp: rb_ok_def rb_clear_def rb_list_def)

lemma rb_ok_reset [simp]: "rb_ok (rb_reset d n rb)" and rb_list_reset [simp]: "rb_list (rb_reset d n rb) = []"
  and rb_cap_reset [simp]: "rb_cap (rb_reset d n rb) = n"
  by (auto simp: rb_ok_def rb_reset_def rb_list_def)

lemma length_rb_list [simp]: "length (rb_list rb) = rb_size rb"
  by (simp add: rb_list_def)

lemma mod_wrap:
  fixes h i n :: nat
  shows "h < n \<Longrightarrow> i \<le> n \<Longrightarrow> (h + i) mod n = (if h + i < n then h + i else h + i - n)"
  by (simp add: mod_if)

lemma rb_list_nth: "i < rb_size rb \<Longrightarrow> rb_list rb ! i = rb_buf rb ! ((rb_head rb + i) mod rb_cap rb)"
  by (simp add: rb_list_def)

lemma rb_index_oldest:
  "rb_ok rb \<Longrightarrow> i < rb_size rb \<Longrightarrow> rb_buf rb ! physicalIndexFromOldest rb i = rb_list rb ! i"
  by (auto simp: physicalIndexFromOldest_def rb_list_nth rb_ok_def)

lemma rb_index_newest:
  assumes "rb_ok rb" "b < rb_size rb"
  shows "rb_buf rb ! physicalIndexFromNewest rb b = rb_list rb ! (rb_size rb - 1 - b)"
proof -
  let ?h = "rb_head rb" and ?n = "rb_cap rb" and ?s = "rb_size rb"
  have h: "?h < ?n" "?s \<le> ?n" "0 < ?n" "b < ?n" using assms by (auto simp: rb_ok_def)
  have n: "(?h + ?s - 1) mod ?n = (if ?h + ?s - 1 < ?n then ?h + ?s - 1 else ?h + ?s - 1 - ?n)"
    using mod_wrap [of ?h ?n "?s - 1"] h assms(2) by auto
  have "physicalIndexFromNewest rb b = ((?h + ?s - 1) mod ?n + (?n - b)) mod ?n"
    using h by (simp add: physicalIndexFromNewest_def Let_def)
  also have "\<dots> = (?h + (?s - 1 - b)) mod ?n"
  proof -
    define x y where "x = (?h + ?s - 1) mod ?n" and "y = ?s - 1 - b"
    have x: "x = (if ?h + ?s - 1 < ?n then ?h + ?s - 1 else ?h + ?s - 1 - ?n)" unfolding x_def by (rule n)
    have y: "y + b + 1 = ?s" using assms(2) by (simp add: y_def)
    have "x < ?n" using h by (simp add: x_def)
    then have "(x + (?n - b)) mod ?n = (if x + (?n - b) < ?n then x + (?n - b) else x + (?n - b) - ?n)"
      by (rule mod_wrap) simp
    also have "\<dots> = (if ?h + y < ?n then ?h + y else ?h + y - ?n)"
      using h y by (cases "?h + ?s - 1 < ?n"; cases "?h + y < ?n") (simp_all add: x, linarith+)
    also have "\<dots> = (?h + y) mod ?n" using h y by (intro mod_wrap [symmetric]) auto
    finally show ?thesis by (simp only: x_def y_def)
  qed
  finally show ?thesis using assms(2) by (simp add: rb_list_nth)
qed

lemma rb_push_full:
  assumes "rb_ok rb" "0 < rb_cap rb" "rb_size rb = rb_cap rb"
  shows "rb_list (rb_push v rb) = tl (rb_list rb) @ [v]" "fst (rb_pushImpl v rb) = Some (hd (rb_list rb))"
proof -
  let ?h = "rb_head rb" and ?n = "rb_cap rb"
  have h: "?h < ?n" "length (rb_buf rb) = ?n" using assms by (auto simp: rb_ok_def)
  have "rb_list (rb_push v rb) ! i = (tl (rb_list rb) @ [v]) ! i" if "i < ?n" for i
  proof -
    have "rb_list (rb_push v rb) ! i = ((rb_buf rb) [?h := v]) ! (((?h + 1) mod ?n + i) mod ?n)"
      using assms that by (subst rb_list_nth) (simp_all add: rb_push_def rb_pushImpl_def)
    also have "((?h + 1) mod ?n + i) mod ?n = (?h + (i + 1)) mod ?n"
      by (metis add.assoc add.commute mod_add_left_eq)
    finally have l: "rb_list (rb_push v rb) ! i = ((rb_buf rb) [?h := v]) ! ((?h + (i + 1)) mod ?n)" .
    show ?thesis
    proof (cases "i + 1 < ?n")
      case True
      then have "(?h + (i + 1)) mod ?n \<noteq> ?h" using h mod_wrap [of ?h ?n "i + 1"] by auto
      moreover have "tl (rb_list rb) ! i = rb_list rb ! (i + 1)" using True assms by (simp add: nth_tl)
      moreover have "i < length (tl (rb_list rb))" using True assms by simp
      ultimately show ?thesis using l True assms by (simp add: nth_append_left rb_list_nth)
    next
      case False
      then have "i + 1 = ?n" using that by simp
      moreover from this have "i = length (tl (rb_list rb))" using assms by simp
      ultimately show ?thesis using l h by (simp only: nth_append_length) simp
    qed
  qed
  then show "rb_list (rb_push v rb) = tl (rb_list rb) @ [v]"
    using assms by (intro nth_equalityI) (auto simp: rb_push_def rb_pushImpl_def)
  have "hd (rb_list rb) = rb_buf rb ! ?h" using assms h by (subst hd_conv_nth) (auto simp: rb_list_nth simp flip: length_greater_0_conv)
  then show "fst (rb_pushImpl v rb) = Some (hd (rb_list rb))" using assms by (simp add: rb_pushImpl_def)
qed

lemma rb_push_room:
  assumes "rb_ok rb" "rb_size rb < rb_cap rb"
  shows "rb_list (rb_push v rb) = rb_list rb @ [v]" "fst (rb_pushImpl v rb) = None"
proof -
  let ?h = "rb_head rb" and ?n = "rb_cap rb" and ?s = "rb_size rb"
  have h: "?h < ?n" "length (rb_buf rb) = ?n" using assms by (auto simp: rb_ok_def)
  have "rb_list (rb_push v rb) ! i = (rb_list rb @ [v]) ! i" if "i < ?s + 1" for i
  proof -
    have l: "rb_list (rb_push v rb) ! i = ((rb_buf rb) [(?h + ?s) mod ?n := v]) ! ((?h + i) mod ?n)"
      using assms that by (subst rb_list_nth) (simp_all add: rb_push_def rb_pushImpl_def)
    show ?thesis
    proof (cases "i = ?s")
      case True
      then show ?thesis using l h by (simp add: nth_append mod_less_divisor)
    next
      case False
      then have "i < ?s" using that by simp
      then have "(?h + ?s) mod ?n \<noteq> (?h + i) mod ?n"
        using assms h mod_wrap [of ?h ?n ?s] mod_wrap [of ?h ?n i] by (auto split: if_splits)
      then show ?thesis using l \<open>i < ?s\<close> by (simp add: nth_append rb_list_nth)
    qed
  qed
  then show "rb_list (rb_push v rb) = rb_list rb @ [v]"
    using assms by (intro nth_equalityI) (auto simp: rb_push_def rb_pushImpl_def)
  show "fst (rb_pushImpl v rb) = None" using assms by (simp add: rb_pushImpl_def)
qed

lemma rb_push_ok [simp]: "rb_ok rb \<Longrightarrow> rb_ok (rb_push v rb)"
  by (auto simp: rb_ok_def rb_push_def rb_pushImpl_def)

lemma rb_push_cap [simp]: "rb_cap (rb_push v rb) = rb_cap rb"
  by (simp add: rb_push_def rb_pushImpl_def)

lemma rb_push_size: "rb_ok rb \<Longrightarrow> rb_size (rb_push v rb) = min (rb_cap rb) (rb_size rb + 1)"
  by (auto simp: rb_ok_def rb_push_def rb_pushImpl_def)

lemma rb_size_le: "rb_ok rb \<Longrightarrow> rb_size rb \<le> rb_cap rb"
  by (simp add: rb_ok_def)

interpretation rbf: bounded_fifo rb_list rb_cap rb_push rb_ok
proof unfold_locales
  fix q :: "'a RingBuffer" and x
  assume q: "rb_ok q" "0 < rb_cap q"
  then show "rb_list (rb_push x q) =
      (if length (rb_list q) < rb_cap q then rb_list q @ [x] else tl (rb_list q) @ [x])"
    using rb_push_full(1) [of q x] rb_push_room(1) [of q x] rb_size_le [of q] by auto
qed (simp_all add: rb_size_le)

section \<open>What the accessors return\<close>

lemma rb_at_list: "rb_ok rb \<Longrightarrow> i < rb_size rb \<Longrightarrow> rb_at rb i = Inr (rb_list rb ! i)"
  by (simp add: rb_at_def rb_index_oldest)

lemma rb_newest_list: "rb_ok rb \<Longrightarrow> 0 < rb_size rb \<Longrightarrow> rb_newest rb = Inr (last (rb_list rb))"
  by (simp add: rb_newest_def rb_index_newest last_conv_nth flip: length_greater_0_conv)

lemma rb_oldest_list: "rb_ok rb \<Longrightarrow> 0 < rb_size rb \<Longrightarrow> rb_oldest rb = Inr (hd (rb_list rb))"
  by (simp add: rb_oldest_def rb_index_oldest hd_conv_nth flip: length_greater_0_conv)

lemma rb_valueFromBack_list:
  "rb_ok rb \<Longrightarrow> rb_valueFromBack rb b = (if b < rb_size rb then Some (rev (rb_list rb) ! b) else None)"
  by (auto simp: rb_valueFromBack_def rb_index_newest rev_nth)

lemma rb_refFromBack_list:
  "rb_ok rb \<Longrightarrow> b < rb_size rb \<Longrightarrow> rb_refFromBack rb b = Inr (rev (rb_list rb) ! b)"
  by (simp add: rb_refFromBack_def rb_index_newest rev_nth)

lemma ring_buffer_eviction_list:
  assumes "rb_ok rb" "0 < rb_cap rb"
  shows "rb_list rb @ [x] = (case fst (rb_pushImpl x rb) of None \<Rightarrow> [] | Some y \<Rightarrow> [y]) @ rb_list (rb_push x rb)"
proof (cases "rb_full rb")
  case True
  then have "rb_list rb \<noteq> []" "rb_size rb = rb_cap rb"
    using assms by (auto simp: rb_full_def simp flip: length_greater_0_conv)
  then show ?thesis using True rb_push_full [OF assms(1,2)] by simp
next
  case False
  then have "rb_size rb < rb_cap rb" using assms rb_size_le [OF assms(1)] by (auto simp: rb_full_def)
  then show ?thesis using False rb_push_room [OF assms(1)] by simp
qed

section \<open>Properties\<close>

lemma rb_fold_cap0: "rb_cap rb = 0 \<Longrightarrow> fold rb_push xs rb = rb"
  by (induction xs arbitrary: rb) (auto simp: rb_push_def rb_pushImpl_def)

lemma rb_fold_push:
  "rb_ok (fold rb_push xs (rb_new d n)) \<and> rb_list (fold rb_push xs (rb_new d n)) = last_n n xs
   \<and> rb_cap (fold rb_push xs (rb_new d n)) = n"
proof (cases "n = 0")
  case True
  then show ?thesis using rb_fold_cap0 [of "rb_new d n" xs] by (simp add: last_n_def)
next
  case False
  then show ?thesis using rbf.fold_push_ok [of "rb_new d n" xs] rbf.fold_push_contents [of "rb_new d n" xs] by simp
qed

text \<open>
  C24: The ring buffer implements "the last \<open>n\<close> values": after any sequence of pushes into a buffer of
  capacity \<open>n\<close> (0 included), the modular index arithmetic of \<open>valueFromBack\<close> returns the value
  pushed \<open>b\<close> steps before the newest exactly when fewer than \<open>min n (length xs)\<close> steps are
  asked for, \<open>at\<close> enumerates the last \<open>n\<close> values oldest first, and every index past them raises the
  range error.
\<close>

theorem ring_buffer_is_last_n:
  "let rb = fold rb_push xs (rb_new d n) in
     (\<forall>b. rb_valueFromBack rb b = (if b < min n (length xs) then Some (rev xs ! b) else None)) \<and>
     (\<forall>i. rb_at rb i = (if i < min n (length xs) then Inr (last_n n xs ! i)
                        else Inl (OutOfRange ''RingBuffer::at (oldest) out of range'')))"
proof -
  define rb where "rb = fold rb_push xs (rb_new d n)"
  have rb: "rb_ok rb" "rb_list rb = last_n n xs" using rb_fold_push [of xs d n] by (auto simp: rb_def)
  then have sz: "rb_size rb = min n (length xs)" by (metis length_rb_list length_last_n)
  have "rev (last_n n xs) ! b = rev xs ! b" if "b < min n (length xs)" for b
  proof -
    have "b < length xs - (length xs - n)" using that by auto
    then show ?thesis by (simp add: last_n_def rev_drop)
  qed
  then have "rb_valueFromBack rb b = (if b < min n (length xs) then Some (rev xs ! b) else None)" for b
    using rb sz by (simp add: rb_valueFromBack_list)
  moreover have "rb_at rb i = (if i < min n (length xs) then Inr (last_n n xs ! i)
      else Inl (OutOfRange ''RingBuffer::at (oldest) out of range''))" for i
    using rb sz by (cases "i < rb_size rb") (simp_all add: rb_at_list, auto simp: rb_at_def)
  ultimately show ?thesis unfolding Let_def rb_def by blast
qed

text \<open>
  A push into a full ring buffer evicts and returns exactly the oldest value; a push into a
  buffer with room evicts nothing, and the values kept are the old ones followed by the new one. The
  indicators keep their running sums with the returned value.
\<close>

theorem ring_buffer_eviction:
  assumes "rb_ok rb" "0 < rb_cap rb"
  shows "fst (rb_pushImpl x rb) = (if rb_full rb then Some (hd (rb_list rb)) else None)
     \<and> rb_list rb @ [x] = (case fst (rb_pushImpl x rb) of None \<Rightarrow> [] | Some y \<Rightarrow> [y]) @ rb_list (rb_push x rb)"
  using ring_buffer_eviction_list [OF assms, of x] rb_push_full(2) [OF assms, of x] rb_push_room(2) [OF assms(1), of x]
    rb_size_le [OF assms(1)] assms(2) by (auto simp: rb_full_def)

theorem ring_buffer_eviction_witness:
  "fst (rb_pushImpl (3::int) (fold rb_push [1, 2] (rb_new 0 2))) = Some 1"
  using ring_buffer_eviction [of "fold rb_push [1, 2] (rb_new 0 2)" "3::int"] rb_fold_push [of "[1, 2]" "0::int" 2]
  by (simp add: rb_full_def rb_push_def rb_pushImpl_def rb_new_def)

section \<open>The buffer with a lock\<close>

text \<open>\<open>src/src/util/ThreadSafeRingBuffer.h\<close>: a ring buffer whose every operation holds one mutex for its whole body, so each is one
  step. \<open>pushDropOldest\<close> hands back the element it drove out.\<close>

record 'a ThreadSafeRingBuffer =
  ts_rb :: "'a RingBuffer"

definition ts_new :: "'a \<Rightarrow> nat \<Rightarrow> 'a ThreadSafeRingBuffer" where
  "ts_new dflt capacity = \<lparr> ts_rb = rb_new dflt capacity \<rparr>"

definition pushDropOldest :: "'a \<Rightarrow> 'a ThreadSafeRingBuffer \<Rightarrow> 'a option \<times> 'a ThreadSafeRingBuffer" where
  "pushDropOldest v t = (case rb_pushImpl v (ts_rb t) of (dropped, rb) \<Rightarrow> (dropped, t \<lparr> ts_rb := rb \<rparr>))"

definition ts_size :: "'a ThreadSafeRingBuffer \<Rightarrow> nat" where
  "ts_size t = rb_size (ts_rb t)"

definition ts_capacity :: "'a ThreadSafeRingBuffer \<Rightarrow> nat" where
  "ts_capacity t = rb_cap (ts_rb t)"

text \<open>Nothing is lost silently: with room the element is added, and a full buffer hands back its oldest element.\<close>

lemma pushDropOldest_accounts:
  assumes "rb_ok (ts_rb t)" "0 < ts_capacity t" "pushDropOldest v t = (dropped, t')"
  shows "rb_list (ts_rb t) @ [v] = (case dropped of None \<Rightarrow> [] | Some d \<Rightarrow> [d]) @ rb_list (ts_rb t')"
    and "ts_size t' = min (ts_capacity t) (ts_size t + 1)" and "ts_capacity t' = ts_capacity t"
proof -
  have e: "fst (rb_pushImpl v (ts_rb t)) = dropped" "t' = t \<lparr> ts_rb := rb_push v (ts_rb t) \<rparr>"
    using assms(3) by (auto simp: pushDropOldest_def rb_push_def split: prod.splits)
  show "rb_list (ts_rb t) @ [v] = (case dropped of None \<Rightarrow> [] | Some d \<Rightarrow> [d]) @ rb_list (ts_rb t')"
    using ring_buffer_eviction_list [OF assms(1), of v] assms(2) e by (simp add: ts_capacity_def)
  show "ts_size t' = min (ts_capacity t) (ts_size t + 1)" "ts_capacity t' = ts_capacity t"
    using assms(1) e by (simp_all add: ts_size_def ts_capacity_def rb_push_size)
qed

end
