(* ===== verification/Indicators.thy ===== *)
theory Indicators
  imports RingBuffer Config
begin

text \<open>
  The indicators of \<open>src/src/trading/indicators\<close>: \<open>Sma\<close>, \<open>ClosePriceWindow\<close>, \<open>ChangeVolatilityIndicator\<close>,
  \<open>RsiWilder\<close>. Each is a record of its members and an \<open>update\<close> that returns the value and the new state;
  the overloads on candles pass the close price.
\<close>

record Value =
  v_ready :: bool
  v_val :: double

definition no_value :: Value where
  "no_value = \<lparr> v_ready = False, v_val = 0 \<rparr>"

definition asOptional :: "Value \<Rightarrow> double option" where
  "asOptional x = (if v_ready x then Some (v_val x) else None)"

definition isWindowReady :: "nat \<Rightarrow> nat \<Rightarrow> bool" where
  "isWindowReady count window \<longleftrightarrow> 0 < window \<and> window \<le> count"

section \<open>Simple moving average\<close>

record Sma =
  sma_length :: nat
  sma_window :: "double RingBuffer"
  sma_sum :: double

definition sma_reset :: "nat \<Rightarrow> Sma \<Rightarrow> Sma" where
  "sma_reset len s = s \<lparr> sma_length := len, sma_window := rb_reset 0 len (sma_window s), sma_sum := 0 \<rparr>"

definition sma_new :: "nat \<Rightarrow> Sma" where
  "sma_new len = sma_reset len \<lparr> sma_length = 0, sma_window = rb_new 0 0, sma_sum = 0 \<rparr>"

definition sma_clear :: "Sma \<Rightarrow> Sma" where
  "sma_clear s = s \<lparr> sma_window := rb_clear (sma_window s), sma_sum := 0 \<rparr>"

definition sma_value :: "Sma \<Rightarrow> Value" where
  "sma_value s =
     (let r = 0 < sma_length s \<and> rb_full (sma_window s)
      in \<lparr> v_ready = r, v_val = (if r then sma_sum s / dnat (sma_length s) else 0) \<rparr>)"

definition sma_update :: "double \<Rightarrow> Sma \<Rightarrow> Value \<times> Sma" where
  "sma_update x s =
     (if sma_length s = 0 then (no_value, s)
      else let (overwritten, w) = rb_pushImpl x (sma_window s);
               sum1 = (case overwritten of Some old \<Rightarrow> sma_sum s - old | None \<Rightarrow> sma_sum s);
               sum2 = sum1 + x;
               r = rb_full w
           in (\<lparr> v_ready = r, v_val = (if r then sum2 / dnat (sma_length s) else 0) \<rparr>,
               s \<lparr> sma_window := w, sma_sum := sum2 \<rparr>))"

definition sma_update_candle :: "Candle \<Rightarrow> Sma \<Rightarrow> Value \<times> Sma" where
  "sma_update_candle c s = sma_update (c_close_price c) s"

section \<open>close[N]\<close>

record ClosePriceWindow =
  cpw_length :: nat
  cpw_window :: "double RingBuffer"

definition cpw_reset :: "nat \<Rightarrow> ClosePriceWindow \<Rightarrow> ClosePriceWindow" where
  "cpw_reset len s = s \<lparr> cpw_length := len, cpw_window := rb_reset 0 (len + 1) (cpw_window s) \<rparr>"

definition cpw_new :: "nat \<Rightarrow> ClosePriceWindow" where
  "cpw_new len = cpw_reset len \<lparr> cpw_length = 0, cpw_window = rb_new 0 0 \<rparr>"

definition cpw_clear :: "ClosePriceWindow \<Rightarrow> ClosePriceWindow" where
  "cpw_clear s = s \<lparr> cpw_window := rb_clear (cpw_window s) \<rparr>"

definition cpw_closeN :: "ClosePriceWindow \<Rightarrow> Value" where
  "cpw_closeN s =
     (case rb_valueFromBack (cpw_window s) (cpw_length s) of
        None \<Rightarrow> no_value
      | Some x \<Rightarrow> \<lparr> v_ready = True, v_val = x \<rparr>)"

definition cpw_update :: "double \<Rightarrow> ClosePriceWindow \<Rightarrow> Value \<times> ClosePriceWindow" where
  "cpw_update close s =
     (let w = rb_push close (cpw_window s)
      in (case rb_valueFromBack w (cpw_length s) of
            None \<Rightarrow> no_value
          | Some x \<Rightarrow> \<lparr> v_ready = True, v_val = x \<rparr>,
          s \<lparr> cpw_window := w \<rparr>))"

definition cpw_update_candle :: "Candle \<Rightarrow> ClosePriceWindow \<Rightarrow> Value \<times> ClosePriceWindow" where
  "cpw_update_candle c s = cpw_update (c_close_price c) s"

section \<open>Volatility of the rate of change\<close>

record ChangeVolatility =
  cv_length :: nat
  cv_window :: "double RingBuffer"
  cv_sum :: double
  cv_sumsq :: double
  cv_prevClose :: "double option"

definition cv_reset :: "nat \<Rightarrow> ChangeVolatility \<Rightarrow> ChangeVolatility" where
  "cv_reset len s =
     (let l = (if len < 2 then 2 else len)
      in s \<lparr> cv_length := l, cv_window := rb_reset 0 l (cv_window s), cv_sum := 0, cv_sumsq := 0,
             cv_prevClose := None \<rparr>)"

definition cv_new :: "nat \<Rightarrow> ChangeVolatility" where
  "cv_new len = cv_reset len \<lparr> cv_length = 0, cv_window = rb_new 0 0, cv_sum = 0, cv_sumsq = 0, cv_prevClose = None \<rparr>"

definition cv_clear :: "ChangeVolatility \<Rightarrow> ChangeVolatility" where
  "cv_clear s = s \<lparr> cv_window := rb_clear (cv_window s), cv_sum := 0, cv_sumsq := 0, cv_prevClose := None \<rparr>"

definition cv_stdev :: "ChangeVolatility \<Rightarrow> double" where
  "cv_stdev s =
     (let n = dnat (cv_length s)
      in if n \<le> D 2 then 0
         else let mean = cv_sum s / n;
                  var = (cv_sumsq s / n) - (mean * mean);
                  var = (if var < 0 then 0 else var)
              in dsqrt var)"

definition cv_value :: "ChangeVolatility \<Rightarrow> Value" where
  "cv_value s =
     (let r = 0 < cv_length s \<and> rb_full (cv_window s)
      in \<lparr> v_ready = r, v_val = (if r then cv_stdev s else 0) \<rparr>)"

definition cv_update :: "double \<Rightarrow> ChangeVolatility \<Rightarrow> Value \<times> ChangeVolatility" where
  "cv_update close s =
     (if cv_length s = 0 then (no_value, s)
      else case cv_prevClose s of
        None \<Rightarrow> (no_value, s \<lparr> cv_prevClose := Some close \<rparr>)
      | Some prev \<Rightarrow>
          let s1 = s \<lparr> cv_prevClose := Some close \<rparr>
          in if deq prev 0 then (no_value, s1)
             else let r = (close - prev) / prev;
                      (overwritten, w) = rb_pushImpl r (cv_window s1);
                      (sum1, sumsq1) = (case overwritten of
                          Some old \<Rightarrow> (cv_sum s1 - old, cv_sumsq s1 - old * old)
                        | None \<Rightarrow> (cv_sum s1, cv_sumsq s1));
                      s2 = s1 \<lparr> cv_window := w, cv_sum := sum1 + r, cv_sumsq := sumsq1 + r * r \<rparr>;
                      rdy = rb_full w
                  in (\<lparr> v_ready = rdy, v_val = (if rdy then cv_stdev s2 else 0) \<rparr>, s2))"

definition cv_update_candle :: "Candle \<Rightarrow> ChangeVolatility \<Rightarrow> Value \<times> ChangeVolatility" where
  "cv_update_candle c s = cv_update (c_close_price c) s"

section \<open>Wilder's RSI\<close>

record RsiWilder =
  rsi_length :: nat
  rsi_prev_price :: "double option"
  rsi_seed_count :: nat
  rsi_seed_gain_sum :: double
  rsi_seed_loss_sum :: double
  rsi_avg_gain :: double
  rsi_avg_loss :: double
  rsi_last :: Value

definition rsi_clear :: "RsiWilder \<Rightarrow> RsiWilder" where
  "rsi_clear s = s \<lparr> rsi_prev_price := None, rsi_seed_count := 0, rsi_seed_gain_sum := 0,
     rsi_seed_loss_sum := 0, rsi_avg_gain := 0, rsi_avg_loss := 0, rsi_last := no_value \<rparr>"

definition rsi_reset :: "nat \<Rightarrow> RsiWilder \<Rightarrow> RsiWilder" where
  "rsi_reset len s = rsi_clear (s \<lparr> rsi_length := len \<rparr>)"

definition rsi_new :: "nat \<Rightarrow> RsiWilder" where
  "rsi_new len = rsi_reset len
     \<lparr> rsi_length = 0, rsi_prev_price = None, rsi_seed_count = 0, rsi_seed_gain_sum = 0,
       rsi_seed_loss_sum = 0, rsi_avg_gain = 0, rsi_avg_loss = 0, rsi_last = no_value \<rparr>"

definition computeRsi :: "double \<Rightarrow> double \<Rightarrow> double" where
  "computeRsi avg_gain avg_loss =
     (if deq avg_gain 0 \<and> deq avg_loss 0 then D 50
      else if deq avg_loss 0 then D 100
      else if deq avg_gain 0 then 0
      else let rs = avg_gain / avg_loss
           in D 100 - (D 100 / (1 + rs)))"

definition rsi_update :: "double \<Rightarrow> RsiWilder \<Rightarrow> Value \<times> RsiWilder" where
  "rsi_update close s =
     (if rsi_length s = 0 then (no_value, s)
      else case rsi_prev_price s of
        None \<Rightarrow> (no_value, s \<lparr> rsi_prev_price := Some close \<rparr>)
      | Some prev \<Rightarrow>
          let delta = close - prev;
              s0 = s \<lparr> rsi_prev_price := Some close \<rparr>;
              gain = (if 0 < delta then delta else 0);
              loss = (if delta < 0 then - delta else 0);
              n = dnat (rsi_length s)
          in if rsi_seed_count s0 < rsi_length s0 then
               let s1 = s0 \<lparr> rsi_seed_gain_sum := rsi_seed_gain_sum s0 + gain,
                             rsi_seed_loss_sum := rsi_seed_loss_sum s0 + loss,
                             rsi_seed_count := rsi_seed_count s0 + 1 \<rparr>
               in if rsi_seed_count s1 < rsi_length s1 then (no_value, s1)
                  else let g = rsi_seed_gain_sum s1 / n;
                           l = rsi_seed_loss_sum s1 / n;
                           out = \<lparr> v_ready = True, v_val = computeRsi g l \<rparr>
                       in (out, s1 \<lparr> rsi_avg_gain := g, rsi_avg_loss := l, rsi_last := out \<rparr>)
             else let g = (rsi_avg_gain s0 * (n - 1) + gain) / n;
                      l = (rsi_avg_loss s0 * (n - 1) + loss) / n;
                      out = \<lparr> v_ready = True, v_val = computeRsi g l \<rparr>
                  in (out, s0 \<lparr> rsi_avg_gain := g, rsi_avg_loss := l, rsi_last := out \<rparr>))"

definition rsi_value :: "RsiWilder \<Rightarrow> Value" where
  "rsi_value s = rsi_last s"

definition rsi_update_candle :: "Candle \<Rightarrow> RsiWilder \<Rightarrow> Value \<times> RsiWilder" where
  "rsi_update_candle c s = rsi_update (c_close_price c) s"

text \<open>Feed a sequence of prices; the result is the last value and the state.\<close>

fun feed :: "(double \<Rightarrow> 's \<Rightarrow> Value \<times> 's) \<Rightarrow> double list \<Rightarrow> 's \<Rightarrow> Value list \<times> 's" where
  "feed upd [] s = ([], s)"
| "feed upd (x # xs) s = (let (o1, s1) = upd x s; (os, s2) = feed upd xs s1 in (o1 # os, s2))"

section \<open>Streams\<close>

text \<open>
  The contract all indicators share with the strategy: fed with prices, after the prefix \<open>pre\<close> the state satisfies
  \<open>inv pre\<close> and the value returned for the last price of \<open>pre\<close> is \<open>good pre\<close>, as long as the
  prices are in the domain \<open>dom\<close>.
\<close>

locale stream_indicator =
  fixes upd :: "double \<Rightarrow> 's \<Rightarrow> Value \<times> 's"
    and s0 :: 's
    and dom :: "double list \<Rightarrow> bool"
    and inv :: "double list \<Rightarrow> 's \<Rightarrow> bool"
    and good :: "double list \<Rightarrow> Value \<Rightarrow> bool"
  assumes start: "inv [] s0"
    and dom_prefix: "dom (xs @ ys) \<Longrightarrow> dom xs"
    and step: "inv pre s \<Longrightarrow> dom (pre @ [x]) \<Longrightarrow> inv (pre @ [x]) (snd (upd x s)) \<and> good (pre @ [x]) (fst (upd x s))"
begin

lemma feed_inv:
  "inv pre s \<Longrightarrow> dom (pre @ xs) \<Longrightarrow>
   inv (pre @ xs) (snd (feed upd xs s)) \<and> length (fst (feed upd xs s)) = length xs \<and>
   (\<forall>k < length xs. good (pre @ take (k + 1) xs) (fst (feed upd xs s) ! k))"
proof (induction xs arbitrary: pre s)
  case (Cons x xs)
  have d: "dom ((pre @ [x]) @ xs)" using Cons.prems(2) by simp
  then have "dom (pre @ [x])" by (rule dom_prefix)
  with Cons.prems(1) have 1: "inv (pre @ [x]) (snd (upd x s))" "good (pre @ [x]) (fst (upd x s))" using step by auto
  from Cons.IH [OF 1(1) d] 1(2) show ?case
    by (auto simp: split_beta nth_Cons' less_Suc_eq_0_disj)
qed simp

lemma feed_good:
  "dom xs \<Longrightarrow> k < length xs \<Longrightarrow> good (take (k + 1) xs) (fst (feed upd xs s0) ! k)"
  using feed_inv [OF start, of xs] by simp

lemma feed_state: "dom xs \<Longrightarrow> inv xs (snd (feed upd xs s0)) \<and> length (fst (feed upd xs s0)) = length xs"
  using feed_inv [OF start, of xs] by simp

end

subsection \<open>close[N]\<close>

definition cpw_inv :: "nat \<Rightarrow> double list \<Rightarrow> ClosePriceWindow \<Rightarrow> bool" where
  "cpw_inv N pre s \<longleftrightarrow> cpw_length s = N \<and> rb_ok (cpw_window s) \<and> rb_cap (cpw_window s) = N + 1 \<and>
     rb_list (cpw_window s) = last_n (N + 1) pre"

definition cpw_good :: "nat \<Rightarrow> double list \<Rightarrow> Value \<Rightarrow> bool" where
  "cpw_good N pre out \<longleftrightarrow>
     out = (if N < length pre then \<lparr> v_ready = True, v_val = rev pre ! N \<rparr> else no_value)"

lemma rev_last_n_nth: "b < n \<Longrightarrow> b < length xs \<Longrightarrow> rev (last_n n xs) ! b = rev xs ! b"
proof -
  assume "b < n" "b < length xs"
  then have "b < length xs - (length xs - n)" by auto
  then show ?thesis by (simp add: last_n_def rev_drop)
qed

interpretation cpw: stream_indicator cpw_update "cpw_new N" "\<lambda>_. True" "cpw_inv N" "cpw_good N" for N
proof unfold_locales
  show "cpw_inv N [] (cpw_new N)" by (simp add: cpw_inv_def cpw_new_def cpw_reset_def)
next
  fix pre s x
  assume s: "cpw_inv N pre s"
  define w where "w = rb_push x (cpw_window s)"
  have w: "rb_ok w" "rb_cap w = N + 1" "rb_list w = last_n (N + 1) (pre @ [x])"
    using s rbf.push_last_n [of "cpw_window s" x] last_n_append_last_n [of "N + 1" pre "[x]"]
    by (auto simp: cpw_inv_def w_def)
  then have sz: "rb_size w = min (N + 1) (length pre + 1)" by (metis length_rb_list length_last_n length_append_singleton Suc_eq_plus1)
  have "rb_valueFromBack w N = (if N < length pre + 1 then Some (rev (pre @ [x]) ! N) else None)"
    using w sz rev_last_n_nth [of N "N + 1" "pre @ [x]"] by (auto simp: rb_valueFromBack_list)
  then show "cpw_inv N (pre @ [x]) (snd (cpw_update x s)) \<and> cpw_good N (pre @ [x]) (fst (cpw_update x s))"
    using s w by (auto simp: cpw_inv_def cpw_good_def cpw_update_def w_def [symmetric] Let_def)
qed auto

subsection \<open>RSI\<close>

abbreviation rsi_bound :: double where "rsi_bound \<equiv> D (2 ^ 60)"

definition in_range :: "double \<Rightarrow> bool" where
  "in_range x \<longleftrightarrow> fin x \<and> 0 \<le> x \<and> x \<le> rsi_bound"

lemma in_rangeD: "in_range x \<Longrightarrow> fin x" "in_range x \<Longrightarrow> 0 \<le> val x" "in_range x \<Longrightarrow> val x \<le> 2 ^ 60"
  by (auto simp: in_range_def fin_val_le rep_scaled [of 1 60, simplified])

lemma in_range_D: "0 \<le> q \<Longrightarrow> q \<le> 2 ^ 60 \<Longrightarrow> in_range (D q)"
proof -
  assume q: "0 \<le> q" "q \<le> 2 ^ 60"
  then have "0 \<le> D q" "D q \<le> rsi_bound" by (auto intro: D_nonneg D_mono)
  moreover have "fin rsi_bound" using rep_scaled [of 1 60] by simp
  ultimately show ?thesis unfolding in_range_def using dle_fin by blast
qed

lemma computeRsi_range:
  assumes "in_range g" "in_range l"
  shows "0 \<le> computeRsi g l \<and> computeRsi g l \<le> D 100"
proof -
  have d: "deq x 0 \<longleftrightarrow> val x = 0" if "in_range x" for x
    using in_rangeD [OF that] by (auto simp: deq_iff) (metis D_val D_0)
  show ?thesis
  proof (cases "val g = 0 \<or> val l = 0")
    case True
    then show ?thesis using assms by (auto simp: computeRsi_def d)
  next
    case False
    then have "0 \<le> g / l" using assms in_rangeD [OF assms(1)] in_rangeD [OF assms(2)]
      by (auto simp: fin_div intro!: D_nonneg)
    then have "1 \<le> 1 + g / l" using dadd_ge [of 1 "g / l"] by simp
    then have z: "0 \<le> D 100 / (1 + g / l) \<and> D 100 / (1 + g / l) \<le> D 100" by (intro ddiv_ge_1) auto
    then have "fin (D 100 / (1 + g / l))" using dle_fin by auto
    then show ?thesis using False z assms ddiff_nonneg [of "D 100 / (1 + g / l)" "D 100"]
        ddiff_le [of "D 100" "D 100 / (1 + g / l)"]
      by (simp add: computeRsi_def d Let_def)
  qed
qed

text \<open>One step of Wilder's smoothing keeps an average within the range of the prices: every intermediate
  bound is a representable number, so rounding to nearest cannot leave the range.\<close>

lemma smooth_range:
  assumes "in_range a" "in_range g" "0 < L" "L \<le> 2 ^ 53"
  shows "in_range ((a * (dnat L - 1) + g) / dnat L)"
proof -
  note a = in_rangeD [OF assms(1)] and g = in_rangeD [OF assms(2)]
  have L1: "dnat L - 1 = dnat (L - 1)"
    using D_diff [of "of_nat L" 1] assms by (simp add: dnat_def of_nat_diff)
  let ?k = "of_nat (L - 1) :: rat"
  have r1: "rep (2 ^ 60 * ?k)" using assms by (intro rep_scaled) auto
  have r2: "rep (2 ^ 60 * of_nat L)" using assms by (intro rep_scaled) auto
  have "a * (dnat L - 1) = D (val a * ?k)" unfolding L1 using assms a by (simp add: fin_mult)
  moreover have "val a * ?k \<le> 2 ^ 60 * ?k" using a by (intro mult_right_mono) auto
  ultimately have m: "0 \<le> a * (dnat L - 1)" "a * (dnat L - 1) \<le> D (2 ^ 60 * ?k)"
    using a by (auto intro: D_mono D_nonneg)
  then have fm: "fin (a * (dnat L - 1))" using r1 dle_fin by auto
  have vm: "0 \<le> val (a * (dnat L - 1))" "val (a * (dnat L - 1)) \<le> 2 ^ 60 * ?k"
    using m fm r1 by (auto simp: fin_val_le)
  define s where "s = a * (dnat L - 1) + g"
  have "s = D (val (a * (dnat L - 1)) + val g)" unfolding s_def using fm g by (simp add: fin_add)
  moreover have "val (a * (dnat L - 1)) + val g \<le> 2 ^ 60 * of_nat L"
    using vm g assms(3) by (simp add: of_nat_diff algebra_simps)
  ultimately have sb: "0 \<le> s" "s \<le> D (2 ^ 60 * of_nat L)" using vm g by (auto intro: D_mono D_nonneg)
  then have fs: "fin s" using r2 dle_fin by auto
  have vs: "0 \<le> val s" "val s \<le> 2 ^ 60 * of_nat L" using sb fs r2 by (auto simp: fin_val_le)
  have "val s / of_nat L \<le> 2 ^ 60" using vs assms(3) by (simp add: divide_le_eq)
  then show ?thesis unfolding s_def [symmetric] using fs vs assms by (simp add: fin_div in_range_D)
qed

definition sum_range :: "nat \<Rightarrow> double \<Rightarrow> bool" where
  "sum_range k x \<longleftrightarrow> fin x \<and> 0 \<le> val x \<and> val x \<le> 2 ^ 60 * of_nat k"

lemma sum_range_0 [simp]: "sum_range k 0"
  by (simp add: sum_range_def)

lemma sum_range_add:
  assumes "sum_range k x" "in_range g" "k + 1 \<le> 2 ^ 53"
  shows "sum_range (k + 1) (x + g)"
proof -
  note g = in_rangeD [OF assms(2)]
  have r: "rep (2 ^ 60 * of_nat (k + 1))" using assms(3) by (rule rep_scaled) simp
  have x: "fin x" "0 \<le> val x" "val x \<le> 2 ^ 60 * of_nat k" using assms(1) by (auto simp: sum_range_def)
  have e: "x + g = D (val x + val g)" using x g by (simp add: fin_add)
  have "val x + val g \<le> 2 ^ 60 * of_nat (k + 1)" using x g by (simp add: algebra_simps)
  then have b: "0 \<le> x + g" "x + g \<le> D (2 ^ 60 * of_nat (k + 1))" unfolding e using x g
    by (auto intro: D_mono D_nonneg)
  then have f: "fin (x + g)" using r dle_fin by auto
  then show ?thesis using b r unfolding sum_range_def by (simp add: fin_val_le)
qed

lemma sum_range_avg:
  "sum_range L x \<Longrightarrow> 0 < L \<Longrightarrow> L \<le> 2 ^ 53 \<Longrightarrow> in_range (x / dnat L)"
  by (auto simp: sum_range_def fin_div divide_le_eq intro!: in_range_D)

lemma gain_range:
  assumes "in_range p" "in_range c"
  shows "in_range (if 0 < c - p then c - p else 0)" "in_range (if c - p < 0 then - (c - p) else 0)"
proof -
  note p = in_rangeD [OF assms(1)] and c = in_rangeD [OF assms(2)]
  have z: "in_range 0" using in_range_D [of 0] by simp
  have "in_range (c - p)" if "0 < c - p"
  proof -
    have "c - p \<le> c" using p c assms by (intro ddiff_le) (auto simp: in_range_def)
    then have "fin (c - p)" "c - p \<le> rsi_bound" using that c assms(2) dless_imp_le [OF that] dle_fin dle_trans
      unfolding in_range_def by blast+
    then show ?thesis using dless_imp_le [OF that] by (simp add: in_range_def)
  qed
  then show "in_range (if 0 < c - p then c - p else 0)" using z by simp
  have "in_range (p - c)" if "c - p < 0"
  proof -
    have "p - c \<le> p" using p c assms by (intro ddiff_le) (auto simp: in_range_def)
    moreover have "c \<le> p"
    proof (rule ccontr)
      assume "\<not> c \<le> p"
      then have "val p \<le> val c" using p c by (simp add: fin_val_le)
      then have "0 \<le> c - p" using p c by (intro ddiff_nonneg) (auto simp: fin_val_le)
      then show False using that dle_not_less by blast
    qed
    then have "0 \<le> p - c" using c by (intro ddiff_nonneg)
    ultimately show ?thesis using p assms(1) dle_fin dle_trans unfolding in_range_def by blast
  qed
  then show "in_range (if c - p < 0 then - (c - p) else 0)" using z p c by (simp add: dminus_diff)
qed

definition rsi_inv :: "nat \<Rightarrow> double list \<Rightarrow> RsiWilder \<Rightarrow> bool" where
  "rsi_inv L pre s \<longleftrightarrow> rsi_length s = L \<and>
     (0 < L \<longrightarrow>
        rsi_prev_price s = (if pre = [] then None else Some (last pre)) \<and>
        rsi_seed_count s = min L (length pre - 1) \<and>
        sum_range (rsi_seed_count s) (rsi_seed_gain_sum s) \<and>
        sum_range (rsi_seed_count s) (rsi_seed_loss_sum s) \<and>
        in_range (rsi_avg_gain s) \<and> in_range (rsi_avg_loss s))"

definition rsi_dom :: "nat \<Rightarrow> double list \<Rightarrow> bool" where
  "rsi_dom L pre \<longleftrightarrow> L \<le> 2 ^ 53 \<and> (\<forall>p \<in> set pre. in_range p)"

definition rsi_good :: "nat \<Rightarrow> double list \<Rightarrow> Value \<Rightarrow> bool" where
  "rsi_good L pre out \<longleftrightarrow> (v_ready out \<longleftrightarrow> 0 < L \<and> L < length pre) \<and>
     0 \<le> v_val out \<and> v_val out \<le> D 100"

lemma no_value_simps [simp]: "v_ready no_value = False" "v_val no_value = 0"
  by (simp_all add: no_value_def)

lemma rsi_step:
  assumes inv: "rsi_inv L pre s" and dom: "rsi_dom L (pre @ [x])"
  shows "rsi_inv L (pre @ [x]) (snd (rsi_update x s)) \<and> rsi_good L (pre @ [x]) (fst (rsi_update x s))"
proof -
  consider "L = 0" | "0 < L" "pre = []" | "0 < L" "pre \<noteq> []" by auto
  then show ?thesis
  proof cases
    case 1
    then show ?thesis using inv by (auto simp: rsi_inv_def rsi_good_def rsi_update_def)
  next
    case 2
    then show ?thesis using inv by (auto simp: rsi_inv_def rsi_good_def rsi_update_def)
  next
    case 3
    define delta where "delta = x - last pre"
    define gain where "gain = (if 0 < delta then delta else 0)"
    define loss where "loss = (if delta < 0 then - delta else 0)"
    have L: "L \<le> 2 ^ 53" using dom by (simp add: rsi_dom_def)
    have gl: "in_range gain" "in_range loss"
      using gain_range [of "last pre" x] dom 3 by (auto simp: rsi_dom_def gain_def loss_def delta_def)
    have s: "rsi_length s = L" "rsi_prev_price s = Some (last pre)" "rsi_seed_count s = min L (length pre - 1)"
      "sum_range (rsi_seed_count s) (rsi_seed_gain_sum s)" "sum_range (rsi_seed_count s) (rsi_seed_loss_sum s)"
      "in_range (rsi_avg_gain s)" "in_range (rsi_avg_loss s)"
      using inv 3 by (auto simp: rsi_inv_def)
    note upd = rsi_update_def s(1,2) option.case Let_def delta_def [symmetric] gain_def [symmetric] loss_def [symmetric]
    show ?thesis
    proof (cases "rsi_seed_count s < L")
      case False
      have "in_range ((rsi_avg_gain s * (dnat L - 1) + gain) / dnat L)" "in_range ((rsi_avg_loss s * (dnat L - 1) + loss) / dnat L)"
        using smooth_range s gl 3 L by auto
      then show ?thesis using False s 3 computeRsi_range
        by (auto simp: upd rsi_inv_def rsi_good_def min_def split: if_splits)
    next
      case True
      have c: "rsi_seed_count s + 1 \<le> 2 ^ 53" using True L by linarith
      have sr: "sum_range (rsi_seed_count s + 1) (rsi_seed_gain_sum s + gain)" "sum_range (rsi_seed_count s + 1) (rsi_seed_loss_sum s + loss)"
        using sum_range_add s gl c by auto
      have n: "rsi_seed_count s + 1 = min L (length pre)" using True s(3) 3 by (cases pre) auto
      show ?thesis
      proof (cases "rsi_seed_count s + 1 < L")
        case True2: True
        then show ?thesis using True s 3 sr n by (auto simp: upd rsi_inv_def rsi_good_def)
      next
        case False
        then have eq: "rsi_seed_count s + 1 = L" using True by simp
        then have "in_range ((rsi_seed_gain_sum s + gain) / dnat L)" "in_range ((rsi_seed_loss_sum s + loss) / dnat L)"
          using sum_range_avg sr 3 L by auto
        then show ?thesis using True False eq s 3 sr n computeRsi_range
          by (auto simp: upd rsi_inv_def rsi_good_def)
      qed
    qed
  qed
qed

interpretation rsi: stream_indicator rsi_update "rsi_new L" "rsi_dom L" "rsi_inv L" "rsi_good L" for L
proof unfold_locales
  show "rsi_inv L [] (rsi_new L)"
    using in_range_D [of 0] by (simp add: rsi_inv_def rsi_new_def rsi_reset_def rsi_clear_def)
qed (auto simp: rsi_dom_def dest: rsi_step)

subsection \<open>Simple moving average\<close>

text \<open>KRW prices are whole numbers: as long as \<open>N\<close> of them add up to at most \<open>2 ^ 53\<close> the running sum
  is exact, however long the stream.\<close>

definition sma_dom :: "nat \<Rightarrow> double list \<Rightarrow> bool" where
  "sma_dom N pre \<longleftrightarrow> N \<le> 2 ^ 53 \<and>
     (\<forall>p \<in> set pre. fin p \<and> val p = of_int \<lfloor>val p\<rfloor> \<and> \<bar>val p\<bar> * of_nat N \<le> 2 ^ 53)"

definition window_sum :: "nat \<Rightarrow> double list \<Rightarrow> rat" where
  "window_sum N pre = sum_list (map val (last_n N pre))"

definition sma_inv :: "nat \<Rightarrow> double list \<Rightarrow> Sma \<Rightarrow> bool" where
  "sma_inv N pre s \<longleftrightarrow> sma_length s = N \<and> rb_ok (sma_window s) \<and> rb_cap (sma_window s) = N \<and>
     rb_list (sma_window s) = last_n N pre \<and> sma_dom N pre \<and>
     (0 < N \<longrightarrow> sma_sum s = D (window_sum N pre))"

definition sma_good :: "nat \<Rightarrow> double list \<Rightarrow> Value \<Rightarrow> bool" where
  "sma_good N pre out \<longleftrightarrow>
     out = (if 0 < N \<and> N \<le> length pre then \<lparr> v_ready = True, v_val = D (window_sum N pre / of_nat N) \<rparr> else no_value)"

lemma rep_whole: "q = of_int \<lfloor>q\<rfloor> \<Longrightarrow> \<bar>q\<bar> \<le> 2 ^ 53 \<Longrightarrow> rep q"
proof -
  assume q: "q = of_int \<lfloor>q\<rfloor>" "\<bar>q\<bar> \<le> 2 ^ 53"
  have "(of_int \<bar>\<lfloor>q\<rfloor>\<bar> :: rat) \<le> of_int (2 ^ 53)" using q by simp
  then have "\<bar>\<lfloor>q\<rfloor>\<bar> \<le> 2 ^ 53" by (simp only: of_int_le_iff)
  then show ?thesis using rep_int q(1) by metis
qed

lemma whole_add: "(a::rat) = of_int \<lfloor>a\<rfloor> \<Longrightarrow> b = of_int \<lfloor>b\<rfloor> \<Longrightarrow> a + b = of_int \<lfloor>a + b\<rfloor>"
  by (metis floor_of_int of_int_add)

lemma whole_sum:
  assumes "\<forall>p \<in> set xs. val p = of_int \<lfloor>val p\<rfloor> \<and> \<bar>val p\<bar> \<le> B"
  shows "sum_list (map val xs) = of_int \<lfloor>sum_list (map val xs)\<rfloor> \<and> \<bar>sum_list (map val xs)\<bar> \<le> of_nat (length xs) * B"
  using assms
proof (induction xs)
  case (Cons x xs)
  then have "val x + sum_list (map val xs) = of_int \<lfloor>val x + sum_list (map val xs)\<rfloor>" by (intro whole_add) auto
  moreover have "\<bar>val x + sum_list (map val xs)\<bar> \<le> B + of_nat (length xs) * B"
    using Cons by (intro order.trans [OF abs_triangle_ineq add_mono]) auto
  ultimately show ?case by (simp add: algebra_simps)
qed simp

lemma window_rep:
  assumes "sma_dom N pre" "set xs \<subseteq> set pre" "length xs \<le> N"
  shows "rep (sum_list (map val xs))"
proof (cases "N = 0")
  case False
  have "\<forall>p \<in> set xs. val p = of_int \<lfloor>val p\<rfloor> \<and> \<bar>val p\<bar> \<le> 2 ^ 53 / of_nat N"
    using assms False by (auto simp: sma_dom_def field_simps)
  from whole_sum [OF this] have w: "sum_list (map val xs) = of_int \<lfloor>sum_list (map val xs)\<rfloor>"
    "\<bar>sum_list (map val xs)\<bar> \<le> of_nat (length xs) * (2 ^ 53 / of_nat N)" by auto
  have "of_nat (length xs) * (2 ^ 53 / of_nat N) \<le> of_nat N * (2 ^ 53 / (of_nat N :: rat))"
    using assms(3) by (intro mult_right_mono) auto
  then have "\<bar>sum_list (map val xs)\<bar> \<le> 2 ^ 53" using w(2) False by simp
  then show ?thesis using w(1) rep_whole by blast
qed (use assms in auto)

lemma sma_step:
  assumes inv: "sma_inv N pre s" and dom: "sma_dom N (pre @ [x])"
  shows "sma_inv N (pre @ [x]) (snd (sma_update x s)) \<and> sma_good N (pre @ [x]) (fst (sma_update x s))"
proof (cases "N = 0")
  case True
  then show ?thesis using inv dom by (auto simp: sma_inv_def sma_good_def sma_update_def last_n_def)
next
  case False
  then have N: "0 < N" by simp
  define w where "w = rb_push x (sma_window s)"
  define ow where "ow = fst (rb_pushImpl x (sma_window s))"
  have p: "rb_pushImpl x (sma_window s) = (ow, w)" by (simp add: w_def ow_def rb_push_def)
  have s: "sma_length s = N" "rb_ok (sma_window s)" "rb_cap (sma_window s) = N"
    "rb_list (sma_window s) = last_n N pre" "sma_sum s = D (window_sum N pre)"
    using inv N by (auto simp: sma_inv_def)
  have w: "rb_ok w" "rb_cap w = N" "rb_list w = last_n N (pre @ [x])"
    using s N rbf.push_last_n [of "sma_window s" x] last_n_append_last_n [of N pre "[x]"] by (auto simp: w_def)
  have full: "rb_full w \<longleftrightarrow> N \<le> length (pre @ [x])"
  proof -
    have "rb_size w = min N (length (pre @ [x]))" by (metis w(3) length_rb_list length_last_n)
    then show ?thesis using w(2) N by (auto simp: rb_full_def)
  qed
  define old where "old = (case ow of None \<Rightarrow> [] | Some y \<Rightarrow> [y])"
  have ev: "last_n N pre @ [x] = old @ last_n N (pre @ [x])"
    using ring_buffer_eviction_list [OF s(2), of x] s N w by (simp add: old_def ow_def w_def)
  define mid where "mid = butlast (last_n N (pre @ [x]))"
  have lw: "last_n N (pre @ [x]) = mid @ [x]"
    using N by (simp add: mid_def last_n_def Suc_diff_le)
  then have lp: "last_n N pre = old @ mid" using ev by simp
  have domp: "sma_dom N pre" using dom by (auto simp: sma_dom_def)
  have sub: "set (old @ mid) \<subseteq> set (pre @ [x])" "set (mid @ [x]) \<subseteq> set (pre @ [x])"
    using set_last_n [of N pre] set_last_n [of N "pre @ [x]"] lp lw by auto
  have len: "length (old @ mid) \<le> N" "length (mid @ [x]) \<le> N" using lp lw by (metis length_last_n min.cobounded1)+
  have r1: "rep (sum_list (map val (old @ mid)))" "rep (sum_list (map val (mid @ [x])))" "rep (sum_list (map val mid))"
    using window_rep [OF dom sub(1)] window_rep [OF dom sub(2)] window_rep [OF dom, of mid] sub len by auto
  have fx: "fin x" "rep (val x)" using dom by (auto simp: sma_dom_def)
  have fo: "\<forall>y \<in> set old. fin y" using sub dom by (auto simp: sma_dom_def)
  define sum1 where "sum1 = (case ow of Some y \<Rightarrow> sma_sum s - y | None \<Rightarrow> sma_sum s)"
  have "sum1 = D (sum_list (map val mid))"
  proof (cases ow)
    case None
    then show ?thesis using s(5) lp by (simp add: sum1_def old_def window_sum_def)
  next
    case (Some y)
    then have "fin y" "old = [y]" using fo by (auto simp: old_def)
    moreover from this have "fin (sma_sum s)" "val (sma_sum s) = val y + sum_list (map val mid)"
      using s(5) lp r1(1) by (auto simp: window_sum_def)
    ultimately show ?thesis using Some by (simp add: sum1_def fin_diff)
  qed
  then have sum2: "sum1 + x = D (window_sum N (pre @ [x]))"
    using r1(3) fx by (simp add: window_sum_def lw fin_add)
  have out: "sma_update x s = (\<lparr> v_ready = rb_full w, v_val = (if rb_full w then (sum1 + x) / dnat N else 0) \<rparr>,
      s \<lparr> sma_window := w, sma_sum := sum1 + x \<rparr>)"
    using N s(1) p by (simp add: sma_update_def Let_def sum1_def)
  have "rep (window_sum N (pre @ [x]))" using r1(2) by (simp add: window_sum_def lw)
  moreover have "N \<le> 2 ^ 53" using dom by (simp add: sma_dom_def)
  ultimately have "D (window_sum N (pre @ [x])) / dnat N = D (window_sum N (pre @ [x]) / of_nat N)"
    using N by (simp add: dnat_def)
  then show ?thesis using N s w dom full unfolding out sum2
    by (auto simp: sma_inv_def sma_good_def no_value_def)
qed

interpretation sma: stream_indicator sma_update "sma_new N" "\<lambda>pre. sma_dom N pre" "\<lambda>pre s. sma_dom N pre \<longrightarrow> sma_inv N pre s" "sma_good N" for N
proof unfold_locales
  show "sma_dom N [] \<longrightarrow> sma_inv N [] (sma_new N)"
    by (simp add: sma_inv_def sma_new_def sma_reset_def window_sum_def last_n_def)
qed (auto simp: sma_dom_def dest: sma_step)

subsection \<open>Volatility\<close>

definition cv_inv :: "nat \<Rightarrow> double list \<Rightarrow> ChangeVolatility \<Rightarrow> bool" where
  "cv_inv N pre s \<longleftrightarrow> cv_length s = max 2 N \<and> rb_ok (cv_window s) \<and> rb_cap (cv_window s) = max 2 N \<and>
     cv_prevClose s = (if pre = [] then None else Some (last pre)) \<and>
     rb_size (cv_window s) = min (max 2 N) (length pre - 1)"

definition cv_good :: "nat \<Rightarrow> double list \<Rightarrow> Value \<Rightarrow> bool" where
  "cv_good N pre out \<longleftrightarrow> (v_ready out \<longleftrightarrow> max 2 N < length pre) \<and> \<not> v_val out < 0 \<and> (N \<le> 2 \<longrightarrow> v_val out = 0)"

lemma cv_stdev_not_neg: "\<not> cv_stdev s < 0"
  by (simp add: cv_stdev_def Let_def dsqrt_not_neg)

lemma cv_stdev_2: "cv_length s = 2 \<Longrightarrow> cv_stdev s = 0"
  by (simp add: cv_stdev_def)

lemma cv_step:
  assumes inv: "cv_inv N pre s" and dom: "\<forall>p \<in> set (pre @ [x]). \<not> deq p 0"
  shows "cv_inv N (pre @ [x]) (snd (cv_update x s)) \<and> cv_good N (pre @ [x]) (fst (cv_update x s))"
proof (cases "pre = []")
  case True
  then show ?thesis using inv by (auto simp: cv_inv_def cv_good_def cv_update_def)
next
  case False
  define r where "r = (x - last pre) / last pre"
  define w where "w = rb_push r (cv_window s)"
  define ow where "ow = fst (rb_pushImpl r (cv_window s))"
  have p: "rb_pushImpl r (cv_window s) = (ow, w)" by (simp add: w_def ow_def rb_push_def)
  have s: "cv_length s = max 2 N" "rb_ok (cv_window s)" "rb_cap (cv_window s) = max 2 N"
    "cv_prevClose s = Some (last pre)" "rb_size (cv_window s) = min (max 2 N) (length pre - 1)"
    using inv False by (auto simp: cv_inv_def)
  have "0 < length pre" using False by simp
  then have "min (max 2 N) (rb_size (cv_window s) + 1) = min (max 2 N) (length pre)"
    unfolding s(5) by linarith
  then have w: "rb_ok w" "rb_cap w = max 2 N" "rb_size w = min (max 2 N) (length pre)"
    using s(2,3) by (simp_all only: w_def rb_push_size rb_push_ok rb_push_cap)
  have nz: "\<not> deq (last pre) 0" using dom False by simp
  have full: "rb_full w \<longleftrightarrow> max 2 N < length (pre @ [x])" using w by (auto simp: rb_full_def)
  have n2: "N \<le> 2 \<Longrightarrow> max 2 N = 2" by simp
  obtain a b where ab: "(case ow of None \<Rightarrow> (cv_sum s, cv_sumsq s) | Some old \<Rightarrow> (cv_sum s - old, cv_sumsq s - old * old)) = (a, b)"
    by fastforce
  define s2 where "s2 = s \<lparr> cv_prevClose := Some x, cv_window := w, cv_sum := a + r, cv_sumsq := b + r * r \<rparr>"
  have upd: "cv_update x s = (\<lparr> v_ready = rb_full w, v_val = (if rb_full w then cv_stdev s2 else 0) \<rparr>, s2)"
    using s(1,4) nz p ab by (cases ow) (auto simp: cv_update_def Let_def r_def [symmetric] s2_def)
  have "cv_inv N (pre @ [x]) s2" using w s(1) False by (simp add: cv_inv_def s2_def)
  moreover have "cv_length s2 = max 2 N" using s(1) by (simp add: s2_def)
  ultimately show ?thesis using full n2 unfolding upd
    by (simp add: cv_good_def cv_stdev_not_neg cv_stdev_2)
qed

interpretation cv: stream_indicator cv_update "cv_new N" "\<lambda>pre. \<forall>p \<in> set pre. \<not> deq p 0" "cv_inv N" "cv_good N" for N
proof unfold_locales
  show "cv_inv N [] (cv_new N)"
    by (auto simp: cv_inv_def cv_new_def cv_reset_def Let_def rb_reset_def rb_ok_def max_def)
qed (use cv_step in auto)

section \<open>Properties\<close>

text \<open>
  C22: The RSI is a percentage whatever the prices do. For any sequence of prices between 0 and \<open>2 ^ 60\<close>
  and any period up to \<open>2 ^ 53\<close>, every value the indicator returns lies between 0 and 100 in double
  arithmetic (seed averages, Wilder smoothing and the final formula included, with their roundings and a possible
  overflow of the ratio), and it is ready exactly from the price number \<open>L + 1\<close> on.
\<close>

theorem rsi_in_percent_range:
  assumes "L \<le> 2 ^ 53" "\<forall>p \<in> set prices. in_range p" "k < length prices"
  shows "let out = fst (feed rsi_update prices (rsi_new L)) ! k in
     (v_ready out \<longleftrightarrow> 0 < L \<and> L \<le> k) \<and> 0 \<le> v_val out \<and> v_val out \<le> D 100"
  using rsi.feed_good [of L prices k] assms by (auto simp: rsi_dom_def rsi_good_def Let_def)

lemma rsi_example:
  "fst (feed rsi_update [D 10, D 20, D 10] (rsi_new 2)) ! 2 = \<lparr> v_ready = True, v_val = D 50 \<rparr>"
  by (simp add: rsi_update_def rsi_new_def rsi_reset_def rsi_clear_def computeRsi_def Let_def)

theorem rsi_in_percent_range_witness:
  "v_val (fst (feed rsi_update [D 10, D 20, D 10] (rsi_new 2)) ! 2) \<le> D 100
   \<and> fst (feed rsi_update [D 10, D 20, D 10] (rsi_new 2)) ! 2 = \<lparr> v_ready = True, v_val = D 50 \<rparr>"
proof -
  have "in_range (D 10)" "in_range (D 20)" by (auto intro: in_range_D)
  then have "v_val (fst (feed rsi_update [D 10, D 20, D 10] (rsi_new 2)) ! 2) \<le> D 100"
    using rsi_in_percent_range [of 2 "[D 10, D 20, D 10]" 2] by (simp add: Let_def del: feed.simps)
  then show ?thesis using rsi_example by blast
qed

text \<open>
  C23: The O(1) moving average is the average of the window. For whole-number prices (KRW) whose window sums stay
  within \<open>2 ^ 53\<close> the running sum never drifts: after any number of updates the value is the
  double nearest to the exact mean of the last \<open>N\<close> prices, and it is ready exactly when \<open>N\<close> prices
  have been seen.
\<close>

theorem sma_is_window_mean:
  assumes "N \<le> 2 ^ 53" "k < length prices"
    "\<forall>p \<in> set prices. fin p \<and> val p = of_int \<lfloor>val p\<rfloor> \<and> \<bar>val p\<bar> * of_nat N \<le> 2 ^ 53"
  shows "fst (feed sma_update prices (sma_new N)) ! k =
     (if 0 < N \<and> N \<le> k + 1
      then \<lparr> v_ready = True, v_val = D (sum_list (map val (last_n N (take (k + 1) prices))) / of_nat N) \<rparr>
      else no_value)"
proof -
  have "sma_dom N prices" using assms by (simp add: sma_dom_def)
  then have "sma_good N (take (k + 1) prices) (fst (feed sma_update prices (sma_new N)) ! k)"
    using assms(2) by (rule sma.feed_good)
  moreover have "length (take (k + 1) prices) = k + 1" using assms(2) by simp
  ultimately show ?thesis unfolding sma_good_def window_sum_def by (simp only:)
qed

theorem sma_is_window_mean_witness:
  "fst (feed sma_update [D 1, D 2, D 4] (sma_new 2)) ! 2 = \<lparr> v_ready = True, v_val = D 3 \<rparr>"
  using sma_is_window_mean [of 2 2 "[D 1, D 2, D 4]"] by (simp add: last_n_def del: feed.simps)

text \<open>
  \<open>close[N]\<close> is exactly the close price \<open>N\<close> candles ago: after the candle with index \<open>k\<close> the window
  returns the price with index \<open>k - N\<close>, and is not ready before \<open>N + 1\<close> candles (\<open>N = 0\<close> included).
\<close>

theorem closeN_is_delay_line:
  "\<forall>k \<in> {0..<length prices}. fst (feed cpw_update prices (cpw_new N)) ! k =
     (if N \<le> k then \<lparr> v_ready = True, v_val = prices ! (k - N) \<rparr> else no_value)"
proof
  fix k assume "k \<in> {0..<length prices}"
  then have k: "k < length prices" by simp
  have "cpw_good N (take (k + 1) prices) (fst (feed cpw_update prices (cpw_new N)) ! k)"
    using cpw.feed_good k by blast
  then show "fst (feed cpw_update prices (cpw_new N)) ! k =
     (if N \<le> k then \<lparr> v_ready = True, v_val = prices ! (k - N) \<rparr> else no_value)"
    using k by (auto simp: cpw_good_def rev_nth)
qed

theorem closeN_is_delay_line_witness:
  "fst (feed cpw_update [D 7, D 8, D 9] (cpw_new 1)) ! 2 = \<lparr> v_ready = True, v_val = D 8 \<rparr>"
  using closeN_is_delay_line [of "[D 7, D 8, D 9]" 1] by auto

text \<open>
  The volatility is never negative: for any sequence of nonzero closes (infinities and rounding errors of the
  two running sums included) the value is not below 0, it is ready exactly after \<open>max 2 N\<close> changes, and
  a window of 2 changes always reports 0, because the code returns 0 for \<open>n <= 2\<close>.
\<close>

theorem volatility_not_negative:
  assumes "\<forall>p \<in> set prices. \<not> deq p 0" "k < length prices"
  shows "let out = fst (feed cv_update prices (cv_new N)) ! k in
     (v_ready out \<longleftrightarrow> max 2 N \<le> k) \<and> \<not> v_val out < 0 \<and> (N \<le> 2 \<longrightarrow> v_val out = 0)"
  using cv.feed_good [OF assms, of N] assms(2) by (auto simp: cv_good_def Let_def)

theorem volatility_not_negative_witness:
  "v_val (fst (feed cv_update [D 1, D 2, D 1, D 4] (cv_new 2)) ! 3) = 0
   \<and> v_ready (fst (feed cv_update [D 1, D 2, D 1, D 4] (cv_new 2)) ! 3)"
  using volatility_not_negative [of "[D 1, D 2, D 1, D 4]" 3 2] by (auto simp: Let_def simp del: feed.simps)

end
