(* ===== verification/Strategy.thy ===== *)
theory Strategy
  imports Indicators
begin

text \<open>
  The trading strategy, \<open>src/src/trading/strategies\<close>: \<open>RsiMeanReversionStrategy.cpp\<close> and the types of
  \<open>StrategyTypes.h\<close>. The strategy of one market is a record of its members; every public member function is
  a definition that returns the new record with what it emits: a decision of \<open>onCandle\<close> and
  \<open>onIntrabarCandle\<close>, the records passed to the signal callback in \<open>onOrderUpdate\<close>. The random uuid of an
  identifier and the clock of a signal record are arguments; logging is left out.
\<close>

section \<open>Types\<close>

record AccountSnapshot =
  as_krw_available :: double
  as_coin_available :: double

definition canBuy :: "AccountSnapshot \<Rightarrow> bool" where
  "canBuy a \<longleftrightarrow> 0 < as_krw_available a"

definition canSell :: "AccountSnapshot \<Rightarrow> bool" where
  "canSell a \<longleftrightarrow> 0 < as_coin_available a"

record PositionSnapshot =
  ps_coin :: double
  ps_avg_entry_price :: double

definition hasPosition :: "PositionSnapshot \<Rightarrow> bool" where
  "hasPosition p \<longleftrightarrow> 0 < ps_coin p"

record FillEvent =
  fv_identifier :: string
  fv_position :: OrderPosition
  fv_fill_price :: Price
  fv_filled_volume :: Volume

record OrderStatusEvent =
  ou_identifier :: string
  ou_status :: OrderStatus
  ou_position :: OrderPosition
  ou_executed_volume :: double
  ou_remaining_volume :: double
  ou_executed_funds :: double
  ou_position_effect :: PositionEffect

record Decision =
  dn_order :: "OrderRequest option"
  dn_is_no_action :: bool

definition noAction :: Decision where
  "noAction = \<lparr> dn_order = None, dn_is_no_action = True \<rparr>"

definition submit_decision :: "OrderRequest \<Rightarrow> Decision" where
  "submit_decision req = \<lparr> dn_order = Some req, dn_is_no_action = False \<rparr>"

definition hasOrder :: "Decision \<Rightarrow> bool" where
  "hasOrder d \<longleftrightarrow> dn_order d \<noteq> None"

record Snapshot =
  sn_close :: double
  sn_rsi :: Value
  sn_closeN :: Value
  sn_volatility :: Value
  sn_trendReady :: bool
  sn_trendStrength :: double
  sn_marketOk :: bool

definition empty_snapshot :: Snapshot where
  "empty_snapshot = \<lparr> sn_close = 0, sn_rsi = no_value, sn_closeN = no_value, sn_volatility = no_value,
     sn_trendReady = False, sn_trendStrength = 0, sn_marketOk = False \<rparr>"

datatype SignalSide = BUY | SELL

record SignalRecord =
  sg_market :: string
  sg_identifier :: string
  sg_side :: SignalSide
  sg_price :: double
  sg_volume :: double
  sg_krw_amount :: double
  sg_stop_price :: "double option"
  sg_target_price :: "double option"
  sg_rsi :: "double option"
  sg_volatility :: "double option"
  sg_trend_strength :: "double option"
  sg_is_partial :: int
  sg_exit_reason :: string
  sg_ts_ms :: int64

record Params =
  pr_rsiLength :: nat
  pr_oversold :: double
  pr_overbought :: double
  pr_trendLookWindow :: nat
  pr_maxTrendStrength :: double
  pr_volatilityWindow :: nat
  pr_minVolatility :: double
  pr_utilization :: double
  pr_stopLossPct :: double
  pr_profitTargetPct :: double

definition default_params :: Params where
  "default_params = \<lparr> pr_rsiLength = 14, pr_oversold = D 30, pr_overbought = D 70, pr_trendLookWindow = 30,
     pr_maxTrendStrength = D (4 / 100), pr_volatilityWindow = 20, pr_minVolatility = D (4 / 1000),
     pr_utilization = 1, pr_stopLossPct = D 10, pr_profitTargetPct = D 15 \<rparr>"

datatype StrategyState = Flat | PendingEntry | InPosition | PendingExit

record Strategy =
  st_market :: string
  st_params :: Params
  st_state :: StrategyState
  st_pending_client_id :: "string option"
  st_pending_exit_reason :: string
  st_pending_filled_volume :: double
  st_pending_cost_sum :: double
  st_pending_last_price :: double
  st_entry_price :: "double option"
  st_stop_price :: "double option"
  st_target_price :: "double option"
  st_rsi :: RsiWilder
  st_closeN :: ClosePriceWindow
  st_vol :: ChangeVolatility
  st_seq :: "64 word"
  st_signal_snapshot :: Snapshot
  st_signal_callback :: bool
  st_last_candle_ts :: "string option"

section \<open>Construction and start\<close>

definition strategy_id :: string where
  "strategy_id = ''rsi_mean_reversion''"

text \<open>The members a pending order uses, cleared together.\<close>

definition clearPendingState :: "Strategy \<Rightarrow> Strategy" where
  "clearPendingState s = s \<lparr> st_pending_client_id := None, st_pending_exit_reason := [],
     st_pending_filled_volume := 0, st_pending_cost_sum := 0, st_pending_last_price := 0 \<rparr>"

text \<open>The prices of the position, cleared together.\<close>

definition clear_prices :: "Strategy \<Rightarrow> Strategy" where
  "clear_prices s = s \<lparr> st_entry_price := None, st_stop_price := None, st_target_price := None \<rparr>"

definition strategy_reset :: "Strategy \<Rightarrow> Strategy" where
  "strategy_reset s =
     (let s1 = clear_prices (clearPendingState (s \<lparr> st_state := Flat \<rparr>))
      in s1 \<lparr> st_rsi := rsi_clear (st_rsi s1), st_closeN := cpw_clear (st_closeN s1), st_vol := cv_clear (st_vol s1),
              st_signal_snapshot := empty_snapshot, st_last_candle_ts := None \<rparr>)"

text \<open>The constructor: default-constructed members, the three windows set up, then \<open>reset\<close>.\<close>

definition strategy_new :: "string \<Rightarrow> Params \<Rightarrow> Strategy" where
  "strategy_new market p = strategy_reset
     \<lparr> st_market = market, st_params = p, st_state = Flat, st_pending_client_id = None, st_pending_exit_reason = [],
       st_pending_filled_volume = 0, st_pending_cost_sum = 0, st_pending_last_price = 0,
       st_entry_price = None, st_stop_price = None, st_target_price = None,
       st_rsi = rsi_new (pr_rsiLength p), st_closeN = cpw_new (pr_trendLookWindow p), st_vol = cv_new (pr_volatilityWindow p),
       st_seq = 0, st_signal_snapshot = empty_snapshot, st_signal_callback = False, st_last_candle_ts = None \<rparr>"

definition setSignalCallback :: "bool \<Rightarrow> Strategy \<Rightarrow> Strategy" where
  "setSignalCallback b s = s \<lparr> st_signal_callback := b \<rparr>"

definition setStopsFromEntry :: "double \<Rightarrow> Strategy \<Rightarrow> Strategy" where
  "setStopsFromEntry entry s =
     (let sl = dmax 0 (pr_stopLossPct (st_params s));
          tp = dmax 0 (pr_profitTargetPct (st_params s))
      in s \<lparr> st_stop_price := Some (entry * (1 - sl / D 100)), st_target_price := Some (entry * (1 + tp / D 100)) \<rparr>)"

definition set_entry :: "double \<Rightarrow> Strategy \<Rightarrow> Strategy" where
  "set_entry e s = setStopsFromEntry e (s \<lparr> st_entry_price := Some e \<rparr>)"

definition syncOnStart :: "PositionSnapshot \<Rightarrow> Strategy \<Rightarrow> Strategy" where
  "syncOnStart pos s =
     (let s1 = clearPendingState s
      in if hasPosition pos then
           (if 0 < ps_avg_entry_price pos then set_entry (ps_avg_entry_price pos) (s1 \<lparr> st_state := InPosition \<rparr>)
            else clear_prices (s1 \<lparr> st_state := Flat \<rparr>))
         else clear_prices (s1 \<lparr> st_state := Flat \<rparr>))"

section \<open>Candles\<close>

definition buildSnapshot :: "Candle \<Rightarrow> Strategy \<Rightarrow> Snapshot \<times> Strategy" where
  "buildSnapshot c s =
     (let close = c_close_price c;
          (r, rsi) = rsi_update_candle c (st_rsi s);
          (cn, closeN) = cpw_update_candle c (st_closeN s);
          (v, vol) = cv_update_candle c (st_vol s);
          trendReady = (v_ready cn \<and> \<not> deq (v_val cn) 0);
          trendStrength = (if trendReady then dabs (close - v_val cn) / v_val cn else 0);
          trendOk = (if trendReady then trendStrength \<le> pr_maxTrendStrength (st_params s) else False);
          volOk = (if v_ready v then pr_minVolatility (st_params s) \<le> v_val v else False);
          rsiOk = v_ready r
      in (\<lparr> sn_close = close, sn_rsi = r, sn_closeN = cn, sn_volatility = v, sn_trendReady = trendReady,
            sn_trendStrength = trendStrength, sn_marketOk = (trendOk \<and> volOk \<and> rsiOk) \<rparr>,
          s \<lparr> st_rsi := rsi, st_closeN := closeN, st_vol := vol \<rparr>))"

definition makeIdentifier :: "string \<Rightarrow> string \<Rightarrow> Strategy \<Rightarrow> string \<times> Strategy" where
  "makeIdentifier tag uuid s =
     (strategy_id @ '':'' @ st_market s @ '':'' @ tag @ '':'' @ uuid, s \<lparr> st_seq := st_seq s + 1 \<rparr>)"

definition makeMarketBuyByAmount :: "double \<Rightarrow> string \<Rightarrow> Strategy \<Rightarrow> OrderRequest" where
  "makeMarketBuyByAmount krw_amount tag s =
     \<lparr> rq_market = st_market s, rq_position = BID, rq_type = Market, rq_size = AmountSize krw_amount, rq_price = None,
       rq_strategy_id = strategy_id, rq_identifier = [], rq_client_tag = tag \<rparr>"

definition makeMarketSellByVolume :: "double \<Rightarrow> string \<Rightarrow> Strategy \<Rightarrow> OrderRequest" where
  "makeMarketSellByVolume volume tag s =
     \<lparr> rq_market = st_market s, rq_position = ASK, rq_type = Market, rq_size = VolumeSize volume, rq_price = None,
       rq_strategy_id = strategy_id, rq_identifier = [], rq_client_tag = tag \<rparr>"

text \<open>The state after an order has been decided: sums restarted, the snapshot kept for the signal record.\<close>

definition start_pending :: "StrategyState \<Rightarrow> string \<Rightarrow> Snapshot \<Rightarrow> Strategy \<Rightarrow> Strategy" where
  "start_pending st cid sn s = s \<lparr> st_pending_filled_volume := 0, st_pending_cost_sum := 0, st_pending_last_price := 0,
     st_signal_snapshot := sn, st_state := st, st_pending_client_id := Some cid \<rparr>"

definition maybeEnter :: "AppConfig \<Rightarrow> string \<Rightarrow> Snapshot \<Rightarrow> AccountSnapshot \<Rightarrow> Strategy \<Rightarrow> Decision \<times> Strategy" where
  "maybeEnter cfg uuid sn account s =
     (if \<not> canBuy account then (noAction, s)
      else if \<not> sn_marketOk sn then (noAction, s)
      else if \<not> (v_val (sn_rsi sn) \<le> pr_oversold (st_params s)) then (noAction, s)
      else let krw_to_use = as_krw_available account / reserve_margin cfg * pr_utilization (st_params s)
           in if krw_to_use < min_notional_krw cfg then (noAction, s)
              else if krw_to_use \<le> 0 then (noAction, s)
              else let tag = ''entry_rsi_oversold'';
                       (cid, s1) = makeIdentifier tag uuid s;
                       req = makeMarketBuyByAmount krw_to_use tag s1
                   in (submit_decision (req \<lparr> rq_identifier := cid \<rparr>), start_pending PendingEntry cid sn s1))"

definition exit_reason :: "bool \<Rightarrow> bool \<Rightarrow> bool \<Rightarrow> string" where
  "exit_reason hitStop hitTarget rsiExit =
     (let t1 = (if hitStop then ''exit_stop'' else []);
          t2 = (if hitTarget then (if t1 = [] then ''exit_target'' else t1 @ ''_target'') else t1);
          t3 = (if rsiExit then (if t2 = [] then ''exit_rsi_overbought'' else t2 @ ''_rsi_overbought'') else t2)
      in if t3 = [] then ''exit_unknown'' else t3)"

text \<open>Stop and target are compared only when entry, stop and target are all known.\<close>

definition stop_target_hits :: "double \<Rightarrow> Strategy \<Rightarrow> bool \<times> bool" where
  "stop_target_hits close s =
     (case (st_entry_price s, st_stop_price s, st_target_price s) of
        (Some _, Some stop, Some target) \<Rightarrow> (close \<le> stop, target \<le> close)
      | _ \<Rightarrow> (False, False))"

definition maybeExit :: "AppConfig \<Rightarrow> string \<Rightarrow> Snapshot \<Rightarrow> AccountSnapshot \<Rightarrow> Strategy \<Rightarrow> Decision \<times> Strategy" where
  "maybeExit cfg uuid sn account s =
     (if \<not> canSell account then (noAction, s)
      else let rsiExit = (v_ready (sn_rsi sn) \<and> pr_overbought (st_params s) \<le> v_val (sn_rsi sn));
               (hitStop, hitTarget) = stop_target_hits (sn_close sn) s
           in if \<not> (hitStop \<or> hitTarget \<or> rsiExit) then (noAction, s)
              else let tag = exit_reason hitStop hitTarget rsiExit;
                       (cid, s1) = makeIdentifier tag uuid s;
                       sellVol = as_coin_available account
                   in if sellVol * sn_close sn < min_notional_krw cfg then (noAction, s1)
                      else let req = makeMarketSellByVolume sellVol tag s1
                           in (submit_decision (req \<lparr> rq_identifier := cid \<rparr>),
                               (start_pending PendingExit cid sn s1) \<lparr> st_pending_exit_reason := tag \<rparr>))"

text \<open>What the account says about the position overrides the state, outside of a pending order.\<close>

definition reconcile_state :: "AppConfig \<Rightarrow> double \<Rightarrow> double \<Rightarrow> Strategy \<Rightarrow> Strategy" where
  "reconcile_state cfg coin close s =
     (let posNotional = coin * close
      in if st_state s = Flat \<and> min_notional_krw cfg \<le> posNotional then set_entry close (s \<lparr> st_state := InPosition \<rparr>)
         else if st_state s = InPosition \<and> posNotional < min_notional_krw cfg then clear_prices (s \<lparr> st_state := Flat \<rparr>)
         else s)"

definition onCandle :: "AppConfig \<Rightarrow> string \<Rightarrow> Candle \<Rightarrow> AccountSnapshot \<Rightarrow> Strategy \<Rightarrow> Decision \<times> Strategy" where
  "onCandle cfg uuid c account s =
     (if c_market c \<noteq> st_market s then (noAction, s)
      else if st_last_candle_ts s = Some (c_start_timestamp c) then (noAction, s)
      else let (sn, s1) = buildSnapshot c (s \<lparr> st_last_candle_ts := Some (c_start_timestamp c) \<rparr>);
               s2 = reconcile_state cfg (as_coin_available account) (sn_close sn) s1
           in case st_state s2 of
                Flat \<Rightarrow> maybeEnter cfg uuid sn account s2
              | PendingEntry \<Rightarrow> (noAction, s2)
              | InPosition \<Rightarrow> maybeExit cfg uuid sn account s2
              | PendingExit \<Rightarrow> (noAction, s2))"

definition onIntrabarCandle :: "AppConfig \<Rightarrow> string \<Rightarrow> double \<Rightarrow> AccountSnapshot \<Rightarrow> Strategy \<Rightarrow> Decision \<times> Strategy" where
  "onIntrabarCandle cfg uuid close account s =
     (if st_state s \<noteq> InPosition then (noAction, s)
      else if \<not> canSell account then (noAction, s)
      else case (st_stop_price s, st_target_price s) of
        (Some stop, Some target) \<Rightarrow>
          let hitStop = (close \<le> stop); hitTarget = (target \<le> close)
          in if \<not> hitStop \<and> \<not> hitTarget then (noAction, s)
             else let tag = exit_reason hitStop hitTarget False
                  in if as_coin_available account * close < min_notional_krw cfg then (noAction, s)
                     else let (cid, s1) = makeIdentifier tag uuid s;
                              req = makeMarketSellByVolume (as_coin_available account) tag s1
                          in (submit_decision (req \<lparr> rq_identifier := cid \<rparr>),
                              (start_pending PendingExit cid (empty_snapshot \<lparr> sn_close := close \<rparr>) s1)
                                \<lparr> st_pending_exit_reason := tag \<rparr>)
      | _ \<Rightarrow> (noAction, s))"

section \<open>Order events\<close>

definition onFill :: "FillEvent \<Rightarrow> Strategy \<Rightarrow> Strategy" where
  "onFill fill s =
     (if st_pending_client_id s \<noteq> Some (fv_identifier fill) then s
      else let s1 = s \<lparr> st_pending_last_price := fv_fill_price fill \<rparr>
           in if 0 < fv_filled_volume fill then
                s1 \<lparr> st_pending_filled_volume := st_pending_filled_volume s1 + fv_filled_volume fill,
                     st_pending_cost_sum := st_pending_cost_sum s1 + fv_fill_price fill * fv_filled_volume fill \<rparr>
              else s1)"

definition rollback :: "Strategy \<Rightarrow> Strategy" where
  "rollback s = s \<lparr> st_state := (if st_state s = PendingEntry then Flat else InPosition) \<rparr>"

definition final_fill_price :: "OrderStatusEvent \<Rightarrow> Strategy \<Rightarrow> double" where
  "final_fill_price ev s =
     (if 0 < st_pending_filled_volume s then st_pending_cost_sum s / st_pending_filled_volume s
      else if 0 < ou_executed_volume ev \<and> 0 < ou_executed_funds ev then ou_executed_funds ev / ou_executed_volume ev
      else st_pending_last_price s)"

definition final_fill_volume :: "OrderStatusEvent \<Rightarrow> Strategy \<Rightarrow> double" where
  "final_fill_volume ev s = (if 0 < st_pending_filled_volume s then st_pending_filled_volume s else ou_executed_volume ev)"

definition make_signal ::
    "int64 \<Rightarrow> SignalSide \<Rightarrow> string \<Rightarrow> double \<Rightarrow> int \<Rightarrow> OrderStatusEvent \<Rightarrow> Strategy \<Rightarrow> SignalRecord" where
  "make_signal now side cid price is_partial ev s =
     (let sn = st_signal_snapshot s
      in \<lparr> sg_market = st_market s, sg_identifier = cid, sg_side = side, sg_price = price,
           sg_volume = final_fill_volume ev s,
           sg_krw_amount = (if 0 < st_pending_cost_sum s then st_pending_cost_sum s else ou_executed_funds ev),
           sg_stop_price = (if side = BUY then st_stop_price s else None),
           sg_target_price = (if side = BUY then st_target_price s else None),
           sg_rsi = (if v_ready (sn_rsi sn) then Some (v_val (sn_rsi sn)) else None),
           sg_volatility = (if v_ready (sn_volatility sn) then Some (v_val (sn_volatility sn)) else None),
           sg_trend_strength = (if sn_trendReady sn then Some (sn_trendStrength sn) else None),
           sg_is_partial = is_partial,
           sg_exit_reason = (if side = BUY then [] else st_pending_exit_reason s),
           sg_ts_ms = now \<rparr>)"

definition onOrderUpdate :: "int64 \<Rightarrow> OrderStatusEvent \<Rightarrow> Strategy \<Rightarrow> SignalRecord list \<times> Strategy" where
  "onOrderUpdate now ev s =
     (case st_pending_client_id s of
        None \<Rightarrow> ([], s)
      | Some cid \<Rightarrow>
          if ou_identifier ev \<noteq> cid then ([], s)
          else if \<not> status_done (ou_status ev) then ([], s)
          else if ou_position_effect ev = EffNone then ([], clearPendingState (rollback s))
          else let price = final_fill_price ev s; vol = final_fill_volume ev s in
               if st_state s = PendingEntry \<and> ou_position_effect ev = EffOpened then
                 let s1 = (if 0 < price then set_entry price s else s) \<lparr> st_state := InPosition \<rparr>
                 in (case st_entry_price s1 of
                       Some e \<Rightarrow> if st_signal_callback s1 then [make_signal now BUY cid e 0 ev s1] else []
                     | None \<Rightarrow> [], clearPendingState s1)
               else if st_state s = PendingExit \<and> ou_position_effect ev = EffReduced then
                 (if st_signal_callback s \<and> 0 < vol then [make_signal now SELL cid price 1 ev s] else [],
                  clearPendingState (s \<lparr> st_state := InPosition \<rparr>))
               else if st_state s = PendingExit \<and> ou_position_effect ev = EffClosed then
                 (if st_signal_callback s \<and> 0 < price then [make_signal now SELL cid price 0 ev s] else [],
                  clearPendingState (clear_prices (s \<lparr> st_state := Flat \<rparr>)))
               else ([], clearPendingState (rollback s)))"

definition onSubmitFailed :: "Strategy \<Rightarrow> Strategy" where
  "onSubmitFailed s =
     (if st_pending_client_id s = None then s
      else clearPendingState
        (if st_state s = PendingEntry then s \<lparr> st_state := Flat \<rparr>
         else if st_state s = PendingExit then s \<lparr> st_state := InPosition \<rparr>
         else s))"

end
