(* ===== verification/Database.thy ===== *)
theory Database
  imports Strategy NumberText "HOL-Library.Monad_Syntax"
begin

text \<open>
  The database, \<open>src/src/database/Database.cpp\<close>: opening with its schema and its migration, the rows of candles, orders and signals, and
  the normalisation of creation times. SQLite is a library: what it answers to a statement is an argument, and the
  statements given to it are the log \<open>db_log\<close>. What is used of its documentation: a NaN is bound as NULL, a text is bound up to its
  first zero byte. \<open>sscanf\<close> and \<open>timegm\<close> are the C library's; their numbers are not cut to 32 bits here. Warnings are left out.
\<close>

section \<open>Creation times\<close>

text \<open>\<open>%d\<close>: white space, a sign, digits.\<close>

definition scan_int :: "string \<Rightarrow> (int \<times> string) option" where
  "scan_int s =
     (let s1 = dropWhile is_space s;
          (neg, s2) = (case s1 of CHR ''-'' # t \<Rightarrow> (True, t) | CHR ''+'' # t \<Rightarrow> (False, t) | _ \<Rightarrow> (False, s1));
          ds = takeWhile is_digit s2
      in if ds = [] then None
         else Some (if neg then - int (digits_val 10 ds) else int (digits_val 10 ds), dropWhile is_digit s2))"

definition scan_char :: "char \<Rightarrow> string \<Rightarrow> string option" where
  "scan_char c s = (case s of [] \<Rightarrow> None | x # t \<Rightarrow> if x = c then Some t else None)"

text \<open>\<open>sscanf(s, "%d-%d-%dT%d:%d:%d", ...) == 6\<close> and its numbers.\<close>

definition scan_date_time :: "string \<Rightarrow> (int \<times> int \<times> int \<times> int \<times> int \<times> int) option" where
  "scan_date_time s = do {
     (year, s) \<leftarrow> scan_int s; s \<leftarrow> scan_char (CHR ''-'') s;
     (mon, s) \<leftarrow> scan_int s; s \<leftarrow> scan_char (CHR ''-'') s;
     (day, s) \<leftarrow> scan_int s; s \<leftarrow> scan_char (CHR ''T'') s;
     (hour, s) \<leftarrow> scan_int s; s \<leftarrow> scan_char (CHR '':'') s;
     (minute, s) \<leftarrow> scan_int s; s \<leftarrow> scan_char (CHR '':'') s;
     (sec, s) \<leftarrow> scan_int s;
     Some (year, mon, day, hour, minute, sec) }"

text \<open>\<open>sscanf(s, "%d:%d", ...) == 2\<close>.\<close>

definition scan_offset :: "string \<Rightarrow> (int \<times> int) option" where
  "scan_offset s = do {
     (tz_h, s) \<leftarrow> scan_int s; s \<leftarrow> scan_char (CHR '':'') s;
     (tz_m, s) \<leftarrow> scan_int s;
     Some (tz_h, tz_m) }"

definition tz_offset_min :: "string \<Rightarrow> int" where
  "tz_offset_min s =
     (if 19 < length s \<and> (s ! 19 = CHR ''+'' \<or> s ! 19 = CHR ''-'') then
        (case scan_offset (drop 20 s) of
           None \<Rightarrow> 0
         | Some (tz_h, tz_m) \<Rightarrow> if s ! 19 = CHR ''-'' then - (tz_h * 60 + tz_m) else tz_h * 60 + tz_m)
      else 0)"

text \<open>The seconds of a broken-down time in UTC; a month outside of the year carries into the year.\<close>

definition leap :: "int \<Rightarrow> bool" where
  "leap y \<longleftrightarrow> 4 dvd y \<and> (\<not> 100 dvd y \<or> 400 dvd y)"

definition leaps_before :: "int \<Rightarrow> int" where
  "leaps_before y = (y - 1) div 4 - (y - 1) div 100 + (y - 1) div 400"

definition days_before_month :: "int \<Rightarrow> int \<Rightarrow> int" where
  "days_before_month y mon =
     [0, 31, 59, 90, 120, 151, 181, 212, 243, 273, 304, 334] ! nat mon + (if leap y \<and> 2 \<le> mon then 1 else 0)"

definition timegm :: "int \<Rightarrow> int \<Rightarrow> int \<Rightarrow> int \<Rightarrow> int \<Rightarrow> int \<Rightarrow> int" where
  "timegm tm_year tm_mon tm_mday tm_hour tm_min tm_sec =
     (let y = tm_year + 1900 + tm_mon div 12;
          days = 365 * (y - 1970) + leaps_before y - leaps_before 1970 + days_before_month y (tm_mon mod 12) + tm_mday - 1
      in ((days * 24 + tm_hour) * 60 + tm_min) * 60 + tm_sec)"

definition normalizeToEpochMs :: "string \<Rightarrow> int" where
  "normalizeToEpochMs s =
     (if s = [] then 0
      else if list_all is_digit s then
        (if digits_val 10 s < 2 ^ 63 then int (digits_val 10 s) else 0)
      else (case scan_date_time s of
        None \<Rightarrow> 0
      | Some (year, mon, day, hour, minute, sec) \<Rightarrow>
          (let epoch_sec = timegm (year - 1900) (mon - 1) day hour minute sec
           in if epoch_sec < 0 then 0 else (epoch_sec - tz_offset_min s * 60) * 1000)))"

section \<open>Statements and rows\<close>

datatype SqlValue = SqlText string | SqlReal double | SqlInt int | SqlNull

datatype Table = Candles | Orders | Signals

datatype Sql =
    Pragma string
  | Schema
  | AddColumn string
  | CreateCandlesNew
  | CopyCandles
  | DropCandles
  | RenameCandles
  | BeginTx
  | CommitTx
  | InsertInto Table "SqlValue list"

definition bind_text :: "string \<Rightarrow> SqlValue" where
  "bind_text s = SqlText (takeWhile (\<lambda>c. c \<noteq> CHR 0x00) s)"

definition bind_double :: "double \<Rightarrow> SqlValue" where
  "bind_double x = (if x = DNaN then SqlNull else SqlReal x)"

definition bind_optional :: "double option \<Rightarrow> SqlValue" where
  "bind_optional x = (case x of Some v \<Rightarrow> bind_double v | None \<Rightarrow> SqlNull)"

definition bind_nonempty :: "string \<Rightarrow> SqlValue" where
  "bind_nonempty s = (if s = [] then SqlNull else bind_text s)"

definition candle_row :: "string \<Rightarrow> Candle \<Rightarrow> int \<Rightarrow> SqlValue list" where
  "candle_row market c unit =
     [bind_text market, bind_text (c_start_timestamp c), bind_double (c_open_price c), bind_double (c_high_price c),
      bind_double (c_low_price c), bind_double (c_close_price c), bind_double (c_volume c), SqlInt unit]"

definition order_row :: "Order \<Rightarrow> SqlValue list" where
  "order_row o1 =
     [bind_text (o_id o1), (case o_identifier o1 of Some i \<Rightarrow> bind_text i | None \<Rightarrow> SqlNull), bind_text (o_market o1),
      bind_text (if o_position o1 = BID then ''BID'' else ''ASK''), bind_text (if o_type o1 = Market then ''Market'' else ''Limit''),
      bind_optional (o_price o1), bind_optional (o_volume o1), bind_optional (o_requested_amount o1),
      bind_double (o_executed_volume o1), bind_double (o_executed_funds o1), bind_double (o_paid_fee o1),
      bind_text (status_to_string (o_status o1)), SqlInt (normalizeToEpochMs (o_created_at o1))]"

definition signal_row :: "SignalRecord \<Rightarrow> SqlValue list" where
  "signal_row sig =
     [bind_text (sg_market sig), bind_nonempty (sg_identifier sig), bind_text (if sg_side sig = BUY then ''BUY'' else ''SELL''),
      bind_double (sg_price sig), bind_double (sg_volume sig), bind_double (sg_krw_amount sig),
      bind_optional (sg_stop_price sig), bind_optional (sg_target_price sig), bind_optional (sg_rsi sig),
      bind_optional (sg_volatility sig), bind_optional (sg_trend_strength sig), SqlInt (sg_is_partial sig),
      bind_nonempty (sg_exit_reason sig), SqlInt (sint (sg_ts_ms sig))]"

text \<open>The columns of the schema that the insertions fill, in the order of their column lists: the type, whether NOT NULL stands at it, and
  the values of its CHECK.\<close>

datatype ColumnType = TextColumn | RealColumn | IntegerColumn

record Column =
  col_type :: ColumnType
  col_not_null :: bool
  col_check :: "SqlValue list"

definition column :: "ColumnType \<Rightarrow> bool \<Rightarrow> Column" where
  "column t nn = \<lparr> col_type = t, col_not_null = nn, col_check = [] \<rparr>"

fun columns :: "Table \<Rightarrow> Column list" where
  "columns Candles = [column TextColumn True, column TextColumn True] @ replicate 5 (column RealColumn True) @ [column IntegerColumn True]"
| "columns Orders =
     [column TextColumn True, column TextColumn False, column TextColumn True,
      (column TextColumn True) \<lparr> col_check := [SqlText ''BID'', SqlText ''ASK''] \<rparr>,
      (column TextColumn True) \<lparr> col_check := [SqlText ''Market'', SqlText ''Limit''] \<rparr>] @
     replicate 3 (column RealColumn False) @ replicate 3 (column RealColumn True) @ [column TextColumn True, column IntegerColumn True]"
| "columns Signals =
     [column TextColumn True, column TextColumn False, (column TextColumn True) \<lparr> col_check := [SqlText ''BUY'', SqlText ''SELL''] \<rparr>] @
     replicate 3 (column RealColumn True) @ replicate 5 (column RealColumn False) @
     [(column IntegerColumn True) \<lparr> col_check := [SqlInt 0, SqlInt 1] \<rparr>, column TextColumn False, column IntegerColumn True]"

definition fits :: "Column \<Rightarrow> SqlValue \<Rightarrow> bool" where
  "fits col v \<longleftrightarrow>
     (case v of
        SqlNull \<Rightarrow> \<not> col_not_null col
      | SqlText s \<Rightarrow> col_type col = TextColumn
      | SqlReal x \<Rightarrow> col_type col = RealColumn
      | SqlInt i \<Rightarrow> col_type col = IntegerColumn) \<and>
     (col_check col \<noteq> [] \<longrightarrow> v \<in> set (col_check col))"

section \<open>The connection\<close>

record Database =
  db_open :: bool
  db_log :: "Sql list"

definition db_new :: Database where
  "db_new = \<lparr> db_open = False, db_log = [] \<rparr>"

definition db_close :: "Database \<Rightarrow> Database" where
  "db_close db = db \<lparr> db_open := False \<rparr>"

text \<open>A move leaves the other object without a connection; the old one of the target is closed.\<close>

definition db_move :: "Database \<Rightarrow> Database \<times> Database" where
  "db_move other = (other, db_close other)"

definition sqlite_exec :: "Sql \<Rightarrow> Database \<Rightarrow> Database" where
  "sqlite_exec sql db = db \<lparr> db_log := db_log db @ [sql] \<rparr>"

text \<open>\<open>answer sql\<close> is the error message of SQLite, if any. The statements of a list are executed up to the first error, which is
  thrown.\<close>

fun db_exec :: "(Sql \<Rightarrow> string option) \<Rightarrow> Sql list \<Rightarrow> Database \<Rightarrow> exn option \<times> Database" where
  "db_exec answer [] db = (None, db)"
| "db_exec answer (sql # sqls) db =
     (let db1 = sqlite_exec sql db
      in case answer sql of
           Some msg \<Rightarrow> (Some (RuntimeError (''[DB] exec failed: '' @ msg)), db1)
         | None \<Rightarrow> db_exec answer sqls db1)"

definition migration :: "Sql list" where
  "migration = [BeginTx, CreateCandlesNew, CopyCandles, DropCandles, RenameCandles, CommitTx]"

text \<open>\<open>has_unit\<close> is the number of columns \<open>unit\<close> that SQLite reports, 0 if it reports none.\<close>

definition initSchema :: "(Sql \<Rightarrow> string option) \<Rightarrow> int \<Rightarrow> Database \<Rightarrow> exn option \<times> Database" where
  "initSchema answer has_unit db =
     (case db_exec answer [Schema] db of
        (Some e, db1) \<Rightarrow> (Some e, db1)
      | (None, db1) \<Rightarrow>
          (let db2 = fold sqlite_exec [AddColumn ''identifier'', AddColumn ''exit_reason'', AddColumn ''trend_strength''] db1
           in if has_unit = 0 then db_exec answer migration db2 else (None, db2)))"

definition pragmas :: "Sql list" where
  "pragmas = [Pragma ''journal_mode=WAL'', Pragma ''synchronous=NORMAL'', Pragma ''wal_autocheckpoint=10'']"

text \<open>\<open>opened\<close> is the error of opening the file, if any.\<close>

definition db_open_file :: "string option \<Rightarrow> (Sql \<Rightarrow> string option) \<Rightarrow> int \<Rightarrow> Database \<Rightarrow> exn option \<times> Database" where
  "db_open_file opened answer has_unit db =
     (let db0 = (if db_open db then db_close db else db)
      in case opened of
           Some msg \<Rightarrow> (Some (RuntimeError (''[DB] open failed: '' @ msg)), db_close db0)
         | None \<Rightarrow>
             (case db_exec answer pragmas (db0 \<lparr> db_open := True \<rparr>) of
                (Some e, db1) \<Rightarrow> (Some e, db_close db1)
              | (None, db1) \<Rightarrow>
                  (case initSchema answer has_unit db1 of
                     (Some e, db2) \<Rightarrow> (Some e, db_close db2)
                   | (None, db2) \<Rightarrow> (None, db2))))"

text \<open>An insertion: whether SQLite prepares the statement, and whether it executes it.\<close>

definition insert_row :: "bool \<Rightarrow> bool \<Rightarrow> Table \<Rightarrow> SqlValue list \<Rightarrow> Database \<Rightarrow> bool \<times> Database" where
  "insert_row prepared stepped table row db =
     (if \<not> db_open db then (False, db)
      else if \<not> prepared then (False, db)
      else (stepped, sqlite_exec (InsertInto table row) db))"

definition insertCandle :: "bool \<Rightarrow> bool \<Rightarrow> string \<Rightarrow> Candle \<Rightarrow> int \<Rightarrow> Database \<Rightarrow> bool \<times> Database" where
  "insertCandle prepared stepped market c unit = insert_row prepared stepped Candles (candle_row market c unit)"

definition insertOrder :: "bool \<Rightarrow> bool \<Rightarrow> Order \<Rightarrow> Database \<Rightarrow> bool \<times> Database" where
  "insertOrder prepared stepped o1 = insert_row prepared stepped Orders (order_row o1)"

definition insertSignal :: "bool \<Rightarrow> bool \<Rightarrow> SignalRecord \<Rightarrow> Database \<Rightarrow> bool \<times> Database" where
  "insertSignal prepared stepped sig = insert_row prepared stepped Signals (signal_row sig)"

section \<open>The calendar\<close>

text \<open>The calendar itself: the dates from 1970 on, one day after the other.\<close>

definition month_length :: "int \<Rightarrow> int \<Rightarrow> int" where
  "month_length y m = (if m = 2 then (if leap y then 29 else 28) else if m \<in> {4, 6, 9, 11} then 30 else 31)"

fun next_day :: "int \<times> int \<times> int \<Rightarrow> int \<times> int \<times> int" where
  "next_day (y, m, d) =
     (if d < month_length y m then (y, m, d + 1) else if m < 12 then (y, m + 1, 1) else (y + 1, 1, 1))"

definition date_of :: "nat \<Rightarrow> int \<times> int \<times> int" where
  "date_of n = (next_day ^^ n) (1970, 1, 1)"

fun valid_date :: "int \<times> int \<times> int \<Rightarrow> bool" where
  "valid_date (y, m, d) \<longleftrightarrow> 1970 \<le> y \<and> 1 \<le> m \<and> m \<le> 12 \<and> 1 \<le> d \<and> d \<le> month_length y m"

lemma div_step: "0 < (k::int) \<Longrightarrow> y div k = (y - 1) div k + (if k dvd y then 1 else 0)"
proof -
  assume k: "0 < k"
  have y: "y = k * (y div k) + y mod k" "0 \<le> y mod k" "y mod k < k" using k by simp_all
  show ?thesis
  proof (cases "y mod k = 0")
    case True
    have "y - 1 = k * (y div k - 1) + (k - 1)" using y(1) True by (simp add: algebra_simps)
    then have "(y - 1) div k = y div k - 1" using k int_div_pos_eq [of "y - 1" k "y div k - 1" "k - 1"] by simp
    then show ?thesis using True by (simp add: dvd_eq_mod_eq_0)
  next
    case False
    have "y - 1 = k * (y div k) + (y mod k - 1)" using y(1) by simp
    then have "(y - 1) div k = y div k" using y(2,3) False int_div_pos_eq [of "y - 1" k "y div k" "y mod k - 1"] by simp
    then show ?thesis using False by (simp add: dvd_eq_mod_eq_0)
  qed
qed

lemma leaps_step: "leaps_before (y + 1) = leaps_before y + (if leap y then 1 else 0)"
proof -
  define b :: "int \<Rightarrow> int" where "b k = (if k dvd y then 1 else 0)" for k
  have d: "(100::int) dvd 400" "(4::int) dvd 100" by simp_all
  have rule: "(if P4 \<and> (\<not> P100 \<or> P400) then 1 else 0) = ((if P4 then 1 else 0) - (if P100 then 1 else 0) + (if P400 then 1 else 0) :: int)"
    if "P400 \<Longrightarrow> P100" "P100 \<Longrightarrow> P4" for P4 P100 P400 using that by auto
  have "(if leap y then 1 else 0) = b 4 - b 100 + b 400"
    unfolding leap_def b_def by (rule rule [OF dvd_trans [OF d(1)] dvd_trans [OF d(2)]])
  moreover have "y div 4 = (y - 1) div 4 + b 4" "y div 100 = (y - 1) div 100 + b 100" "y div 400 = (y - 1) div 400 + b 400"
    unfolding b_def by (rule div_step, simp)+
  ultimately show ?thesis unfolding leaps_before_def add_diff_cancel_right' by linarith
qed

fun day_number :: "int \<times> int \<times> int \<Rightarrow> int" where
  "day_number (y, m, d) = 365 * (y - 1970) + leaps_before y - leaps_before 1970 + days_before_month y (m - 1) + d - 1"

lemma month_cases: "1 \<le> (m::int) \<Longrightarrow> m \<le> 12 \<Longrightarrow> m \<in> {1, 2, 3, 4, 5, 6, 7, 8, 9, 10, 11, 12}"
proof -
  assume "1 \<le> m" "m \<le> 12"
  then have "m \<in> {1 .. 12}" by simp
  also have "{1 .. 12} = {1, 2, 3, 4, 5, 6, 7, 8, 9, 10, 11, 12 :: int}" by code_simp
  finally show ?thesis .
qed

lemma next_day_step:
  assumes "valid_date c"
  shows "valid_date (next_day c) \<and> day_number (next_day c) = day_number c + 1"
proof -
  obtain y m d where c: "c = (y, m, d)" by (metis prod.exhaust)
  have "m \<in> {1, 2, 3, 4, 5, 6, 7, 8, 9, 10, 11, 12}" using assms c month_cases by simp
  then show ?thesis
    using assms leaps_step [of y] unfolding c by (elim insertE) (auto simp: month_length_def days_before_month_def)
qed

lemma date_of_day: "valid_date (date_of n) \<and> day_number (date_of n) = int n"
proof (induction n)
  case (Suc n)
  then show ?case using next_day_step [of "date_of n"] by (simp add: date_of_def)
qed (simp add: date_of_def month_length_def days_before_month_def)

lemma timegm_date:
  assumes "date_of n = (y, m, d)"
  shows "timegm (y - 1900) (m - 1) d h mi s = 86400 * int n + 3600 * h + 60 * mi + s"
proof -
  have v: "1 \<le> m" "m \<le> 12" "day_number (y, m, d) = int n" using date_of_day [of n] assms by simp_all
  have "(m - 1) div 12 = 0" "(m - 1) mod 12 = m - 1" using v(1,2) by (simp_all add: div_pos_pos_trivial)
  then show ?thesis using v(3) by (simp add: timegm_def Let_def algebra_simps)
qed

section \<open>Creation times of both interfaces\<close>

text \<open>The text of the REST interface, \<open>YYYY-MM-DDTHH:MM:SS+HH:MM\<close>, and the time it stands for.\<close>

definition iso_text :: "int \<times> int \<times> int \<Rightarrow> nat \<Rightarrow> nat \<Rightarrow> nat \<Rightarrow> bool \<Rightarrow> nat \<Rightarrow> nat \<Rightarrow> string" where
  "iso_text date h mi s east tz_h tz_m =
     (case date of (y, m, d) \<Rightarrow>
        pad_digits 4 (nat y) @ ''-'' @ pad_digits 2 (nat m) @ ''-'' @ pad_digits 2 (nat d) @ ''T'' @ pad_digits 2 h @ '':'' @
        pad_digits 2 mi @ '':'' @ pad_digits 2 s @ (if east then ''+'' else ''-'') @ pad_digits 2 tz_h @ '':'' @ pad_digits 2 tz_m)"

definition instant_ms :: "nat \<Rightarrow> nat \<Rightarrow> nat \<Rightarrow> nat \<Rightarrow> bool \<Rightarrow> nat \<Rightarrow> nat \<Rightarrow> int" where
  "instant_ms day h mi s east tz_h tz_m =
     1000 * (86400 * int day + 3600 * int h + 60 * int mi + int s - (if east then 60 else - 60) * (60 * int tz_h + int tz_m))"

lemma scan_pad:
  assumes "0 < n" "rest = [] \<or> \<not> is_digit (hd rest)"
  shows "scan_int (pad_digits n k @ rest) = Some (int (k mod 10 ^ n), rest)"
proof -
  have span: "takeWhile is_digit (pad_digits n k @ rest) = pad_digits n k" "dropWhile is_digit (pad_digits n k @ rest) = rest"
    using takeWhile_digits [OF pad_digits_digits, of n k rest] assms(2) by (cases rest; simp)+
  have ne: "pad_digits n k \<noteq> []" using assms(1) length_pad_digits [of n k] by (metis length_greater_0_conv)
  then obtain c cs where c: "pad_digits n k @ rest = c # cs" "is_digit c"
    using pad_digits_digits [of n k] by (cases "pad_digits n k") auto
  then have "dropWhile is_space (pad_digits n k @ rest) = pad_digits n k @ rest" using digit_not_special [of c] by simp
  moreover have "(case pad_digits n k @ rest of CHR ''-'' # t \<Rightarrow> (True, t) | CHR ''+'' # t \<Rightarrow> (False, t) | _ \<Rightarrow> (False, pad_digits n k @ rest)) =
      (False, pad_digits n k @ rest)" using c digit_not_special [of c] by (auto split: list.split char.split bool.split)
  ultimately show ?thesis by (simp add: scan_int_def span ne)
qed

lemma scan_char_Cons [simp]: "scan_char c (c # t) = Some t"
  by (simp add: scan_char_def)

lemma split_at: "length front = 19 \<Longrightarrow> (front @ x # off) ! 19 = x \<and> drop 20 (front @ x # off) = off \<and> 19 < length (front @ x # off)"
  by (simp add: nth_append)

lemma scan_iso:
  assumes "0 \<le> y" "y < 10000" "0 \<le> m" "m < 100" "0 \<le> d" "d < 100" "h < 100" "mi < 100" "s < 100" "tz_h < 100" "tz_m < 100"
  shows "scan_date_time (iso_text (y, m, d) h mi s east tz_h tz_m) = Some (y, m, d, int h, int mi, int s)"
    and "tz_offset_min (iso_text (y, m, d) h mi s east tz_h tz_m) = (if east then 1 else - 1) * (60 * int tz_h + int tz_m)"
    and "\<not> list_all is_digit (iso_text (y, m, d) h mi s east tz_h tz_m)"
proof -
  let ?t = "iso_text (y, m, d) h mi s east tz_h tz_m"
  have sep: "\<not> is_digit (CHR ''-'')" "\<not> is_digit (CHR ''+'')" "\<not> is_digit (CHR ''T'')" "\<not> is_digit (CHR '':'')" by (simp_all add: is_digit_def)
  have n: "int (nat y mod 10 ^ 4) = y" "int (nat m mod 10 ^ 2) = m" "int (nat d mod 10 ^ 2) = d" "h mod 10 ^ 2 = h" "mi mod 10 ^ 2 = mi"
    "s mod 10 ^ 2 = s" "tz_h mod 10 ^ 2 = tz_h" "tz_m mod 10 ^ 2 = tz_m" using assms by (simp_all add: nat_less_iff)
  show "scan_date_time ?t = Some (y, m, d, int h, int mi, int s)"
    unfolding scan_date_time_def iso_text_def using sep n by (cases east) (simp_all add: scan_pad)
  have t: "?t = (pad_digits 4 (nat y) @ ''-'' @ pad_digits 2 (nat m) @ ''-'' @ pad_digits 2 (nat d) @ ''T'' @ pad_digits 2 h @ '':'' @
      pad_digits 2 mi @ '':'' @ pad_digits 2 s) @ (if east then CHR ''+'' else CHR ''-'') # pad_digits 2 tz_h @ '':'' @ pad_digits 2 tz_m"
    (is "_ = ?front @ ?sign # ?off") by (simp add: iso_text_def)
  have front: "length ?front = 19" by simp
  have "?t ! 19 = ?sign" "drop 20 ?t = ?off" "19 < length ?t"
    unfolding t using split_at [OF front] by blast+
  moreover have "scan_offset ?off = Some (int tz_h, int tz_m)"
    unfolding scan_offset_def using sep n scan_pad [of 2 "[]" tz_m] by (simp add: scan_pad)
  ultimately show "tz_offset_min ?t = (if east then 1 else - 1) * (60 * int tz_h + int tz_m)"
    unfolding tz_offset_min_def by (cases east) simp_all
  show "\<not> list_all is_digit ?t" using sep by (simp add: iso_text_def)
qed

lemma days_bound:
  assumes "date_of day = (y, m, d)" "y < 10000"
  shows "int day \<le> 3000000"
proof -
  have v: "1970 \<le> y" "1 \<le> m" "m \<le> 12" "d \<le> 31" "day_number (y, m, d) = int day"
    using date_of_day [of day] assms(1) by (auto simp: month_length_def split: if_splits)
  have "(y - 1) div 4 \<le> 9999 div 4" "(y - 1) div 400 \<le> 9999 div 400" "0 \<le> (y - 1) div 100"
    using assms(2) v(1) by (intro zdiv_mono1, simp_all add: pos_imp_zdiv_nonneg_iff)
  then have "leaps_before y \<le> 2523" by (simp add: leaps_before_def)
  moreover have "0 \<le> leaps_before 1970" by (simp add: leaps_before_def)
  moreover have "days_before_month y (m - 1) \<le> 335"
    using month_cases [OF v(2,3)] by (elim insertE) (auto simp: days_before_month_def)
  ultimately show ?thesis using v(4,5) assms(2) by simp
qed

lemma normalize_number: "0 \<le> ms \<Longrightarrow> ms < 2 ^ 63 \<Longrightarrow> normalizeToEpochMs (int_str ms) = ms"
  using nat_str_digits [of "nat ms"] by (simp add: normalizeToEpochMs_def int_str_def nat_less_iff)

lemma iso_instant:
  assumes "date_of day = (y, m, d)" "y < 10000" "h < 24" "mi < 60" "s < 60" "tz_h < 100" "tz_m < 100"
    "instant = instant_ms day h mi s east tz_h tz_m"
  shows "normalizeToEpochMs (iso_text (y, m, d) h mi s east tz_h tz_m) = instant"
proof -
  have v: "1970 \<le> y" "1 \<le> m" "m \<le> 12" "1 \<le> d" "d \<le> 31" "day_number (y, m, d) = int day"
    using date_of_day [of day] assms(1) by (auto simp: month_length_def split: if_splits)
  show ?thesis
    using scan_iso [of y m d h mi s tz_h tz_m east] v(1-5) assms(2-8) timegm_date [OF assms(1), of "int h" "int mi" "int s"]
    by (auto simp: normalizeToEpochMs_def instant_ms_def Let_def)
qed

text \<open>
  C38: Both interfaces give the same creation time. The text of the REST interface for any second of any day from 1970 to 9999, counted one day
  after the other, leap years included, in any time zone, is normalised to the milliseconds of that instant, and the number the web socket sends for this instant is
  normalised to the same.
\<close>

theorem created_at_paths_agree:
  assumes "date_of day = (y, m, d)" "y < 10000" "h < 24" "mi < 60" "s < 60" "tz_h < 100" "tz_m < 100"
    "instant = instant_ms day h mi s east tz_h tz_m"
  shows "normalizeToEpochMs (iso_text (y, m, d) h mi s east tz_h tz_m) = instant \<and>
     (0 \<le> instant \<longrightarrow> normalizeToEpochMs (int_str instant) = instant)"
proof -
  have "int h \<le> 23" "int mi \<le> 59" "int s \<le> 59" "int tz_h \<le> 99" "int tz_m \<le> 99" using assms(3-7) by simp_all
  then have "instant < 2 ^ 63" using days_bound [OF assms(1,2)] unfolding assms(8) instant_ms_def by (cases east) simp_all
  then show ?thesis using normalize_number iso_instant [OF assms] by blast
qed

section \<open>Rows and the schema\<close>

lemma text_fits [simp]: "fits (column TextColumn nn) (bind_text s)"
  by (simp add: fits_def column_def bind_text_def)

lemma nonempty_fits [simp]: "fits (column TextColumn False) (bind_nonempty s)"
  by (simp add: fits_def column_def bind_text_def bind_nonempty_def)

lemma double_fits [simp]: "fits (column RealColumn nn) (bind_double x) \<longleftrightarrow> \<not> nn \<or> x \<noteq> DNaN"
  by (simp add: fits_def column_def bind_double_def)

lemma optional_fits [simp]: "fits (column RealColumn False) (bind_optional x)"
  by (simp add: fits_def column_def bind_optional_def bind_double_def split: option.split)

lemma int_fits [simp]: "fits (column IntegerColumn nn) (SqlInt i)"
  by (simp add: fits_def column_def)

lemma replicate_numeral: "replicate (numeral n) x = x # replicate (pred_numeral n) x"
  by (simp add: numeral_eq_Suc)

text \<open>
  Which rows the schema accepts. The rows of the three insertions have one value per column of their table, and they violate no
  constraint of the schema exactly if none of the numbers that must be there is a NaN and a signal is marked 0 or 1: texts,
  identifiers, sides, types, states and times always fit.
\<close>

theorem rows_fit_schema:
  "(list_all2 fits (columns Candles) (candle_row market c unit) \<longleftrightarrow>
      DNaN \<notin> {c_open_price c, c_high_price c, c_low_price c, c_close_price c, c_volume c}) \<and>
   (list_all2 fits (columns Orders) (order_row ord) \<longleftrightarrow> DNaN \<notin> {o_executed_volume ord, o_executed_funds ord, o_paid_fee ord}) \<and>
   (list_all2 fits (columns Signals) (signal_row sig) \<longleftrightarrow>
      DNaN \<notin> {sg_price sig, sg_volume sig, sg_krw_amount sig} \<and> sg_is_partial sig \<in> {0, 1})"
proof (intro conjI)
  have bound: "bind_text ''BID'' = SqlText ''BID''" "bind_text ''ASK'' = SqlText ''ASK''" "bind_text ''Market'' = SqlText ''Market''"
    "bind_text ''Limit'' = SqlText ''Limit''" "bind_text ''BUY'' = SqlText ''BUY''" "bind_text ''SELL'' = SqlText ''SELL''"
    by (simp_all add: bind_text_def)
  show "list_all2 fits (columns Candles) (candle_row market c unit) \<longleftrightarrow>
      DNaN \<notin> {c_open_price c, c_high_price c, c_low_price c, c_close_price c, c_volume c}"
    by (auto simp: candle_row_def replicate_numeral)
  have side: "fits ((column TextColumn True) \<lparr> col_check := [SqlText ''BID'', SqlText ''ASK''] \<rparr>)
      (bind_text (if o_position ord = BID then ''BID'' else ''ASK''))"
    and kind: "fits ((column TextColumn True) \<lparr> col_check := [SqlText ''Market'', SqlText ''Limit''] \<rparr>)
      (bind_text (if o_type ord = Market then ''Market'' else ''Limit''))"
    and sside: "fits ((column TextColumn True) \<lparr> col_check := [SqlText ''BUY'', SqlText ''SELL''] \<rparr>)
      (bind_text (if sg_side sig = BUY then ''BUY'' else ''SELL''))"
    and part: "fits ((column IntegerColumn True) \<lparr> col_check := [SqlInt 0, SqlInt 1] \<rparr>) (SqlInt (sg_is_partial sig)) \<longleftrightarrow>
      sg_is_partial sig \<in> {0, 1}"
    by (auto simp: bound fits_def column_def)
  have ident: "fits (column TextColumn False) (case o_identifier ord of Some i \<Rightarrow> bind_text i | None \<Rightarrow> SqlNull)"
    by (simp add: fits_def column_def bind_text_def split: option.split)
  show "list_all2 fits (columns Orders) (order_row ord) \<longleftrightarrow> DNaN \<notin> {o_executed_volume ord, o_executed_funds ord, o_paid_fee ord}"
    using side kind ident by (auto simp: order_row_def replicate_numeral)
  show "list_all2 fits (columns Signals) (signal_row sig) \<longleftrightarrow>
      DNaN \<notin> {sg_price sig, sg_volume sig, sg_krw_amount sig} \<and> sg_is_partial sig \<in> {0, 1}"
    using sside part by (auto simp: signal_row_def replicate_numeral)
qed

section \<open>Opening\<close>

lemma exec_result:
  "db_exec answer sqls db = (e, db') \<Longrightarrow> db_open db' = db_open db \<and> (e = None \<longleftrightarrow> (\<forall>sql \<in> set sqls. answer sql = None)) \<and>
     (e = None \<longrightarrow> db_log db' = db_log db @ sqls)"
  by (induction answer sqls db rule: db_exec.induct) (auto simp: sqlite_exec_def Let_def split: option.splits)

definition needed :: "int \<Rightarrow> Sql list" where
  "needed has_unit = pragmas @ [Schema] @ (if has_unit = 0 then migration else [])"

text \<open>
  C39: An open database is a complete one. Opening returns normally exactly if the file opens and every pragma, the schema and, where the
  column \<open>unit\<close> is missing, every statement of the migration succeeds; then the connection is open and these statements have been
  executed in their order. Otherwise it throws, the connection is closed, and every insertion is refused without a statement.
\<close>

theorem open_is_complete:
  assumes "db_open_file opened answer has_unit db = (e, db')"
  shows "(e = None \<longleftrightarrow> opened = None \<and> (\<forall>sql \<in> set (needed has_unit). answer sql = None)) \<and>
     (db_open db' \<longleftrightarrow> e = None) \<and>
     (e = None \<longrightarrow> filter (\<lambda>sql. \<nexists>col. sql = AddColumn col) (drop (length (db_log db)) (db_log db')) = needed has_unit) \<and>
     (e \<noteq> None \<longrightarrow> (\<forall>prepared stepped table row. insert_row prepared stepped table row db' = (False, db')))"
proof (cases opened)
  case None
  define db0 where "db0 = (if db_open db then db_close db else db) \<lparr> db_open := True \<rparr>"
  obtain e1 db1 where x1: "db_exec answer pragmas db0 = (e1, db1)" by (rule prod.exhaust)
  obtain e2 db2 where x2: "db_exec answer [Schema] db1 = (e2, db2)" by (rule prod.exhaust)
  define db3 where "db3 = sqlite_exec (AddColumn ''trend_strength'') (sqlite_exec (AddColumn ''exit_reason'') (sqlite_exec (AddColumn ''identifier'') db2))"
  obtain e4 db4 where x4: "db_exec answer migration db3 = (e4, db4)" by (rule prod.exhaust)
  note r1 = exec_result [OF x1] and r2 = exec_result [OF x2] and r4 = exec_result [OF x4]
  have l: "db_open db0" "db_log db0 = db_log db" by (simp_all add: db0_def db_close_def)
  have l3: "db_open db3 = db_open db2" "db_log db3 = db_log db2 @ [AddColumn ''identifier'', AddColumn ''exit_reason'', AddColumn ''trend_strength'']"
    by (simp_all add: db3_def sqlite_exec_def)
  have f: "filter (\<lambda>sql. \<nexists>col. sql = AddColumn col) sqls = sqls" if "sqls = pragmas \<or> sqls = migration" for sqls
    using that by (auto simp: pragmas_def migration_def)
  have res: "db_open_file opened answer has_unit db =
     (if e1 \<noteq> None then (e1, db_close db1) else if e2 \<noteq> None then (e2, db_close db2)
      else if has_unit = 0 then (if e4 \<noteq> None then (e4, db_close db4) else (None, db4)) else (None, db3))"
    unfolding db_open_file_def initSchema_def Let_def None option.case db0_def [symmetric] x1
    by (cases e1; cases e2; cases e4) (simp_all add: x2 x4 db3_def [symmetric] del: db_exec.simps)
  note db' = assms [unfolded res]
  have all: "(\<forall>sql \<in> set (needed has_unit). answer sql = None) \<longleftrightarrow> e1 = None \<and> e2 = None \<and> (has_unit = 0 \<longrightarrow> e4 = None)"
    using r1 r2 r4 by (auto simp: needed_def)
  have ok: "e = None \<longleftrightarrow> e1 = None \<and> e2 = None \<and> (has_unit = 0 \<longrightarrow> e4 = None)" using db' by (auto split: if_splits)
  have closed: "e \<noteq> None \<Longrightarrow> \<not> db_open db'" using db' by (auto simp: db_close_def split: if_splits)
  have "db_open db1" "db_open db2" "db_open db3" "db_open db4" using r1 r2 r4 l(1) l3(1) by simp_all
  then have open': "e = None \<Longrightarrow> db_open db'" using db' by (auto split: if_splits)
  have log: "db_log db' = db_log db @ pragmas @ [Schema] @ [AddColumn ''identifier'', AddColumn ''exit_reason'', AddColumn ''trend_strength''] @
      (if has_unit = 0 then migration else [])" if "e = None"
  proof -
    have n: "e1 = None" "e2 = None" using ok that by simp_all
    then have "db_log db3 = db_log db @ pragmas @ [Schema] @ [AddColumn ''identifier'', AddColumn ''exit_reason'', AddColumn ''trend_strength'']"
      using r1 r2 l(2) l3(2) by simp
    moreover have "db' = (if has_unit = 0 then db4 else db3)" "has_unit = 0 \<Longrightarrow> e4 = None" using db' n that ok by (auto split: if_splits)
    ultimately show ?thesis using r4 by simp
  qed
  have "e = None \<Longrightarrow> filter (\<lambda>sql. \<nexists>col. sql = AddColumn col) (drop (length (db_log db)) (db_log db')) = needed has_unit"
    using log f [of pragmas] f [of migration] by (simp add: needed_def)
  then show ?thesis using ok all None closed open' by (auto simp: insert_row_def)
qed (use assms in \<open>auto simp: db_open_file_def db_close_def insert_row_def Let_def\<close>)

section \<open>Examples\<close>

theorem created_at_paths_agree_witness:
  "normalizeToEpochMs (iso_text (1970, 3, 1) 9 30 5 True 9 0) = 5099405000 \<and> normalizeToEpochMs (int_str 5099405000) = 5099405000"
proof -
  have "date_of 59 = (1970, 3, 1)" by (simp add: date_of_def eval_nat_numeral month_length_def leap_def)
  then show ?thesis using created_at_paths_agree [of 59 1970 3 1 9 30 5 9 0 5099405000 True] by (simp add: instant_ms_def)
qed

theorem open_is_complete_witness:
  "db_open (snd (db_open_file None (\<lambda>sql. None) 0 db_new)) \<and>
   \<not> db_open (snd (db_open_file None (\<lambda>sql. if sql = DropCandles then Some ''locked'' else None) 0 db_new))"
proof -
  let ?f = "\<lambda>sql. if sql = DropCandles then Some ''locked'' else None"
  obtain e db' where a: "db_open_file None (\<lambda>sql. None) 0 db_new = (e, db')" by (rule prod.exhaust)
  obtain e2 db2 where b: "db_open_file None ?f 0 db_new = (e2, db2)" by (rule prod.exhaust)
  have "DropCandles \<in> set (needed 0)" by (simp add: needed_def migration_def)
  then show ?thesis using open_is_complete [OF a] open_is_complete [OF b] a b by auto
qed

end
