(* ===== verification/OrderSources.thy ===== *)
theory OrderSources
  imports UpbitMappers Database
begin

text \<open>
  The two sources of an order: a message of the private web socket (\<open>MyOrderMapper.h\<close>) and an answer of the REST interface
  (\<open>OpenOrdersMapper.h\<close>). What the mappers make of the same order, field by field, and what the database makes of the two creation times.
\<close>

section \<open>The same order\<close>

text \<open>A number of the web socket and a text of the REST interface.\<close>

definition reads :: "double \<Rightarrow> string \<Rightarrow> bool" where
  "reads x s \<longleftrightarrow> parseDoubleOr s 0 = x"

text \<open>A message in state \<open>trade\<close> reports a fill, and the order it belongs to may be in any state by the time the REST interface is asked.\<close>

definition same_state :: "string \<Rightarrow> OrdState \<Rightarrow> bool" where
  "same_state s st \<longleftrightarrow> s = ''trade'' \<or>
     s = (case st of St_wait \<Rightarrow> ''wait'' | St_watch \<Rightarrow> ''watch'' | St_done \<Rightarrow> ''done'' | St_cancel \<Rightarrow> ''cancel'')"

text \<open>What was ordered, for the three kinds of order the program sends: limit, market buy by amount, market sell by volume.\<close>

definition same_request :: "UpbitMyOrderDto \<Rightarrow> OrderResponseDto \<Rightarrow> bool" where
  "same_request d r \<longleftrightarrow>
     (if wd_order_type d = ''limit'' then
        (\<exists>p v. rs_price r = Some p \<and> rs_volume r = Some v \<and> reads (wd_price d) p \<and> reads (wd_volume d) v)
      else if wd_order_type d = ''price'' then
        rs_side r = Bid \<and> rs_volume r = None \<and> (\<exists>p. rs_price r = Some p \<and> reads (wd_price d) p)
      else wd_order_type d = ''market'' \<and> rs_side r = Ask \<and> rs_price r = None \<and>
        (\<exists>v. rs_volume r = Some v \<and> reads (wd_volume d) v))"

definition same_order :: "UpbitMyOrderDto \<Rightarrow> OrderResponseDto \<Rightarrow> bool" where
  "same_order d r \<longleftrightarrow>
     wd_code d = rs_market r \<and> wd_uuid d = rs_uuid r \<and> wd_identifier d = rs_identifier r \<and>
     wd_ask_bid d = (case rs_side r of Bid \<Rightarrow> ''BID'' | Ask \<Rightarrow> ''ASK'') \<and> wd_order_type d = rs_ord_type r \<and>
     same_state (wd_state d) (rs_state r) \<and> (wd_state d = ''trade'' \<or> same_request d r) \<and>
     reads (wd_executed_volume d) (rs_executed_volume r) \<and>
     (\<exists>s. rs_remaining_volume r = Some s \<and> reads (wd_remaining_volume d) s) \<and>
     (\<exists>s. rs_executed_funds r = Some s \<and> reads (wd_executed_funds d) s) \<and>
     reads (wd_reserved_fee d) (rs_reserved_fee r) \<and> reads (wd_remaining_fee d) (rs_remaining_fee r) \<and>
     reads (wd_paid_fee d) (rs_paid_fee r) \<and> reads (wd_locked d) (rs_locked r) \<and>
     wd_trades_count d = rs_trades_count r \<and> (wd_trades_count d = 0 \<longrightarrow> rs_trades r = [])"

text \<open>The fields both mappers fill the same way, whatever the state.\<close>

definition same_progress :: "Order \<Rightarrow> Order \<Rightarrow> bool" where
  "same_progress x y \<longleftrightarrow>
     o_market x = o_market y \<and> o_identifier x = o_identifier y \<and> o_id x = o_id y \<and> o_position x = o_position y \<and> o_type x = o_type y \<and>
     o_executed_volume x = o_executed_volume y \<and> o_remaining_volume x = o_remaining_volume y \<and> o_trades_count x = o_trades_count y \<and>
     o_reserved_fee x = o_reserved_fee y \<and> o_paid_fee x = o_paid_fee y \<and> o_remaining_fee x = o_remaining_fee y \<and>
     o_locked x = o_locked y \<and> o_executed_funds x = o_executed_funds y"

section \<open>Agreement\<close>

lemma request_agrees:
  assumes "same_order d r" "wd_state d \<noteq> ''trade''"
  shows "o_price (toDomain_order r) = o_price (toOrder d)" "o_volume (toDomain_order r) = o_volume (toOrder d)"
    "o_requested_amount (toDomain_order r) = o_requested_amount (toOrder d)"
proof -
  have req: "same_request d r" "rs_ord_type r = wd_order_type d"
    "wd_ask_bid d = (case rs_side r of Bid \<Rightarrow> ''BID'' | Ask \<Rightarrow> ''ASK'')"
    using assms by (simp_all add: same_order_def)
  show "o_price (toDomain_order r) = o_price (toOrder d)" "o_volume (toDomain_order r) = o_volume (toOrder d)"
    "o_requested_amount (toDomain_order r) = o_requested_amount (toOrder d)"
    using req assms(2)
    by (auto simp: same_request_def reads_def toDomain_order_def toOrder_def toOrderType_def toSide_def parseOptDouble_def Let_def
        split: if_splits)
qed

lemma progress_agrees: "same_order d r \<Longrightarrow> same_progress (toDomain_order r) (toOrder d)"
  unfolding same_order_def reads_def same_progress_def
  by (cases "rs_side r")
    (auto simp: toDomain_order_def toOrder_def toDomainPosition_def toSide_def toDomainOrderType_def toOrderType_def Let_def)

lemma status_agrees:
  assumes "same_order d r"
  shows "o_status (toOrder d) = (if wd_state d = ''trade'' then Open else o_status (toDomain_order r))"
  using assms
  by (cases "rs_state r")
    (auto simp: same_order_def same_state_def toOrder_def toDomain_order_def toOrderStatus_def toDomainStatus_def Let_def)

text \<open>
  C28: The two sources of an order agree, and where they differ it is known how. For an order of one of the kinds the program sends, reported
  by a message and by an answer with the same values: market, identifiers, side, kind, executed and remaining volume,
  fills, fees, locked and executed funds become the same fields. Unless the message reports a fill, the
  requested price, volume and amount and the status are the same too; a message that reports a fill leaves the requested
  values unset and the order open. The creation time stays the text of the REST answer, or the decimal milliseconds of the
  message; the database makes of them the same instant, the first one to the second, which is all the text has.
\<close>

theorem ws_and_rest_agree:
  assumes "same_order d r" "wd_order_timestamp d = Some ts" "0 \<le> sint ts"
    and "date_of day = (y, m, dd)" "y < 10000" "h < 24" "mi < 60" "s < 60" "tz_h < 100" "tz_m < 100"
    and "rs_created_at r = iso_text (y, m, dd) h mi s east tz_h tz_m" "instant_ms day h mi s east tz_h tz_m = 1000 * (sint ts div 1000)"
  shows "same_progress (toDomain_order r) (toOrder d) \<and>
     (if wd_state d = ''trade''
      then o_price (toOrder d) = None \<and> o_volume (toOrder d) = None \<and> o_requested_amount (toOrder d) = None \<and> o_status (toOrder d) = Open
      else o_price (toDomain_order r) = o_price (toOrder d) \<and> o_volume (toDomain_order r) = o_volume (toOrder d) \<and>
        o_requested_amount (toDomain_order r) = o_requested_amount (toOrder d) \<and> o_status (toDomain_order r) = o_status (toOrder d)) \<and>
     o_created_at (toDomain_order r) = rs_created_at r \<and> o_created_at (toOrder d) = int_str (sint ts) \<and>
     normalizeToEpochMs (o_created_at (toOrder d)) = sint ts \<and>
     normalizeToEpochMs (o_created_at (toDomain_order r)) = 1000 * (sint ts div 1000)"
proof -
  have created: "o_created_at (toDomain_order r) = rs_created_at r" "o_created_at (toOrder d) = int_str (sint ts)"
    using assms(2) by (simp_all add: toDomain_order_def toOrder_def Let_def)
  have "sint ts < 2 ^ 63" using sint_lt [of ts] by simp
  then have ws: "normalizeToEpochMs (o_created_at (toOrder d)) = sint ts" using assms(3) created(2) by (simp add: normalize_number)
  have rest: "normalizeToEpochMs (o_created_at (toDomain_order r)) = 1000 * (sint ts div 1000)"
    using iso_instant [OF assms(4-10) refl] created(1) assms(11,12) by simp
  have trade: "o_price (toOrder d) = None \<and> o_volume (toOrder d) = None \<and> o_requested_amount (toOrder d) = None" if "wd_state d = ''trade''"
    using that by (simp add: toOrder_def Let_def)
  show ?thesis
    using progress_agrees [OF assms(1)] request_agrees [OF assms(1)] status_agrees [OF assms(1)] trade created ws rest by simp
qed

section \<open>An example\<close>

lemma read_0: "reads 0 ''0.0''" and read_5000: "reads (D 5000) ''5000''"
  by (simp_all add: reads_def parseDoubleOr_def from_chars_all_def scan_decimal_def scan_number_def is_digit_def
      digits_val_def fromHex_def scan_exp_def range_error_def)

definition rest_example :: OrderResponseDto where
  "rest_example = \<lparr> rs_market = ''KRW-BTC'', rs_uuid = ''u1'', rs_side = Bid, rs_ord_type = ''price'',
     rs_price = Some ''5000'', rs_volume = None, rs_state = St_wait, rs_created_at = ''1970-03-01T09:30:05+09:00'',
     rs_remaining_volume = Some ''0.0'', rs_executed_volume = ''0.0'', rs_executed_funds = Some ''0.0'',
     rs_reserved_fee = ''0.0'', rs_remaining_fee = ''0.0'', rs_paid_fee = ''0.0'', rs_locked = ''5000'',
     rs_time_in_force = None, rs_smp_type = None, rs_prevented_volume = ''0'', rs_prevented_locked = None,
     rs_trades_count = 0, rs_identifier = None, rs_trades = [] \<rparr>"

lemma iso_example: "iso_text (1970, 3, 1) 9 30 5 True 9 0 = ''1970-03-01T09:30:05+09:00''"
  by code_simp

theorem ws_and_rest_agree_witness:
  "o_requested_amount (toDomain_order rest_example) = Some (D 5000) \<and>
   normalizeToEpochMs (o_created_at (toOrder (ws_example \<lparr> wd_order_timestamp := Some 5099405123 \<rparr>))) = 5099405123 \<and>
   normalizeToEpochMs (o_created_at (toDomain_order rest_example)) = 5099405000"
proof -
  let ?d = "ws_example \<lparr> wd_order_timestamp := Some 5099405123 \<rparr>"
  have same: "same_order ?d rest_example"
    using read_0 read_5000 by (simp add: same_order_def same_state_def same_request_def ws_example_def rest_example_def)
  have day: "date_of 59 = (1970, 3, 1)" by (simp add: date_of_def eval_nat_numeral month_length_def leap_def)
  have iso: "rs_created_at rest_example = iso_text (1970, 3, 1) 9 30 5 True 9 0"
    by (simp add: rest_example_def iso_example)
  have ts: "sint (5099405123 :: 64 word) = 5099405123" by simp
  have w: "wd_order_timestamp ?d = Some 5099405123" "wd_state ?d = ''wait''" "o_requested_amount (toOrder ?d) = Some (D 5000)"
    by (simp_all add: ws_example_def toOrder_def toOrderType_def toSide_def Let_def)
  have h: "0 \<le> sint (5099405123 :: 64 word)" "instant_ms 59 9 30 5 True 9 0 = 1000 * (sint (5099405123 :: 64 word) div 1000)"
    "(1970 :: int) < 10000" "(9 :: nat) < 24" "(30 :: nat) < 60" "(5 :: nat) < 60" "(9 :: nat) < 100" "(0 :: nat) < 100"
    by (simp_all add: instant_ms_def)
  note agree = ws_and_rest_agree [OF same w(1) h(1) day h(3-8) iso h(2), THEN conjunct2]
  note times = agree [THEN conjunct2, THEN conjunct2, THEN conjunct2]
  have "o_requested_amount (toDomain_order rest_example) = Some (D 5000)" using agree [THEN conjunct1] w(2,3) by simp
  then show ?thesis using times ts by simp
qed

end
