(* ===== verification/BlockingQueue.thy ===== *)
theory BlockingQueue
  imports BoundedFifo
begin

text \<open>
  The event queue between the WebSocket threads and the market workers,
  \<open>src/src/core/BlockingQueue.h\<close>: a deque with a maximum size (0 for no limit) that drops its
  oldest element when it is full. Every operation holds the mutex for its whole body, so an
  execution is a sequence of these operations (\<open>bq_run\<close>). The wait of \<open>pop_for\<close> ends with an
  element or with a timeout: its argument \<open>arrived\<close> lists what other threads push meanwhile.
\<close>

record 'a BlockingQueue =
  bq_q :: "'a list"
  bq_max_size :: nat

definition bq_new :: "nat \<Rightarrow> 'a BlockingQueue" where
  "bq_new max_size = \<lparr> bq_q = [], bq_max_size = max_size \<rparr>"

definition bq_push :: "'a \<Rightarrow> 'a BlockingQueue \<Rightarrow> 'a BlockingQueue" where
  "bq_push v q =
     (let d = (if 0 < bq_max_size q \<and> bq_max_size q \<le> length (bq_q q) then tl (bq_q q) else bq_q q)
      in q \<lparr> bq_q := d @ [v] \<rparr>)"

definition bq_try_pop :: "'a BlockingQueue \<Rightarrow> 'a option \<times> 'a BlockingQueue" where
  "bq_try_pop q = (case bq_q q of [] \<Rightarrow> (None, q) | v # r \<Rightarrow> (Some v, q \<lparr> bq_q := r \<rparr>))"

text \<open>\<open>pop_for\<close>: \<open>arrived\<close> are the elements that other threads push while this one waits (the wait
  ends at the first moment the queue is not empty); with none the wait times out.\<close>

fun bq_pop_for :: "'a list \<Rightarrow> 'a BlockingQueue \<Rightarrow> 'a option \<times> 'a BlockingQueue" where
  "bq_pop_for arrived q =
     (case bq_q (fold bq_push arrived q) of
        [] \<Rightarrow> (None, q)
      | v # r \<Rightarrow> (Some v, (fold bq_push arrived q) \<lparr> bq_q := r \<rparr>))"

definition bq_size :: "'a BlockingQueue \<Rightarrow> nat" where
  "bq_size q = length (bq_q q)"

definition bq_clear :: "'a BlockingQueue \<Rightarrow> 'a BlockingQueue" where
  "bq_clear q = q \<lparr> bq_q := [] \<rparr>"

definition bq_ok :: "'a BlockingQueue \<Rightarrow> bool" where
  "bq_ok q \<longleftrightarrow> bq_max_size q = 0 \<or> length (bq_q q) \<le> bq_max_size q"

lemma bq_new_ok [simp]: "bq_ok (bq_new n)"
  by (simp add: bq_ok_def bq_new_def)

lemma bq_push_ok [simp]: "bq_ok q \<Longrightarrow> bq_ok (bq_push x q)"
  by (auto simp: bq_ok_def bq_push_def Let_def)

lemma bq_push_max [simp]: "bq_max_size (bq_push x q) = bq_max_size q"
  by (simp add: bq_push_def Let_def)

interpretation bqf: bounded_fifo bq_q bq_max_size bq_push bq_ok
  by unfold_locales (auto simp: bq_push_def bq_ok_def Let_def)

section \<open>Executions\<close>

datatype 'a qop = Push 'a | TryPop | Clear

text \<open>Run a sequence of operations; the result is the elements that were popped, in order.\<close>

fun bq_run :: "'a qop list \<Rightarrow> 'a BlockingQueue \<Rightarrow> 'a list \<times> 'a BlockingQueue" where
  "bq_run [] q = ([], q)"
| "bq_run (Push x # ops) q = bq_run ops (bq_push x q)"
| "bq_run (TryPop # ops) q =
     (let (r, q1) = bq_try_pop q; (out, q2) = bq_run ops q1
      in (case r of None \<Rightarrow> out | Some v \<Rightarrow> v # out, q2))"
| "bq_run (Clear # ops) q = bq_run ops (bq_clear q)"

fun pushed :: "'a qop list \<Rightarrow> 'a list" where
  "pushed [] = []"
| "pushed (Push x # ops) = x # pushed ops"
| "pushed (op # ops) = pushed ops"

lemma bq_push_subseq: "subseq (bq_q (bq_push x q)) (bq_q q @ [x])"
proof -
  have "subseq (tl (bq_q q)) (bq_q q)" by (cases "bq_q q") auto
  then show ?thesis by (auto simp: bq_push_def Let_def)
qed

lemma bq_try_pop_ok [simp]: "bq_ok q \<Longrightarrow> bq_ok (snd (bq_try_pop q))"
  by (auto simp: bq_try_pop_def bq_ok_def split: list.splits)

lemma bq_clear_ok [simp]: "bq_ok (bq_clear q)"
  by (simp add: bq_ok_def bq_clear_def)

lemma bq_run_ok: "bq_ok q \<Longrightarrow> bq_ok (snd (bq_run ops q))"
proof (induction ops q rule: bq_run.induct)
  case (3 ops q)
  obtain r q1 where e: "bq_try_pop q = (r, q1)" by fastforce
  then have "bq_ok q1" using bq_try_pop_ok [OF 3(2)] by (metis snd_conv)
  then show ?case using 3(1) e by (auto simp: Let_def split: prod.splits)
qed auto

lemma bq_run_subseq: "subseq (fst (bq_run ops q) @ bq_q (snd (bq_run ops q))) (bq_q q @ pushed ops)"
proof (induction ops q rule: bq_run.induct)
  case (2 x ops q)
  have "subseq (bq_q (bq_push x q) @ pushed ops) ((bq_q q @ [x]) @ pushed ops)"
    by (intro list_emb_append_mono bq_push_subseq) simp
  with 2 show ?case by (auto intro: subseq_order.trans)
next
  case (3 ops q)
  then show ?case by (auto simp: bq_try_pop_def split: list.splits prod.splits)
next
  case (4 ops q)
  then have "subseq (fst (bq_run ops (bq_clear q)) @ bq_q (snd (bq_run ops (bq_clear q)))) (pushed ops)"
    by (simp add: bq_clear_def)
  then show ?case by (simp add: subseq_drop_many)
qed simp

lemma bq_run_unbounded:
  "bq_max_size q = 0 \<Longrightarrow> Clear \<notin> set ops \<Longrightarrow>
   fst (bq_run ops q) @ bq_q (snd (bq_run ops q)) = bq_q q @ pushed ops"
  by (induction ops q rule: bq_run.induct)
    (auto simp: bq_try_pop_def bq_push_def split: list.splits prod.splits)

section \<open>Properties\<close>

text \<open>
  The event queue is FIFO and lossless up to its bound. Over any execution from an empty queue,
  what consumers received followed by what is still queued is a subsequence of what producers
  pushed: nothing is duplicated, invented or reordered. The queue never holds more than \<open>n\<close>
  elements when a limit \<open>n\<close> is set, and with no limit (and no \<open>clear\<close>) nothing is lost.
\<close>

theorem queue_fifo:
  "subseq (fst (bq_run ops (bq_new n)) @ bq_q (snd (bq_run ops (bq_new n)))) (pushed ops)
   \<and> (0 < n \<longrightarrow> bq_size (snd (bq_run ops (bq_new n))) \<le> n)
   \<and> (n = 0 \<and> Clear \<notin> set ops \<longrightarrow> fst (bq_run ops (bq_new n)) @ bq_q (snd (bq_run ops (bq_new n))) = pushed ops)"
proof -
  have max: "bq_max_size (snd (bq_run ops q)) = bq_max_size q" for q :: "'a BlockingQueue"
    by (induction ops q rule: bq_run.induct)
      (auto simp: bq_try_pop_def bq_clear_def split: list.splits prod.splits)
  have "bq_ok (snd (bq_run ops (bq_new n)))" by (simp add: bq_run_ok)
  then have "0 < n \<longrightarrow> bq_size (snd (bq_run ops (bq_new n))) \<le> n"
    using max [of "bq_new n"] by (auto simp: bq_ok_def bq_new_def bq_size_def)
  then show ?thesis using bq_run_subseq [of ops "bq_new n"] bq_run_unbounded [of "bq_new n" ops]
    by (simp add: bq_new_def)
qed

theorem queue_fifo_witness:
  "bq_size (snd (bq_run [Push (1::int), Push 2, Push 3, TryPop] (bq_new 2))) \<le> 2
   \<and> fst (bq_run [Push (1::int), Push 2, Push 3, TryPop] (bq_new 2)) = [2]"
  using queue_fifo [of "[Push (1::int), Push 2, Push 3, TryPop]" 2]
  by (simp add: bq_new_def bq_push_def bq_try_pop_def)

text \<open>
  Back-pressure drops the oldest events only: after any burst of pushes a queue with limit \<open>n\<close>
  holds exactly the last \<open>n\<close> of the old content followed by the burst, and the newest event is never
  the one dropped.
\<close>

theorem queue_drop_oldest:
  assumes "bq_ok q" "0 < bq_max_size q" "xs \<noteq> []"
  shows "bq_q (fold bq_push xs q) = last_n (bq_max_size q) (bq_q q @ xs)
     \<and> last (bq_q (fold bq_push xs q)) = last xs"
  using assms bqf.fold_push_contents [OF assms(1,2), of xs] by simp

theorem queue_drop_oldest_witness:
  "bq_q (fold bq_push [4, 5] (fold bq_push [1, 2, 3] (bq_new 3))) = [3, 4, 5::int]"
  using queue_drop_oldest [of "fold bq_push [1, 2, 3::int] (bq_new 3)" "[4, 5]"]
  by (simp add: bq_new_def bq_push_def bq_ok_def last_n_def)

end
