(* ===== verification/KeyedStore.thy ===== *)
theory KeyedStore
  imports Prelude "HOL-Library.AList"
begin

text \<open>
  Two interfaces between the components.

  \<open>keyed_cells\<close>: a store of cells that are changed in place, one at a time (the budgets of the account
  manager, the orders of the order store). Clients use the frame law and its consequences for sequences of
  updates.

  \<open>isolated_ops\<close>: operations that each belong to one key (a market), read and change only the
  cell of that key, and keep an invariant. The consequence is the concurrency property the program is designed for:
  in any interleaving of the operations of several markets, what one market sees is what it would see
  if its operations ran alone.
\<close>

section \<open>Association lists as std::map\<close>

definition modify :: "'k \<Rightarrow> ('v \<Rightarrow> 'v) \<Rightarrow> ('k \<times> 'v) list \<Rightarrow> ('k \<times> 'v) list" where
  "modify k f xs = map (\<lambda>(k', x). if k' = k then (k', f x) else (k', x)) xs"

lemma map_of_modify [simp]: "map_of (modify k f xs) k' = (if k' = k then map_option f (map_of xs k) else map_of xs k')"
  by (induction xs) (auto simp: modify_def)

lemma keys_modify [simp]: "map fst (modify k f xs) = map fst xs"
  by (induction xs) (auto simp: modify_def)

lemma map_of_map_snd: "map_of (map (\<lambda>(k, x). (k, f k x)) xs) k = map_option (f k) (map_of xs k)"
  by (induction xs) auto

locale keyed_cells =
  fixes get :: "'s \<Rightarrow> 'k \<Rightarrow> 'v option"
    and change :: "'k \<Rightarrow> ('v \<Rightarrow> 'v) \<Rightarrow> 's \<Rightarrow> 's"
  assumes get_change: "get (change k f s) k' = (if k' = k then map_option f (get s k) else get s k')"
begin

lemma frame: "k' \<noteq> k \<Longrightarrow> get (change k f s) k' = get s k'"
  by (simp add: get_change)

lemma present: "get (change k f s) k' = None \<longleftrightarrow> get s k' = None"
  by (simp add: get_change)

lemma all_cells:
  assumes "\<And>k' x. get s k' = Some x \<Longrightarrow> P x" and "\<And>x. get s k = Some x \<Longrightarrow> P (f x)"
    and "get (change k f s) k' = Some y"
  shows "P y"
  using assms by (auto simp: get_change split: if_splits)

lemma fold_change:
  "get (fold (\<lambda>(k, f). change k f) cs s) k' = map_option (fold id (map snd (filter (\<lambda>c. fst c = k') cs))) (get s k')"
proof (induction cs arbitrary: s)
  case (Cons c cs)
  obtain k f where c: "c = (k, f)" by (cases c)
  show ?case using Cons [of "change k f s"] by (cases "get s k'") (auto simp: c get_change)
qed (simp add: option.map_id0)

end

text \<open>\<open>kv_store\<close>: a store addressed by a key that is part of the value, with insert-or-replace and
  delete. The consequence is that the value found is the last one written and not deleted since.\<close>

locale kv_store =
  fixes get :: "'s \<Rightarrow> 'k \<Rightarrow> 'v option"
    and put :: "'v \<Rightarrow> 's \<Rightarrow> 's"
    and del :: "'k \<Rightarrow> 's \<Rightarrow> 's"
    and key :: "'v \<Rightarrow> 'k"
    and valid :: "'v \<Rightarrow> bool"
  assumes get_put: "valid v \<Longrightarrow> get (put v s) k = (if k = key v then Some v else get s k)"
    and get_del: "get (del k s) k' = (if k' = k then None else get s k')"
begin

lemma put_twice: "valid v \<Longrightarrow> get (put v (put v s)) k = get (put v s) k"
  by (simp add: get_put)

lemma put_commute: "valid v \<Longrightarrow> valid w \<Longrightarrow> key v \<noteq> key w \<Longrightarrow> get (put v (put w s)) k = get (put w (put v s)) k"
  by (simp add: get_put)

lemma fold_put:
  "\<forall>v \<in> set vs. valid v \<Longrightarrow>
   get (fold put vs s) k = (case filter (\<lambda>v. key v = k) vs of [] \<Rightarrow> get s k | ws \<Rightarrow> Some (last ws))"
proof (induction vs arbitrary: s)
  case (Cons v vs)
  then show ?case by (auto simp: get_put split: list.split)
qed simp

lemma put_del: "valid v \<Longrightarrow> get (del (key v) (put v s)) k = get (del (key v) s) k"
  by (simp add: get_put get_del)

end

locale isolated_ops =
  fixes view :: "'s \<Rightarrow> 'k \<Rightarrow> 'v"
    and step :: "'op \<Rightarrow> 's \<Rightarrow> 's"
    and owner :: "'op \<Rightarrow> 'k"
  assumes frame: "k \<noteq> owner op \<Longrightarrow> view (step op s) k = view s k"
    and local_step: "view s (owner op) = view s' (owner op) \<Longrightarrow> view (step op s) (owner op) = view (step op s') (owner op)"
begin

lemma run_congruent:
  "view s k = view s' k \<Longrightarrow> view (fold step ops s) k = view (fold step (filter (\<lambda>op. owner op = k) ops) s') k"
proof (induction ops arbitrary: s s')
  case (Cons op ops)
  show ?case
  proof (cases "owner op = k")
    case True
    then have "view (step op s) k = view (step op s') k" using local_step [of s op s'] Cons.prems by auto
    then show ?thesis using Cons.IH True by simp
  next
    case False
    then have "view (step op s) k = view s' k" using frame [of k op s] Cons.prems by auto
    then show ?thesis using Cons.IH False by simp
  qed
qed simp

lemma interleaving: "view (fold step ops s) k = view (fold step (filter (\<lambda>op. owner op = k) ops) s) k"
  by (rule run_congruent) (rule refl)

lemma reorder:
  "filter (\<lambda>op. owner op = k) ops = filter (\<lambda>op. owner op = k) ops' \<Longrightarrow>
   view (fold step ops s) k = view (fold step ops' s) k"
  using interleaving [of ops s k] interleaving [of ops' s k] by simp

end

interpretation alist: keyed_cells map_of modify
  by unfold_locales simp

end
