(* ===== verification/AccountManager.thy ===== *)
theory AccountManager
  imports KeyedStore Config
begin

text \<open>
  The capital of the bot, \<open>src/src/trading/allocation/AccountManager.{h,cpp}\<close>: one budget per market
  (free KRW, reserved KRW, coins), reservations of KRW as tokens, settlement of fills, and the two ways to
  build the budgets from the exchange's account. Every public method holds the lock for its whole body, so
  an execution of all market threads is a sequence of these operations.

  \<open>budgets_\<close> (a \<open>std::map\<close>) is an association list with distinct keys. A token is a value; the
  move constructor and the destructor are operations on it. The counters of the statistics are 64-bit words.
\<close>

section \<open>State\<close>

record MarketBudget =
  mb_market :: string
  mb_available_krw :: Amount
  mb_reserved_krw :: Amount
  mb_coin_balance :: Volume
  mb_avg_entry_price :: Price
  mb_initial_capital :: Amount
  mb_realized_pnl :: Amount

definition getCurrentEquity :: "MarketBudget \<Rightarrow> Price \<Rightarrow> Amount" where
  "getCurrentEquity b current_price =
     mb_available_krw b + mb_reserved_krw b + (mb_coin_balance b * current_price)"

definition getROI :: "MarketBudget \<Rightarrow> Price \<Rightarrow> double" where
  "getROI b current_price =
     (if deq (mb_initial_capital b) 0 then 0
      else (getCurrentEquity b current_price - mb_initial_capital b) / mb_initial_capital b * D 100)"

definition getRealizedROI :: "MarketBudget \<Rightarrow> double" where
  "getRealizedROI b =
     (if deq (mb_initial_capital b) 0 then 0 else mb_realized_pnl b / mb_initial_capital b * D 100)"

record ReservationToken =
  tok_has_manager :: bool
  tok_market :: string
  tok_amount :: Amount
  tok_consumed :: Amount
  tok_id :: "64 word"
  tok_active :: bool

record Stats =
  total_reserves :: "64 word"
  total_releases :: "64 word"
  total_fills_buy :: "64 word"
  total_fills_sell :: "64 word"
  reserve_failures :: "64 word"

record AccountManager =
  am_budgets :: "(string \<times> MarketBudget) list"
  am_next_token_id :: "64 word"
  am_stats :: Stats

section \<open>Tokens\<close>

definition token_new :: "string \<Rightarrow> Amount \<Rightarrow> 64 word \<Rightarrow> ReservationToken" where
  "token_new market amount tid =
     \<lparr> tok_has_manager = True, tok_market = market, tok_amount = amount, tok_consumed = 0,
       tok_id = tid, tok_active = True \<rparr>"

text \<open>Move construction: the new token and what is left of the source (the string of the source
  is unspecified after the move; it is kept here and never read, the source being inactive).\<close>

definition token_move :: "ReservationToken \<Rightarrow> ReservationToken \<times> ReservationToken" where
  "token_move other = (other, other \<lparr> tok_has_manager := False, tok_active := False \<rparr>)"

definition token_remaining :: "ReservationToken \<Rightarrow> Amount" where
  "token_remaining t = tok_amount t - tok_consumed t"

definition addConsumed :: "Amount \<Rightarrow> ReservationToken \<Rightarrow> ReservationToken" where
  "addConsumed executed_krw t =
     (let c = tok_consumed t + executed_krw
      in t \<lparr> tok_consumed := (if tok_amount t < c then tok_amount t else c) \<rparr>)"

definition token_deactivate :: "ReservationToken \<Rightarrow> ReservationToken" where
  "token_deactivate t = t \<lparr> tok_active := False \<rparr>"

section \<open>Construction\<close>

definition zero_budget :: "string \<Rightarrow> MarketBudget" where
  "zero_budget market =
     \<lparr> mb_market = market, mb_available_krw = 0, mb_reserved_krw = 0, mb_coin_balance = 0,
       mb_avg_entry_price = 0, mb_initial_capital = 0, mb_realized_pnl = 0 \<rparr>"

definition zero_stats :: Stats where
  "zero_stats = \<lparr> total_reserves = 0, total_releases = 0, total_fills_buy = 0, total_fills_sell = 0,
     reserve_failures = 0 \<rparr>"

text \<open>Stage 2 of the constructor on one position of the account.\<close>

definition init_position :: "AppConfig \<Rightarrow> Position \<Rightarrow> MarketBudget \<Rightarrow> MarketBudget" where
  "init_position cfg pos b =
     (let coin_value = p_free pos * p_avg_buy_price pos
      in if coin_value < init_dust_threshold_krw cfg
         then b \<lparr> mb_coin_balance := 0, mb_avg_entry_price := 0, mb_initial_capital := 0 \<rparr>
         else b \<lparr> mb_coin_balance := p_free pos, mb_avg_entry_price := p_avg_buy_price pos,
                  mb_initial_capital := coin_value, mb_available_krw := 0 \<rparr>)"

text \<open>Stages 1 and 2: a zero budget per market, then the positions of the account.\<close>

definition init_budgets :: "AppConfig \<Rightarrow> Account \<Rightarrow> string list \<Rightarrow> (string \<times> MarketBudget) list" where
  "init_budgets cfg account markets =
     fold (\<lambda>pos bs. modify (''KRW-'' @ p_currency pos) (init_position cfg pos) bs) (a_positions account)
       (fold (\<lambda>m bs. AList.update m (zero_budget m) bs) markets [])"

text \<open>Stage 3: the free KRW, in equal shares, to the markets without a coin.\<close>

definition markets_without_coin :: "(string \<times> MarketBudget) list \<Rightarrow> nat" where
  "markets_without_coin bs = length (filter (\<lambda>(_, b). deq (mb_coin_balance b) 0) bs)"

definition distribute_krw :: "Amount \<Rightarrow> (string \<times> MarketBudget) list \<Rightarrow> (string \<times> MarketBudget) list" where
  "distribute_krw remaining_krw bs =
     (if remaining_krw \<le> 0 then bs
      else if 0 < markets_without_coin bs
      then let per_market = remaining_krw / dnat (markets_without_coin bs)
           in map (\<lambda>(k, b). (k, if deq (mb_coin_balance b) 0
                then b \<lparr> mb_available_krw := per_market, mb_initial_capital := per_market \<rparr> else b)) bs
      else bs)"

definition am_new :: "AppConfig \<Rightarrow> Account \<Rightarrow> string list \<Rightarrow> AccountManager result" where
  "am_new cfg account markets =
     (if markets = [] then Inl (InvalidArgument ''AccountManager: markets cannot be empty'')
      else Inr \<lparr> am_budgets = distribute_krw (a_krw_free account) (init_budgets cfg account markets),
                 am_next_token_id = 1, am_stats = zero_stats \<rparr>)"

section \<open>Queries\<close>

definition getBudget :: "AccountManager \<Rightarrow> string \<Rightarrow> MarketBudget option" where
  "getBudget am market = map_of (am_budgets am) market"

definition am_snapshot :: "AccountManager \<Rightarrow> (string \<times> MarketBudget) list" where
  "am_snapshot am = am_budgets am"

definition am_change :: "string \<Rightarrow> (MarketBudget \<Rightarrow> MarketBudget) \<Rightarrow> AccountManager \<Rightarrow> AccountManager" where
  "am_change market f am = am \<lparr> am_budgets := modify market f (am_budgets am) \<rparr>"

definition am_count :: "(Stats \<Rightarrow> Stats) \<Rightarrow> AccountManager \<Rightarrow> AccountManager" where
  "am_count f am = am \<lparr> am_stats := f (am_stats am) \<rparr>"

section \<open>Reservations\<close>

definition reserve :: "string \<Rightarrow> Amount \<Rightarrow> AccountManager \<Rightarrow> ReservationToken option \<times> AccountManager" where
  "reserve market krw_amount am =
     (let fail = (None, am_count (reserve_failures_update (\<lambda>n. n + 1)) am)
      in case getBudget am market of
        None \<Rightarrow> fail
      | Some b \<Rightarrow>
          if krw_amount \<le> 0 then fail
          else if mb_available_krw b < krw_amount then fail
          else
            let am1 = am_change market (\<lambda>b. b \<lparr> mb_available_krw := mb_available_krw b - krw_amount,
                                              mb_reserved_krw := mb_reserved_krw b + krw_amount \<rparr>) am;
                tid = am_next_token_id am1;
                am2 = am_count (total_reserves_update (\<lambda>n. n + 1)) (am1 \<lparr> am_next_token_id := tid + 1 \<rparr>)
            in (Some (token_new market krw_amount tid), am2))"

definition release_budget :: "Amount \<Rightarrow> MarketBudget \<Rightarrow> MarketBudget" where
  "release_budget remaining_amount b =
     (let r = mb_reserved_krw b - remaining_amount
      in b \<lparr> mb_reserved_krw := (if r < 0 then 0 else r),
             mb_available_krw := mb_available_krw b + remaining_amount \<rparr>)"

definition releaseInternal :: "string \<Rightarrow> Amount \<Rightarrow> AccountManager \<Rightarrow> AccountManager" where
  "releaseInternal market remaining_amount am = am_change market (release_budget remaining_amount) am"

definition releaseWithoutToken :: "string \<Rightarrow> Amount \<Rightarrow> AccountManager \<Rightarrow> AccountManager" where
  "releaseWithoutToken market remaining_amount am =
     am_count (total_releases_update (\<lambda>n. n + 1)) (releaseInternal market remaining_amount am)"

definition release :: "ReservationToken \<Rightarrow> AccountManager \<Rightarrow> ReservationToken \<times> AccountManager" where
  "release t am =
     (if \<not> tok_active t then (t, am)
      else (token_deactivate t, releaseWithoutToken (tok_market t) (token_remaining t) am))"

text \<open>The destructor.\<close>

definition token_destroy :: "ReservationToken \<Rightarrow> AccountManager \<Rightarrow> AccountManager" where
  "token_destroy t am =
     (if tok_active t \<and> tok_has_manager t
      then releaseWithoutToken (tok_market t) (tok_amount t - tok_consumed t) am else am)"

section \<open>Settlement\<close>

definition buy_budget :: "Amount \<Rightarrow> Volume \<Rightarrow> Price \<Rightarrow> MarketBudget \<Rightarrow> MarketBudget" where
  "buy_budget executed_krw received_coin fill_price b =
     (let r = mb_reserved_krw b - executed_krw;
          old_total = mb_coin_balance b * mb_avg_entry_price b;
          new_total = received_coin * fill_price;
          new_balance = mb_coin_balance b + received_coin
      in b \<lparr> mb_reserved_krw := (if r < 0 then 0 else r),
             mb_avg_entry_price := (if 0 < new_balance then (old_total + new_total) / new_balance
                                    else mb_avg_entry_price b),
             mb_coin_balance := new_balance \<rparr>)"

definition finalizeFillBuy ::
    "ReservationToken \<Rightarrow> Amount \<Rightarrow> Volume \<Rightarrow> Price \<Rightarrow> AccountManager \<Rightarrow> ReservationToken \<times> AccountManager" where
  "finalizeFillBuy t executed_krw received_coin fill_price am =
     (if \<not> tok_active t then (t, am)
      else if executed_krw \<le> 0 \<or> received_coin \<le> 0 \<or> fill_price \<le> 0 then (t, am)
      else
        let over = token_remaining t < executed_krw;
            e = (if over then token_remaining t else executed_krw)
        in if over \<and> e \<le> 0 then (t, am)
           else case getBudget am (tok_market t) of
             None \<Rightarrow> (t, am)
           | Some _ \<Rightarrow>
               (addConsumed e t,
                am_count (total_fills_buy_update (\<lambda>n. n + 1))
                  (am_change (tok_market t) (buy_budget e received_coin fill_price) am)))"

definition finalizeFillSell :: "string \<Rightarrow> Volume \<Rightarrow> Amount \<Rightarrow> AccountManager \<Rightarrow> AccountManager" where
  "finalizeFillSell market sold_coin received_krw am =
     (if sold_coin \<le> 0 \<or> received_krw < 0 then am
      else case getBudget am market of
        None \<Rightarrow> am
      | Some _ \<Rightarrow>
          am_count (total_fills_sell_update (\<lambda>n. n + 1))
            (am_change market (\<lambda>b. b \<lparr> mb_coin_balance := mb_coin_balance b - sold_coin,
                                       mb_available_krw := mb_available_krw b + received_krw \<rparr>) am))"

definition should_clear_coin :: "AppConfig \<Rightarrow> Price option \<Rightarrow> MarketBudget \<Rightarrow> bool" where
  "should_clear_coin cfg mark_price b =
     (if mb_coin_balance b < coin_epsilon cfg then True
      else case mark_price of
        Some p \<Rightarrow> 0 < p \<and> mb_coin_balance b * p < init_dust_threshold_krw cfg
      | None \<Rightarrow> False)"

definition finalizeSellOrder :: "AppConfig \<Rightarrow> string \<Rightarrow> Price option \<Rightarrow> AccountManager \<Rightarrow> AccountManager" where
  "finalizeSellOrder cfg market mark_price am =
     am_change market
       (\<lambda>b. if should_clear_coin cfg mark_price b
            then b \<lparr> mb_coin_balance := 0, mb_avg_entry_price := 0,
                     mb_realized_pnl := mb_available_krw b - mb_initial_capital b \<rparr>
            else b) am"

definition finish_budget :: "AppConfig \<Rightarrow> Amount \<Rightarrow> MarketBudget \<Rightarrow> MarketBudget" where
  "finish_budget cfg remaining b =
     (let b1 = (if 0 < remaining then release_budget remaining b else b)
      in if 0 < mb_reserved_krw b1 \<and> mb_reserved_krw b1 < krw_dust_threshold cfg
         then b1 \<lparr> mb_available_krw := mb_available_krw b1 + mb_reserved_krw b1, mb_reserved_krw := 0 \<rparr>
         else b1)"

definition finalizeOrder :: "AppConfig \<Rightarrow> ReservationToken \<Rightarrow> AccountManager \<Rightarrow> ReservationToken \<times> AccountManager" where
  "finalizeOrder cfg t am =
     (if \<not> tok_active t then (t, am)
      else case getBudget am (tok_market t) of
        None \<Rightarrow> (token_deactivate t, am)
      | Some _ \<Rightarrow> (token_deactivate t, am_change (tok_market t) (finish_budget cfg (token_remaining t)) am))"

section \<open>Rebuilding from the account\<close>

definition rebuild_position :: "AppConfig \<Rightarrow> Position \<Rightarrow> MarketBudget \<Rightarrow> MarketBudget" where
  "rebuild_position cfg pos b =
     (let coin_value = p_free pos * p_avg_buy_price pos
      in if coin_value < init_dust_threshold_krw cfg
         then b \<lparr> mb_coin_balance := 0, mb_avg_entry_price := 0 \<rparr>
         else b \<lparr> mb_coin_balance := p_free pos, mb_avg_entry_price := p_avg_buy_price pos,
                  mb_available_krw := 0, mb_reserved_krw := 0 \<rparr>)"

text \<open>Stages 1 and 2: every coin balance reset, then the positions of the account.\<close>

definition rebuild_budgets :: "AppConfig \<Rightarrow> Account \<Rightarrow> (string \<times> MarketBudget) list \<Rightarrow> (string \<times> MarketBudget) list" where
  "rebuild_budgets cfg account bs =
     fold (\<lambda>pos bs. modify (''KRW-'' @ p_currency pos) (rebuild_position cfg pos) bs) (a_positions account)
       (map (\<lambda>(k, b). (k, b \<lparr> mb_coin_balance := 0, mb_avg_entry_price := 0 \<rparr>)) bs)"

definition flat_markets :: "AppConfig \<Rightarrow> (string \<times> MarketBudget) list \<Rightarrow> string list" where
  "flat_markets cfg bs = map fst (filter (\<lambda>(_, b). mb_coin_balance b < coin_epsilon cfg) bs)"

definition rebuildFromAccount :: "AppConfig \<Rightarrow> Account \<Rightarrow> AccountManager \<Rightarrow> AccountManager" where
  "rebuildFromAccount cfg account am =
     (let bs = rebuild_budgets cfg account (am_budgets am);
          flat = flat_markets cfg bs
      in if flat = [] then am \<lparr> am_budgets := bs \<rparr>
         else
           let per_market = a_krw_free account / dnat (length flat)
           in am \<lparr> am_budgets :=
                fold (\<lambda>m bs. modify m (\<lambda>b. b \<lparr> mb_available_krw := per_market, mb_reserved_krw := 0 \<rparr>) bs) flat bs \<rparr>)"

section \<open>Frame\<close>

lemma getBudget_am_count [simp]: "getBudget (am_count f am) m = getBudget am m"
  by (simp add: getBudget_def am_count_def)

lemma getBudget_change [simp]:
  "getBudget (am_change m f am) m' = (if m' = m then map_option f (getBudget am m) else getBudget am m')"
  by (simp add: getBudget_def am_change_def)

lemma getBudget_token_id [simp]: "getBudget (am\<lparr>am_next_token_id := n\<rparr>) m = getBudget am m"
  by (simp add: getBudget_def)

interpretation amc: keyed_cells getBudget am_change
  by unfold_locales simp

lemma getBudget_reserve:
  "getBudget (snd (reserve m k am)) m' =
     (if m' = m \<and> fst (reserve m k am) \<noteq> None
      then map_option (\<lambda>b. b \<lparr> mb_available_krw := mb_available_krw b - k, mb_reserved_krw := mb_reserved_krw b + k \<rparr>) (getBudget am m)
      else getBudget am m')"
  by (simp add: reserve_def Let_def split: option.split)

lemma reserve_succeeds:
  "fst (reserve m k am) \<noteq> None \<longleftrightarrow> (\<exists>b. getBudget am m = Some b \<and> \<not> k \<le> 0 \<and> \<not> mb_available_krw b < k)"
  by (auto simp: reserve_def Let_def split: option.split)

lemma reserve_token:
  "fst (reserve m k am) = Some t \<Longrightarrow> t = token_new m k (am_next_token_id am)"
  by (auto simp: reserve_def Let_def am_change_def split: option.splits if_splits)

lemma getBudget_releaseWithoutToken:
  "getBudget (releaseWithoutToken m r am) m' =
     (if m' = m then map_option (release_budget r) (getBudget am m) else getBudget am m')"
  by (simp add: releaseWithoutToken_def releaseInternal_def)

lemma getBudget_release:
  "getBudget (snd (release t am)) m =
     (if m = tok_market t \<and> tok_active t then map_option (release_budget (token_remaining t)) (getBudget am m)
      else getBudget am m)"
  by (auto simp: release_def getBudget_releaseWithoutToken)

lemma getBudget_token_destroy:
  "getBudget (token_destroy t am) m =
     (if m = tok_market t \<and> tok_active t \<and> tok_has_manager t
      then map_option (release_budget (token_remaining t)) (getBudget am m)
      else getBudget am m)"
  by (auto simp: token_destroy_def getBudget_releaseWithoutToken token_remaining_def)

text \<open>The amount a buy fill consumes of the token: clamped to what remains; \<open>None\<close> when the fill is ignored.\<close>

definition fill_amount :: "ReservationToken \<Rightarrow> Amount \<Rightarrow> Volume \<Rightarrow> Price \<Rightarrow> Amount option" where
  "fill_amount t executed_krw received_coin fill_price =
     (if \<not> tok_active t \<or> executed_krw \<le> 0 \<or> received_coin \<le> 0 \<or> fill_price \<le> 0 then None
      else if token_remaining t < executed_krw then
        (if token_remaining t \<le> 0 then None else Some (token_remaining t))
      else Some executed_krw)"

lemma finalizeFillBuy_eq:
  "finalizeFillBuy t x c p am =
     (case fill_amount t x c p of
        None \<Rightarrow> (t, am)
      | Some e \<Rightarrow>
          (case getBudget am (tok_market t) of
             None \<Rightarrow> (t, am)
           | Some _ \<Rightarrow> (addConsumed e t, am_count (total_fills_buy_update (\<lambda>n. n + 1))
                          (am_change (tok_market t) (buy_budget e c p) am))))"
  by (simp add: finalizeFillBuy_def fill_amount_def Let_def)

lemma getBudget_finalizeFillBuy:
  "getBudget (snd (finalizeFillBuy t x c p am)) m =
     (if m = tok_market t
      then (case fill_amount t x c p of
              None \<Rightarrow> getBudget am m | Some e \<Rightarrow> map_option (buy_budget e c p) (getBudget am m))
      else getBudget am m)"
  by (auto simp: finalizeFillBuy_eq split: option.split)

lemma getBudget_finalizeFillSell:
  "getBudget (finalizeFillSell m v k am) m' =
     (if m' = m \<and> \<not> (v \<le> 0 \<or> k < 0)
      then map_option (\<lambda>b. b \<lparr> mb_coin_balance := mb_coin_balance b - v, mb_available_krw := mb_available_krw b + k \<rparr>) (getBudget am m)
      else getBudget am m')"
  by (auto simp: finalizeFillSell_def split: option.split)

lemma getBudget_finalizeSellOrder:
  "getBudget (finalizeSellOrder cfg m p am) m' =
     (if m' = m then map_option (\<lambda>b. if should_clear_coin cfg p b
            then b \<lparr> mb_coin_balance := 0, mb_avg_entry_price := 0,
                     mb_realized_pnl := mb_available_krw b - mb_initial_capital b \<rparr>
            else b) (getBudget am m) else getBudget am m')"
  by (simp add: finalizeSellOrder_def)

lemma getBudget_finalizeOrder:
  "getBudget (snd (finalizeOrder cfg t am)) m =
     (if m = tok_market t \<and> tok_active t then map_option (finish_budget cfg (token_remaining t)) (getBudget am m)
      else getBudget am m)"
  by (auto simp: finalizeOrder_def split: option.split)

lemmas getBudget_ops =
  getBudget_reserve getBudget_release getBudget_token_destroy getBudget_finalizeFillBuy
  getBudget_finalizeFillSell getBudget_finalizeSellOrder getBudget_finalizeOrder

section \<open>Operations as commands\<close>

text \<open>What the market threads do to the shared account manager, one constructor per locked operation.\<close>

datatype am_op =
    ReserveOp string Amount
  | ReleaseOp ReservationToken
  | DestroyOp ReservationToken
  | FillBuyOp ReservationToken Amount Volume Price
  | FillSellOp string Volume Amount
  | SellDoneOp string "Price option"
  | FinishOp ReservationToken

fun am_step :: "AppConfig \<Rightarrow> am_op \<Rightarrow> AccountManager \<Rightarrow> AccountManager" where
  "am_step cfg (ReserveOp m k) am = snd (reserve m k am)"
| "am_step cfg (ReleaseOp t) am = snd (release t am)"
| "am_step cfg (DestroyOp t) am = token_destroy t am"
| "am_step cfg (FillBuyOp t x c p) am = snd (finalizeFillBuy t x c p am)"
| "am_step cfg (FillSellOp m v k) am = finalizeFillSell m v k am"
| "am_step cfg (SellDoneOp m p) am = finalizeSellOrder cfg m p am"
| "am_step cfg (FinishOp t) am = snd (finalizeOrder cfg t am)"

fun am_owner :: "am_op \<Rightarrow> string" where
  "am_owner (ReserveOp m k) = m"
| "am_owner (ReleaseOp t) = tok_market t"
| "am_owner (DestroyOp t) = tok_market t"
| "am_owner (FillBuyOp t x c p) = tok_market t"
| "am_owner (FillSellOp m v k) = m"
| "am_owner (SellDoneOp m p) = m"
| "am_owner (FinishOp t) = tok_market t"

lemma reserve_fst_cong: "getBudget am m = getBudget am' m \<Longrightarrow> fst (reserve m k am) = None \<longleftrightarrow> fst (reserve m k am') = None"
  using reserve_succeeds [of m k am] reserve_succeeds [of m k am'] by auto

interpretation amops: isolated_ops getBudget "am_step cfg" am_owner for cfg
proof unfold_locales
  fix k op s
  show "k \<noteq> am_owner op \<Longrightarrow> getBudget (am_step cfg op s) k = getBudget s k"
    by (cases op) (auto simp: getBudget_ops)
next
  fix s s' op
  assume "getBudget s (am_owner op) = getBudget s' (am_owner op)"
  then show "getBudget (am_step cfg op s) (am_owner op) = getBudget (am_step cfg op s') (am_owner op)"
    using reserve_fst_cong [of s "am_owner op" s'] by (cases op) (auto simp: getBudget_ops split: option.split)
qed

text \<open>All public calls: an operation of a market, or the rebuild of every budget from the account of the exchange.\<close>

datatype am_call = MarketCall am_op | RebuildCall Account

fun am_exec :: "AppConfig \<Rightarrow> am_call \<Rightarrow> AccountManager \<Rightarrow> AccountManager" where
  "am_exec cfg (MarketCall op) am = am_step cfg op am"
| "am_exec cfg (RebuildCall account) am = rebuildFromAccount cfg account am"

section \<open>Invariant\<close>

definition budget_nonneg :: "MarketBudget \<Rightarrow> bool" where
  "budget_nonneg b \<longleftrightarrow> 0 \<le> mb_available_krw b \<and> 0 \<le> mb_reserved_krw b"

definition am_ok :: "AccountManager \<Rightarrow> bool" where
  "am_ok am \<longleftrightarrow> (\<forall>m b. getBudget am m = Some b \<longrightarrow> budget_nonneg b)"

definition tok_ok :: "ReservationToken \<Rightarrow> bool" where
  "tok_ok t \<longleftrightarrow> fin (tok_amount t) \<and> fin (tok_consumed t) \<and> 0 \<le> tok_consumed t \<and> tok_consumed t \<le> tok_amount t"

lemma tok_ok_new: "fin k \<Longrightarrow> \<not> k \<le> 0 \<Longrightarrow> tok_ok (token_new m k i)"
  by (simp add: tok_ok_def token_new_def dnot_le dless_imp_le)

lemma tok_ok_remaining: "tok_ok t \<Longrightarrow> fin (token_remaining t) \<and> 0 \<le> token_remaining t \<and> token_remaining t \<le> tok_amount t"
  by (auto simp: tok_ok_def token_remaining_def intro: fin_diff_nonneg ddiff_nonneg ddiff_le)

lemma tok_ok_addConsumed: "tok_ok t \<Longrightarrow> fin e \<Longrightarrow> 0 \<le> e \<Longrightarrow> tok_ok (addConsumed e t)"
proof -
  assume t: "tok_ok t" "fin e" "0 \<le> e"
  then have c: "0 \<le> tok_consumed t + e" by (intro dadd_nonneg) (auto simp: tok_ok_def)
  have a: "0 \<le> tok_amount t" "fin (tok_amount t)" using t dle_trans [of 0 "tok_consumed t" "tok_amount t"]
    by (simp_all add: tok_ok_def)
  show ?thesis
  proof (cases "tok_amount t < tok_consumed t + e")
    case True
    then show ?thesis using a by (simp add: tok_ok_def addConsumed_def)
  next
    case False
    have "tok_consumed t + e \<le> tok_amount t" by (rule dnot_less_nonneg [OF c a(2) False])
    then show ?thesis using a c dle_fin False by (auto simp: tok_ok_def addConsumed_def Let_def)
  qed
qed

fun op_valid :: "am_op \<Rightarrow> bool" where
  "op_valid (ReserveOp m k) = fin k"
| "op_valid (ReleaseOp t) = tok_ok t"
| "op_valid (DestroyOp t) = tok_ok t"
| "op_valid (FillBuyOp t x c p) = (tok_ok t \<and> fin x)"
| "op_valid (FillSellOp m v k) = fin k"
| "op_valid (SellDoneOp m p) = True"
| "op_valid (FinishOp t) = tok_ok t"

lemma release_budget_nonneg: "budget_nonneg b \<Longrightarrow> fin r \<Longrightarrow> 0 \<le> r \<Longrightarrow> budget_nonneg (release_budget r b)"
  using ddiff_clamp [of "mb_reserved_krw b" r] by (auto simp: budget_nonneg_def release_budget_def Let_def dadd_nonneg)

lemma buy_budget_nonneg: "budget_nonneg b \<Longrightarrow> fin e \<Longrightarrow> budget_nonneg (buy_budget e c p b)"
  using ddiff_clamp [of "mb_reserved_krw b" e] by (auto simp: budget_nonneg_def buy_budget_def Let_def)

lemma finish_budget_nonneg: "budget_nonneg b \<Longrightarrow> fin r \<Longrightarrow> 0 \<le> r \<Longrightarrow> budget_nonneg (finish_budget cfg r b)"
proof -
  assume b: "budget_nonneg b" "fin r" "0 \<le> r"
  define b1 where "b1 = (if 0 < r then release_budget r b else b)"
  have "budget_nonneg b1" using b release_budget_nonneg by (simp add: b1_def)
  then show ?thesis unfolding finish_budget_def b1_def [symmetric] Let_def
    by (auto simp: budget_nonneg_def dadd_nonneg)
qed

lemma fill_amount_fin:
  "tok_ok t \<Longrightarrow> fin x \<Longrightarrow> fill_amount t x c p = Some e \<Longrightarrow> fin e \<and> 0 < e \<and> e \<le> token_remaining t"
  using tok_ok_remaining [of t] by (auto simp: fill_amount_def dnot_le dnot_less split: if_splits)

lemma am_step_ok: "am_ok am \<Longrightarrow> op_valid op \<Longrightarrow> am_ok (am_step cfg op am)"
proof -
  assume am: "am_ok am" and v: "op_valid op"
  have nn: "budget_nonneg b" if "getBudget am m = Some b" for m b using am that by (auto simp: am_ok_def)
  show "am_ok (am_step cfg op am)"
  proof (cases op)
    case (ReserveOp m k)
    have "budget_nonneg (b \<lparr> mb_available_krw := mb_available_krw b - k, mb_reserved_krw := mb_reserved_krw b + k \<rparr>)"
      if "getBudget am m = Some b" "\<not> k \<le> 0" "\<not> mb_available_krw b < k" for b
    proof -
      have k: "fin k" "0 \<le> k" using v ReserveOp that(2) by (auto simp: dnot_le dless_imp_le)
      have "k \<le> mb_available_krw b"
        using nn [OF that(1)] that(3) k by (cases "mb_available_krw b" rule: double_cases) (auto simp: budget_nonneg_def dnot_less)
      then show ?thesis using nn [OF that(1)] k by (auto simp: budget_nonneg_def dadd_nonneg ddiff_nonneg)
    qed
    then show ?thesis using nn ReserveOp reserve_succeeds [of m k am]
      by (auto simp: am_ok_def getBudget_reserve split: if_splits)
  next
    case (FillBuyOp t x c p)
    then show ?thesis using v nn fill_amount_fin buy_budget_nonneg
      by (fastforce simp: am_ok_def getBudget_finalizeFillBuy split: option.splits if_splits)
  next
    case (FillSellOp m v' k)
    have "0 \<le> k" if "\<not> k < 0" using that v FillSellOp by (simp add: dnot_less)
    then show ?thesis using nn FillSellOp
      by (auto simp: am_ok_def getBudget_finalizeFillSell budget_nonneg_def intro!: dadd_nonneg split: if_splits)
  next
    case (SellDoneOp m p)
    then show ?thesis using nn by (auto simp: am_ok_def getBudget_finalizeSellOrder budget_nonneg_def split: if_splits)
  next
    case (ReleaseOp t)
    then show ?thesis using v nn release_budget_nonneg tok_ok_remaining [of t]
      by (auto simp: am_ok_def getBudget_release split: if_splits)
  next
    case (DestroyOp t)
    then show ?thesis using v nn release_budget_nonneg tok_ok_remaining [of t]
      by (auto simp: am_ok_def getBudget_token_destroy split: if_splits)
  next
    case (FinishOp t)
    then show ?thesis using v nn finish_budget_nonneg tok_ok_remaining [of t]
      by (auto simp: am_ok_def getBudget_finalizeOrder split: if_splits)
  qed
qed

section \<open>What the constructor establishes\<close>

lemma fold_update_zero:
  "map_of (fold (\<lambda>m bs. AList.update m (zero_budget m) bs) markets bs) m =
     (if m \<in> set markets then Some (zero_budget m) else map_of bs m)"
  by (induction markets arbitrary: bs) (auto simp: update_conv)

lemma distinct_fold_update:
  "distinct (map fst bs) \<Longrightarrow> distinct (map fst (fold (\<lambda>m bs. AList.update m (zero_budget m) bs) markets bs))"
  by (induction markets arbitrary: bs) (auto intro: distinct_update)

lemma length_fold_update: "length (fold (\<lambda>m bs. AList.update m (zero_budget m) bs) markets bs) \<le> length bs + length markets"
proof (induction markets arbitrary: bs)
  case (Cons m ms)
  have "length (AList.update m (zero_budget m) bs) \<le> length bs + 1" for bs :: "(string \<times> MarketBudget) list"
    by (induction bs) auto
  then show ?case using Cons [of "AList.update m (zero_budget m) bs"] by (auto intro: order.trans)
qed simp

lemma fold_modify_all:
  assumes "\<And>m b. map_of bs m = Some b \<Longrightarrow> P b" and "\<And>pos b. P b \<Longrightarrow> P (f pos b)"
    and "map_of (fold (\<lambda>pos bs. modify (g pos) (f pos) bs) ps bs) m = Some b"
  shows "P b"
  using assms(1,3)
proof (induction ps arbitrary: bs)
  case (Cons pos ps)
  have "\<And>m b. map_of (modify (g pos) (f pos) bs) m = Some b \<Longrightarrow> P b"
    using Cons.prems(1) assms(2) by (auto split: if_splits)
  then show ?case using Cons.IH [of "modify (g pos) (f pos) bs"] Cons.prems(2) by simp
qed simp

lemma length_fold_modify [simp]: "length (fold (\<lambda>pos bs. modify (g pos) (f pos) bs) ps bs) = length bs"
  by (induction ps arbitrary: bs) (auto simp: modify_def)

lemma zero_budget_nonneg [simp]: "budget_nonneg (zero_budget m)"
  by (simp add: budget_nonneg_def zero_budget_def)

lemma init_position_nonneg: "budget_nonneg b \<Longrightarrow> budget_nonneg (init_position cfg pos b)"
  by (simp add: budget_nonneg_def init_position_def Let_def)

lemma init_budgets_all:
  assumes "\<And>m. P (zero_budget m)" "\<And>pos b. P b \<Longrightarrow> P (init_position cfg pos b)"
    and "map_of (init_budgets cfg account markets) m = Some b"
  shows "P b"
  using assms(3) unfolding init_budgets_def
  by (rule fold_modify_all [rotated 2]) (auto simp: fold_update_zero assms split: if_splits)

lemma keys_fold_modify [simp]: "map fst (fold (\<lambda>x bs. modify (g x) (f x) bs) ps bs) = map fst bs"
  by (induction ps arbitrary: bs) auto

lemma init_budgets_keys:
  "set (map fst (init_budgets cfg account markets)) = set markets"
  "distinct (map fst (init_budgets cfg account markets))"
proof -
  let ?z = "fold (\<lambda>m bs. AList.update m (zero_budget m) bs) markets []"
  have k: "map fst (init_budgets cfg account markets) = map fst ?z" by (simp add: init_budgets_def)
  have "m \<in> set (map fst ?z) \<longleftrightarrow> m \<in> set markets" for m
    using fold_update_zero [of markets "[]" m] by (metis (no_types) map_of_eq_None_iff list.set_map option.distinct(1) map_of.simps(1))
  then show "set (map fst (init_budgets cfg account markets)) = set markets" unfolding k by blast
  show "distinct (map fst (init_budgets cfg account markets))" unfolding k by (rule distinct_fold_update) simp
qed

lemma markets_without_coin_le: "length markets \<le> 2 ^ 53 \<Longrightarrow> markets_without_coin (init_budgets cfg account markets) \<le> 2 ^ 53"
  using length_fold_update [of markets "[]"]
  by (auto simp: markets_without_coin_def init_budgets_def intro!: order.trans [OF length_filter_le])

lemma am_new_ok:
  assumes "fin (a_krw_free account)" "length markets \<le> 2 ^ 53" "am_new cfg account markets = Inr am"
  shows "am_ok am"
proof -
  define b2 where "b2 = init_budgets cfg account markets"
  define n where "n = markets_without_coin b2"
  have P: "budget_nonneg b" if "map_of b2 m = Some b" for m b
    using that unfolding b2_def by (rule init_budgets_all [rotated 2]) (auto simp: init_position_nonneg)
  have n: "n \<le> 2 ^ 53" unfolding n_def b2_def by (rule markets_without_coin_le [OF assms(2)])
  have per: "0 \<le> a_krw_free account / dnat n" if "\<not> a_krw_free account \<le> 0" "0 < n"
  proof -
    have "0 < dnat n" using that(2) n by (simp add: dnat_def)
    then show ?thesis using that(1) assms(1) n by (intro ddiv_nonneg) (auto simp: dnot_le dless_imp_le)
  qed
  have "am_budgets am = distribute_krw (a_krw_free account) b2"
    using assms(3) by (auto simp: am_new_def b2_def split: if_splits)
  then show ?thesis
    using P per by (auto simp: am_ok_def getBudget_def distribute_krw_def Let_def n_def [symmetric]
        map_of_map_snd budget_nonneg_def split: if_splits)
qed

section \<open>Rounding drift of a reservation\<close>

text \<open>
  The reservation is kept twice: as \<open>reserved_krw\<close> of the budget and as \<open>amount - consumed\<close> of the token. Every
  settlement rounds both. The difference grows by at most \<open>3 * amount / 2 ^ 53\<close> per fill, the clamps of the
  code never increase it.
\<close>

lemma clamp_drift:
  fixes r1 c1 A :: rat
  shows "\<bar>(if r1 < 0 then 0 else r1) - (A - (if A < c1 then A else c1))\<bar> \<le> \<bar>r1 - (A - c1)\<bar>"
  by (auto simp: abs_if)

lemma clamp_eq_val: "fin x \<Longrightarrow> val (if x < 0 then 0 else x) = (if val x < 0 then 0 else val x)"
  by (auto simp: fin_val_less)

lemma fill_drift:
  assumes "fin r" "fin c" "fin e" "fin A" "0 \<le> val r" "val r \<le> val A" "0 \<le> val c" "val c \<le> val A"
    "0 \<le> val e" "val e \<le> val A" "val A \<le> 2 ^ 100"
  defines "r' \<equiv> (if r - e < 0 then 0 else r - e)" and "c' \<equiv> (if A < c + e then A else c + e)"
  shows "fin r' \<and> 0 \<le> val r' \<and> val r' \<le> val A \<and>
    \<bar>val r' - (val A - val c')\<bar> \<le> \<bar>val r - (val A - val c)\<bar> + 3 * val A / 2 ^ 53"
proof -
  note B = fin_D_big
  have fr: "fin (r - e)" using assms by (auto simp: fin_diff intro!: B)
  have fc: "fin (c + e)" using assms by (auto simp: fin_add intro!: B)
  have er: "\<bar>val (r - e) - (val r - val e)\<bar> \<le> val A / 2 ^ 53"
    using ddiff_error [of r e] assms fr by (auto intro!: order.trans [OF _ divide_right_mono [of "\<bar>val r - val e\<bar>"]])
  have ec: "\<bar>val (c + e) - (val c + val e)\<bar> \<le> 2 * val A / 2 ^ 53"
    using dadd_error [of c e] assms fc by (auto intro!: order.trans [OF _ divide_right_mono [of "\<bar>val c + val e\<bar>"]])
  have le: "val (r - e) \<le> val A"
  proof -
    have "r - e \<le> r" using assms by (intro ddiff_le) (auto simp: fin_val_le)
    then show ?thesis using assms fr by (simp add: fin_val_le)
  qed
  have vr: "val r' = (if val (r - e) < 0 then 0 else val (r - e))" unfolding r'_def using fr by (rule clamp_eq_val)
  have vc: "val c' = (if val A < val (c + e) then val A else val (c + e))"
    unfolding c'_def using fc assms by (auto simp: fin_val_less)
  have "\<bar>val (r - e) - (val A - val (c + e))\<bar> \<le> \<bar>val r - (val A - val c)\<bar> + 3 * val A / 2 ^ 53"
    using er ec unfolding abs_le_iff by auto
  then have "\<bar>val r' - (val A - val c')\<bar> \<le> \<bar>val r - (val A - val c)\<bar> + 3 * val A / 2 ^ 53"
    unfolding vr vc using clamp_drift [of "val (r - e)" "val A" "val (c + e)"] by linarith
  moreover have "fin r'" using fr by (simp add: r'_def)
  moreover have "0 \<le> val r'" unfolding vr by simp
  moreover have "val r' \<le> val A" unfolding vr using le assms(5,6) by simp
  ultimately show ?thesis by blast
qed

definition reservation_inv :: "string \<Rightarrow> Amount \<Rightarrow> nat \<Rightarrow> ReservationToken \<Rightarrow> AccountManager \<Rightarrow> bool" where
  "reservation_inv m A k t am \<longleftrightarrow> tok_market t = m \<and> tok_active t \<and> tok_ok t \<and> tok_amount t = A \<and>
     (\<exists>b. getBudget am m = Some b \<and> fin (mb_reserved_krw b) \<and> 0 \<le> val (mb_reserved_krw b) \<and>
        val (mb_reserved_krw b) \<le> val A \<and>
        \<bar>val (mb_reserved_krw b) - (val A - val (tok_consumed t))\<bar> \<le> 3 * of_nat k * val A / 2 ^ 53)"

lemma reservation_inv_fill:
  assumes inv: "reservation_inv m A k t am" and x: "fin x" and A: "val A \<le> 2 ^ 100"
  shows "reservation_inv m A (k + 1) (fst (finalizeFillBuy t x c p am)) (snd (finalizeFillBuy t x c p am))"
proof -
  from inv obtain b where t: "tok_market t = m" "tok_active t" "tok_ok t" "tok_amount t = A"
    and b: "getBudget am m = Some b" "fin (mb_reserved_krw b)" "0 \<le> val (mb_reserved_krw b)" "val (mb_reserved_krw b) \<le> val A"
    and d: "\<bar>val (mb_reserved_krw b) - (val A - val (tok_consumed t))\<bar> \<le> 3 * of_nat k * val A / 2 ^ 53"
    by (auto simp: reservation_inv_def)
  have A0: "fin A" "0 \<le> val A" using t b by (auto simp: tok_ok_def)
  have d1: "3 * of_nat k * val A / 2 ^ 53 + 3 * val A / 2 ^ 53 = 3 * of_nat (k + 1) * val A / 2 ^ 53"
    by (simp add: field_simps)
  show ?thesis
  proof (cases "fill_amount t x c p")
    case None
    have "3 * of_nat k * val A / 2 ^ 53 \<le> 3 * of_nat (k + 1) * val A / 2 ^ 53" unfolding d1 [symmetric] using A0 by simp
    then have "\<bar>val (mb_reserved_krw b) - (val A - val (tok_consumed t))\<bar> \<le> 3 * of_nat (k + 1) * val A / 2 ^ 53"
      using d by linarith
    then show ?thesis using None t b unfolding finalizeFillBuy_eq reservation_inv_def by auto
  next
    case (Some e)
    have e: "fin e" "0 < e" "e \<le> token_remaining t" using fill_amount_fin [OF t(3) x Some] by auto
    have ve: "0 \<le> val e" "val e \<le> val A"
      using e tok_ok_remaining [OF t(3)] t(4) dle_trans [of e "token_remaining t" A] A0 dless_imp_le [OF e(2)]
      by (auto simp: fin_val_le)
    have vc: "0 \<le> val (tok_consumed t)" "val (tok_consumed t) \<le> val A" "fin (tok_consumed t)"
      using t(3,4) by (auto simp: tok_ok_def fin_val_le)
    have ok: "tok_ok (addConsumed e t)" using t(3) e by (intro tok_ok_addConsumed) (auto dest: dless_imp_le)
    define r' where "r' = (if mb_reserved_krw b - e < 0 then 0 else mb_reserved_krw b - e)"
    define c' where "c' = (if A < tok_consumed t + e then A else tok_consumed t + e)"
    have fd: "fin r' \<and> 0 \<le> val r' \<and> val r' \<le> val A \<and> \<bar>val r' - (val A - val c')\<bar>
        \<le> \<bar>val (mb_reserved_krw b) - (val A - val (tok_consumed t))\<bar> + 3 * val A / 2 ^ 53"
      unfolding r'_def c'_def using b vc e ve A0 A by (intro fill_drift) auto
    then have dd: "\<bar>val r' - (val A - val c')\<bar> \<le> 3 * of_nat (k + 1) * val A / 2 ^ 53"
      using d unfolding d1 [symmetric] by linarith
    have tc: "tok_consumed (addConsumed e t) = c'" "tok_amount (addConsumed e t) = A"
      "tok_market (addConsumed e t) = m" "tok_active (addConsumed e t)"
      using t by (simp_all add: addConsumed_def c'_def Let_def)
    have "mb_reserved_krw (buy_budget e c p b) = r'" by (simp add: buy_budget_def r'_def Let_def)
    then show ?thesis using Some t(1) b(1) fd dd tc ok unfolding finalizeFillBuy_eq reservation_inv_def by simp
  qed
qed

lemma reservation_inv_fills:
  assumes "reservation_inv m A k t am" "\<forall>(x, c, p) \<in> set fills. fin x" "val A \<le> 2 ^ 100"
  shows "reservation_inv m A (k + length fills)
    (fst (fold (\<lambda>(x, c, p) (t, am). finalizeFillBuy t x c p am) fills (t, am)))
    (snd (fold (\<lambda>(x, c, p) (t, am). finalizeFillBuy t x c p am) fills (t, am)))"
  using assms(1,2)
proof (induction fills arbitrary: k t am)
  case (Cons f fills)
  obtain x c p where f: "f = (x, c, p)" by (cases f)
  obtain t1 am1 where e: "finalizeFillBuy t x c p am = (t1, am1)" by fastforce
  have "reservation_inv m A (k + 1) t1 am1"
    using reservation_inv_fill [OF Cons.prems(1) _ assms(3), of x c p] Cons.prems(2) f e by auto
  then show ?case using Cons.IH [of "k + 1" t1 am1] Cons.prems(2) f e by simp
qed simp

lemma reservation_inv_start:
  assumes "getBudget am m = Some b" "mb_reserved_krw b = 0" "fin A" "reserve m A am = (Some t, am')"
  shows "reservation_inv m A 0 t am'"
proof -
  have t: "t = token_new m A (am_next_token_id am)" using reserve_token [of m A am t] assms(4) by simp
  have A: "\<not> A \<le> 0" using reserve_succeeds [of m A am] assms(1,4) by auto
  have "getBudget am' m = Some (b \<lparr> mb_available_krw := mb_available_krw b - A, mb_reserved_krw := mb_reserved_krw b + A \<rparr>)"
    using getBudget_reserve [of m A am m] assms(1,4) by simp
  moreover have "0 \<le> val A" using A assms(3) by (auto simp: fin_val_le)
  ultimately show ?thesis using assms(2,3) t A tok_ok_new [of A m]
    by (auto simp: reservation_inv_def token_new_def)
qed

lemma finish_drift:
  assumes "fin r" "fin c" "fin A" "0 \<le> val r" "val r \<le> val A" "0 \<le> val c" "val c \<le> val A" "val A \<le> 2 ^ 100"
    and d: "\<bar>val r - (val A - val c)\<bar> \<le> d"
  shows "let rem = A - c; r2 = (if 0 < rem then (if r - rem < 0 then 0 else r - rem) else r) in
    fin r2 \<and> 0 \<le> val r2 \<and> val r2 \<le> d + 2 * val A / 2 ^ 53"
proof -
  note B = fin_D_big
  define rem where "rem = A - c"
  have f: "fin rem" unfolding rem_def using assms by (auto simp: fin_diff intro!: B)
  have er: "\<bar>val rem - (val A - val c)\<bar> \<le> \<bar>val A - val c\<bar> / 2 ^ 53"
    unfolding rem_def using ddiff_error [of A c] assms f by (simp add: rem_def)
  have le: "val rem \<le> val A" "0 \<le> val rem"
  proof -
    have "rem \<le> A" unfolding rem_def using assms by (intro ddiff_le) (auto simp: fin_val_le)
    then show "val rem \<le> val A" using assms f by (simp add: fin_val_le)
    have "0 \<le> rem" unfolding rem_def using assms by (intro ddiff_nonneg) (auto simp: fin_val_le)
    then show "0 \<le> val rem" using f by (simp add: fin_val_le)
  qed
  show ?thesis
  proof (cases "0 < rem")
    case True
    have fr: "fin (r - rem)" using assms le f by (auto simp: fin_diff intro!: B)
    have e2: "\<bar>val (r - rem) - (val r - val rem)\<bar> \<le> val A / 2 ^ 53"
      using ddiff_error [of r rem] assms fr f le by (auto intro!: order.trans [OF _ divide_right_mono [of "\<bar>val r - val rem\<bar>"]])
    have e1: "\<bar>val rem - (val A - val c)\<bar> \<le> val A / 2 ^ 53"
      using er assms by (auto intro!: order.trans [OF _ divide_right_mono [of "\<bar>val A - val c\<bar>"]])
    have "\<bar>val (r - rem)\<bar> \<le> d + 2 * val A / 2 ^ 53" using e1 e2 d unfolding abs_le_iff by auto
    then show ?thesis using True fr unfolding Let_def rem_def [symmetric] by (auto simp: fin_val_less)
  next
    case False
    then have "val rem = 0" using f le by (simp add: fin_val_less)
    then have "\<bar>val A - val c\<bar> \<le> \<bar>val A - val c\<bar> / 2 ^ 53" using er by (simp only: diff_0 abs_minus_cancel)
    moreover define z where "z = \<bar>val A - val c\<bar>"
    ultimately have "z \<le> z / 2 ^ 53" "0 \<le> z" by auto
    then have "z = 0" by (simp add: field_simps)
    then have "val r \<le> d" using d unfolding z_def by linarith
    moreover have "0 \<le> 2 * val A / 2 ^ 53" using assms by simp
    ultimately have "val r \<le> d + 2 * val A / 2 ^ 53" by linarith
    then show ?thesis using False assms unfolding Let_def rem_def [symmetric] by simp
  qed
qed

lemma finish_clears:
  assumes inv: "reservation_inv m A k t am" and A: "val A \<le> 2 ^ 40" and k: "k \<le> 2048"
    and dust: "fin (krw_dust_threshold cfg)" "1 \<le> krw_dust_threshold cfg"
  shows "\<exists>b. getBudget (snd (finalizeOrder cfg t am)) m = Some b \<and> mb_reserved_krw b = 0"
proof -
  from inv obtain b where t: "tok_market t = m" "tok_active t" "tok_ok t" "tok_amount t = A"
    and b: "getBudget am m = Some b" "fin (mb_reserved_krw b)" "0 \<le> val (mb_reserved_krw b)" "val (mb_reserved_krw b) \<le> val A"
    and d: "\<bar>val (mb_reserved_krw b) - (val A - val (tok_consumed t))\<bar> \<le> 3 * of_nat k * val A / 2 ^ 53"
    by (auto simp: reservation_inv_def)
  have tc: "fin A" "0 \<le> val (tok_consumed t)" "val (tok_consumed t) \<le> val A" "fin (tok_consumed t)"
    using t(3,4) by (auto simp: tok_ok_def fin_val_le)
  have A100: "val A \<le> 2 ^ 100" using A by (rule order.trans) simp
  define r2 where "r2 = (if 0 < A - tok_consumed t
      then (if mb_reserved_krw b - (A - tok_consumed t) < 0 then 0 else mb_reserved_krw b - (A - tok_consumed t))
      else mb_reserved_krw b)"
  have r2: "fin r2" "0 \<le> val r2" "val r2 \<le> 3 * of_nat k * val A / 2 ^ 53 + 2 * val A / 2 ^ 53"
    using finish_drift [OF b(2) tc(4) tc(1) b(3,4) tc(2,3) A100 d] unfolding Let_def r2_def by auto
  have "(3 * of_nat k + 2) * val A \<le> (3 * 2048 + 2) * (2::rat) ^ 40"
  proof (rule mult_mono [OF _ A])
    have "(of_nat k :: rat) \<le> 2048" using k by (metis of_nat_le_iff of_nat_numeral)
    then show "3 * of_nat k + 2 \<le> 3 * 2048 + (2::rat)" by linarith
  qed (use b in auto)
  then have "(3 * of_nat k + 2) * val A / 2 ^ 53 < 1" by (simp add: divide_less_eq)
  moreover have "3 * of_nat k * val A / 2 ^ 53 + 2 * val A / 2 ^ 53 = (3 * of_nat k + 2) * val A / 2 ^ 53"
    by (simp add: algebra_simps add_divide_distrib)
  ultimately have "val r2 < 1" using r2(3) by linarith
  then have "r2 < 1" using r2(1) by (simp add: fin_val_less)
  then have lt: "r2 < krw_dust_threshold cfg" using dust(2) by (rule dless_le_trans)
  have "mb_reserved_krw (finish_budget cfg (token_remaining t) b) = 0"
    using lt r2(1,2) t(4) unfolding finish_budget_def token_remaining_def release_budget_def Let_def
    by (auto simp: r2_def fin_val_less val_0_iff split: if_splits)
  then show ?thesis using t b(1) by (auto simp: getBudget_finalizeOrder)
qed

section \<open>The rebuild keeps the invariant\<close>

lemma rebuild_position_nonneg: "budget_nonneg b \<Longrightarrow> budget_nonneg (rebuild_position cfg pos b)"
  by (simp add: budget_nonneg_def rebuild_position_def Let_def)

lemma rebuild_budgets_nonneg:
  assumes "\<And>m b. map_of bs m = Some b \<Longrightarrow> budget_nonneg b" "map_of (rebuild_budgets cfg account bs) m = Some b"
  shows "budget_nonneg b"
  using assms(2) unfolding rebuild_budgets_def
  by (rule fold_modify_all [rotated 2])
    (use assms(1) in \<open>auto simp: map_of_map_snd rebuild_position_nonneg\<close>, auto simp: budget_nonneg_def)

lemma rebuild_budgets_length [simp]: "length (rebuild_budgets cfg account bs) = length bs"
  by (simp add: rebuild_budgets_def)

lemma share_nonneg:
  assumes "fin x" "0 \<le> x" "0 < n" "n \<le> 2 ^ 53"
  shows "0 \<le> x / dnat n"
proof -
  have "0 < dnat n" using assms(3,4) by (simp add: dnat_def)
  then show ?thesis using assms by (intro ddiv_nonneg) auto
qed

lemma length_am_change [simp]: "length (am_budgets (am_change m f am)) = length (am_budgets am)"
  and length_am_count [simp]: "am_budgets (am_count g am) = am_budgets am"
  by (simp_all add: am_change_def am_count_def modify_def)

lemma length_releaseWithoutToken [simp]: "length (am_budgets (releaseWithoutToken m r am)) = length (am_budgets am)"
  by (simp add: releaseWithoutToken_def releaseInternal_def)

lemma length_step: "length (am_budgets (am_step cfg op am)) = length (am_budgets am)"
proof (cases op)
  case (ReserveOp m k)
  then show ?thesis by (simp add: reserve_def Let_def split: option.split)
next
  case (FillBuyOp t x c p)
  then show ?thesis by (simp add: finalizeFillBuy_eq split: option.split)
next
  case (FillSellOp m v k)
  then show ?thesis by (simp add: finalizeFillSell_def split: option.split)
next
  case (FinishOp t)
  then show ?thesis by (simp add: finalizeOrder_def split: option.split)
qed (simp_all add: release_def token_destroy_def finalizeSellOrder_def)

lemma length_budgets [simp]: "length (am_budgets (am_exec cfg call am)) = length (am_budgets am)"
  by (cases call) (simp_all add: length_step rebuildFromAccount_def Let_def)

lemma rebuild_ok:
  assumes "am_ok am" "fin (a_krw_free account)" "0 \<le> a_krw_free account" "length (am_budgets am) \<le> 2 ^ 53"
  shows "am_ok (rebuildFromAccount cfg account am)"
proof -
  define bs where "bs = rebuild_budgets cfg account (am_budgets am)"
  define flat where "flat = flat_markets cfg bs"
  have P: "budget_nonneg b" if "map_of bs m = Some b" for m b
  proof (rule rebuild_budgets_nonneg)
    show "\<And>k x. map_of (am_budgets am) k = Some x \<Longrightarrow> budget_nonneg x" using assms(1) by (auto simp: am_ok_def getBudget_def)
    show "map_of (rebuild_budgets cfg account (am_budgets am)) m = Some b" using that by (simp add: bs_def)
  qed
  have "length flat \<le> length (am_budgets am)"
    using length_filter_le [of "\<lambda>(_, b). mb_coin_balance b < coin_epsilon cfg" bs] by (simp add: flat_def flat_markets_def bs_def)
  then have share: "flat \<noteq> [] \<Longrightarrow> 0 \<le> a_krw_free account / dnat (length flat)"
    using assms(4) by (intro share_nonneg [OF assms(2,3)]) auto
  have "budget_nonneg b" if b: "map_of (am_budgets (rebuildFromAccount cfg account am)) m = Some b" for m b
  proof (cases "flat = []")
    case True
    then show ?thesis using b P by (simp add: rebuildFromAccount_def bs_def [symmetric] flat_def [symmetric])
  next
    case False
    have "map_of (fold (\<lambda>m bs. modify m (\<lambda>b. b \<lparr> mb_available_krw := a_krw_free account / dnat (length flat), mb_reserved_krw := 0 \<rparr>) bs)
        flat bs) m = Some b"
      using b False by (simp add: rebuildFromAccount_def bs_def [symmetric] flat_def [symmetric] Let_def)
    then show ?thesis
      by (rule fold_modify_all [rotated 2]) (use P share [OF False] in \<open>auto simp: budget_nonneg_def\<close>)
  qed
  then show ?thesis by (auto simp: am_ok_def getBudget_def)
qed

text \<open>What the rebuild needs of the account: a balance that is a number and no debt.\<close>

fun call_valid :: "am_call \<Rightarrow> bool" where
  "call_valid (MarketCall op) = op_valid op"
| "call_valid (RebuildCall account) = (fin (a_krw_free account) \<and> 0 \<le> a_krw_free account)"

lemma am_run_ok:
  "am_ok am \<Longrightarrow> length (am_budgets am) \<le> 2 ^ 53 \<Longrightarrow> \<forall>call \<in> set calls. call_valid call \<Longrightarrow> am_ok (fold (am_exec cfg) calls am)"
proof (induction calls arbitrary: am)
  case (Cons call calls)
  have "am_ok (am_exec cfg call am)"
    using Cons.prems am_step_ok rebuild_ok by (cases call) auto
  then show ?case using Cons by simp
qed simp

lemma am_new_length: "am_new cfg account markets = Inr am \<Longrightarrow> length (am_budgets am) \<le> length markets"
  using length_fold_update [of markets "[]"]
  by (auto simp: am_new_def distribute_krw_def init_budgets_def Let_def split: if_splits)

section \<open>Properties\<close>

text \<open>
  C7: No sequence of calls drives the free or the reserved KRW of a market below zero: reservations, releases, settlements and terminal
  operations of any number of threads and rebuilds from the account of the exchange, in any order, as long as the amounts
  are finite, the tokens are tokens (between 0 and their amount consumed) and no account given to a rebuild is in debt. It starts from the
  budgets the constructor builds, from an account in any state. The condition on the rebuild is needed: the constructor gives out
  nothing when the balance is not positive, the rebuild has no such guard and hands a debt to the markets as negative free KRW.
\<close>

theorem krw_never_negative:
  assumes "fin (a_krw_free account)" "length markets \<le> 2 ^ 53" "am_new cfg account markets = Inr am"
    and "\<forall>call \<in> set calls. call_valid call"
    and "getBudget (fold (am_exec cfg) calls am) m = Some b"
  shows "0 \<le> mb_available_krw b \<and> 0 \<le> mb_reserved_krw b"
  using am_run_ok [OF am_new_ok [OF assms(1-3)] _ assms(4), of cfg] am_new_length [OF assms(3)] assms(2,5)
  by (auto simp: am_ok_def budget_nonneg_def)

definition example_account :: Account where
  "example_account = \<lparr> a_id = ''inguk'', a_krw_free = D 100000, a_krw_locked = 0,
     a_positions = [\<lparr> p_currency = ''ETH'', p_free = D 2, p_avg_buy_price = D 4000, p_unit_currency = ''KRW'' \<rparr>],
     a_totalAssetValue = 0 \<rparr>"

definition example_am :: AccountManager where
  "example_am = (case am_new default_config example_account [''KRW-BTC'', ''KRW-ETH''] of Inr am \<Rightarrow> am)"

lemma example_am_eq:
  "am_new default_config example_account [''KRW-BTC'', ''KRW-ETH''] = Inr example_am"
  by (simp add: example_am_def am_new_def)

lemma example_am_budgets:
  "am_budgets example_am =
     [(''KRW-BTC'', (zero_budget ''KRW-BTC'') \<lparr> mb_available_krw := D 100000, mb_initial_capital := D 100000 \<rparr>),
      (''KRW-ETH'', (zero_budget ''KRW-ETH'') \<lparr> mb_coin_balance := D 2, mb_avg_entry_price := D 4000, mb_initial_capital := D 8000 \<rparr>)]"
  by (simp add: example_am_def am_new_def example_account_def distribute_krw_def init_budgets_def
      markets_without_coin_def init_position_def zero_budget_def modify_def default_config_def Let_def)

lemma example_reserve: "fst (reserve ''KRW-BTC'' (D 30000) example_am) \<noteq> None"
  by (subst reserve_succeeds) (simp add: getBudget_def example_am_budgets zero_budget_def)

text \<open>
  Markets do not share capital. In any interleaving of the operations of all market threads, the budget
  of a market is what its own operations, in their order, would have produced alone; and whether a
  reservation succeeds depends on that budget only.
\<close>

theorem markets_are_isolated:
  "getBudget (fold (am_step cfg) ops am) m =
     getBudget (fold (am_step cfg) (filter (\<lambda>op. am_owner op = m) ops) am) m
   \<and> (fst (reserve m k (fold (am_step cfg) ops am)) = None \<longleftrightarrow>
      fst (reserve m k (fold (am_step cfg) (filter (\<lambda>op. am_owner op = m) ops) am)) = None)"
  using amops.interleaving [of cfg ops am m] reserve_fst_cong by blast

text \<open>
  The constructor distributes the capital: every configured market gets a budget and no other does; a
  market holding a coin worth at least the dust threshold starts fully invested (no KRW); and
  when there is KRW to distribute, every market whose coin balance is 0 gets exactly the same share, the free KRW
  divided by the number of those markets, as its free KRW and its initial capital.
\<close>

theorem capital_distribution:
  assumes "am_new cfg account markets = Inr am" "fin (a_krw_free account)" "0 < a_krw_free account"
    and "getBudget am m = Some b"
  shows "m \<in> set markets \<and> mb_reserved_krw b = 0 \<and>
     (if deq (mb_coin_balance b) 0
      then mb_available_krw b = a_krw_free account / dnat (markets_without_coin (am_budgets am))
         \<and> mb_initial_capital b = mb_available_krw b
      else mb_available_krw b = 0)"
proof -
  define b2 where "b2 = init_budgets cfg account markets"
  have bs: "am_budgets am = distribute_krw (a_krw_free account) b2"
    using assms(1) by (auto simp: am_new_def b2_def split: if_splits)
  have P: "mb_reserved_krw x = 0 \<and> mb_available_krw x = 0" if "map_of b2 m = Some x" for x
    using that unfolding b2_def
    by (rule init_budgets_all [rotated 2]) (auto simp: zero_budget_def init_position_def Let_def)
  have keep: "markets_without_coin (map (\<lambda>(k, b). (k, if deq (mb_coin_balance b) 0
      then b \<lparr> mb_available_krw := q, mb_initial_capital := q \<rparr> else b)) xs) = markets_without_coin xs" for q xs
  proof (induction xs)
    case (Cons x xs)
    then show ?case by (cases x; cases "deq (mb_coin_balance (snd x)) 0") (simp_all add: markets_without_coin_def)
  qed (simp add: markets_without_coin_def)
  have pos: "\<not> a_krw_free account \<le> 0" using dless_not_le [OF assms(3)] .
  have m: "map_of (distribute_krw (a_krw_free account) b2) m = Some b" using assms(4) by (simp add: getBudget_def bs)
  then have "m \<in> set (map fst b2)"
    by (auto simp: distribute_krw_def Let_def map_of_map_snd split: if_splits dest: map_of_SomeD intro: rev_image_eqI)
  then have mm: "m \<in> set markets" using init_budgets_keys(1) by (simp only: b2_def)
  have empty: "markets_without_coin b2 \<noteq> 0" if "map_of b2 m = Some x" "deq (mb_coin_balance x) 0" for x
    using map_of_SomeD [OF that(1)] that(2) by (auto simp: markets_without_coin_def filter_empty_conv)
  obtain x where x: "map_of b2 m = Some x"
    "b = (if deq (mb_coin_balance x) 0
      then x \<lparr> mb_available_krw := a_krw_free account / dnat (markets_without_coin b2),
               mb_initial_capital := a_krw_free account / dnat (markets_without_coin b2) \<rparr> else x)"
  proof -
    define g where "g = (\<lambda>x :: MarketBudget. if deq (mb_coin_balance x) 0
      then x \<lparr> mb_available_krw := a_krw_free account / dnat (markets_without_coin b2),
               mb_initial_capital := a_krw_free account / dnat (markets_without_coin b2) \<rparr> else x)"
    have "map_of (distribute_krw (a_krw_free account) b2) m = map_option g (map_of b2 m)"
    proof (cases "0 < markets_without_coin b2")
      case True
      then show ?thesis using pos by (simp add: distribute_krw_def Let_def map_of_map_snd g_def)
    next
      case False
      then show ?thesis using pos empty by (cases "map_of b2 m") (auto simp: distribute_krw_def g_def)
    qed
    with m obtain x where "map_of b2 m = Some x" "b = g x" by (cases "map_of b2 m") auto
    then show ?thesis by (intro that) (simp_all only: g_def)
  qed
  moreover have "markets_without_coin (am_budgets am) = markets_without_coin b2"
    unfolding bs by (simp add: distribute_krw_def Let_def keep)
  ultimately show ?thesis using P [OF x(1)] x(2) mm by auto
qed

theorem capital_distribution_witness:
  "(case getBudget example_am ''KRW-BTC'' of
      Some b \<Rightarrow> mb_available_krw b = D 100000 \<and> mb_initial_capital b = mb_available_krw b
    | None \<Rightarrow> False)"
proof -
  have "getBudget example_am ''KRW-BTC''
     = Some ((zero_budget ''KRW-BTC'') \<lparr> mb_available_krw := D 100000, mb_initial_capital := D 100000 \<rparr>)"
    by (simp add: getBudget_def example_am_budgets)
  moreover from capital_distribution [OF example_am_eq _ _ this] show ?thesis
    using calculation by (simp add: example_account_def zero_budget_def example_am_budgets markets_without_coin_def)
qed

text \<open>
  C9: A finished buy order leaves no KRW behind. Start from a market with nothing reserved, reserve up to \<open>2 ^ 40\<close>
  KRW, settle up to 2048 partial fills in any amounts (also more than what was reserved, or nonsense
  prices and volumes), and finish the order: the reservation of the market is exactly 0
  again, in double arithmetic, because the rounding drift between the budget and the token
  stays below the dust threshold that \<open>finalizeOrder\<close> sweeps.
\<close>

theorem order_leaves_no_reservation:
  assumes "getBudget am m = Some b" "mb_reserved_krw b = 0"
    and "fin A" "val A \<le> 2 ^ 40" "reserve m A am = (Some t, am1)"
    and "length fills \<le> 2048" "\<forall>(x, c, p) \<in> set fills. fin x"
    and "fold (\<lambda>(x, c, p) (t, am). finalizeFillBuy t x c p am) fills (t, am1) = (t2, am2)"
    and "fin (krw_dust_threshold cfg)" "1 \<le> krw_dust_threshold cfg"
  shows "\<exists>b'. getBudget (snd (finalizeOrder cfg t2 am2)) m = Some b' \<and> mb_reserved_krw b' = 0"
proof -
  have "reservation_inv m A 0 t am1" by (rule reservation_inv_start [OF assms(1-3,5)])
  moreover have "val A \<le> 2 ^ 100" using assms(4) by (rule order.trans) simp
  ultimately have "reservation_inv m A (length fills) t2 am2"
    using reservation_inv_fills [of m A 0 t am1 fills] assms(7,8) by simp
  then show ?thesis using assms(4,6,9,10) by (rule finish_clears)
qed

theorem order_leaves_no_reservation_witness:
  "\<exists>t am1 t2 am2 b'. reserve ''KRW-BTC'' (D 30000) example_am = (Some t, am1)
     \<and> finalizeFillBuy t (D 10000) (D 2) (D 5000) am1 = (t2, am2)
     \<and> getBudget (snd (finalizeOrder default_config t2 am2)) ''KRW-BTC'' = Some b' \<and> mb_reserved_krw b' = 0"
proof -
  have b: "getBudget example_am ''KRW-BTC''
     = Some ((zero_budget ''KRW-BTC'') \<lparr> mb_available_krw := D 100000, mb_initial_capital := D 100000 \<rparr>)"
    by (simp add: getBudget_def example_am_budgets)
  then obtain t am1 where r: "reserve ''KRW-BTC'' (D 30000) example_am = (Some t, am1)"
    using example_reserve by (cases "reserve ''KRW-BTC'' (D 30000) example_am") auto
  obtain t2 am2 where f: "finalizeFillBuy t (D 10000) (D 2) (D 5000) am1 = (t2, am2)" by fastforce
  show ?thesis
    using order_leaves_no_reservation [OF b _ _ _ r, of "[(D 10000, D 2, D 5000)]" t2 am2 default_config] r f
    by (auto simp: zero_budget_def default_config_def)
qed

section \<open>Rebuilding\<close>

lemma fold_modify_same:
  assumes "\<And>x. f (f x) = f x"
  shows "map_of (fold (\<lambda>m bs. modify m f bs) ms bs) k = (if k \<in> set ms then map_option f (map_of bs k) else map_of bs k)"
proof (induction ms arbitrary: bs)
  case (Cons m ms)
  show ?case using Cons [of "modify m f bs"] by (cases "map_of bs k") (auto simp: assms)
qed simp

lemma rebuild_budgets_all:
  assumes "map_of (rebuild_budgets cfg account bs) m = Some b"
  shows "mb_coin_balance b = 0 \<or> (mb_available_krw b = 0 \<and> mb_reserved_krw b = 0)"
  using assms unfolding rebuild_budgets_def
  by (rule fold_modify_all [rotated 2]) (auto simp: map_of_map_snd rebuild_position_def Let_def)

lemma rebuild_keys: "map fst (rebuild_budgets cfg account bs) = map fst bs"
  by (auto simp: rebuild_budgets_def)

text \<open>
  The startup rebuild leaves no stale reservation and distributes the account's free KRW: afterwards every market
  has nothing reserved; a market whose coin balance is below the smallest unit gets the free KRW divided
  by the number of such markets, every other market gets none (it is fully invested).
\<close>

theorem rebuild_distribution:
  assumes "distinct (map fst (am_budgets am))" "0 < coin_epsilon cfg" "fin (coin_epsilon cfg)"
    and "getBudget (rebuildFromAccount cfg account am) m = Some b"
  shows "mb_reserved_krw b = 0 \<and>
     mb_available_krw b =
       (if mb_coin_balance b < coin_epsilon cfg
        then a_krw_free account / dnat (length (flat_markets cfg (rebuild_budgets cfg account (am_budgets am))))
        else 0)"
proof -
  define bs where "bs = rebuild_budgets cfg account (am_budgets am)"
  define flat where "flat = flat_markets cfg bs"
  define f where "f = (\<lambda>b :: MarketBudget. b \<lparr> mb_available_krw := a_krw_free account / dnat (length flat), mb_reserved_krw := 0 \<rparr>)"
  have dist: "distinct (map fst bs)" using assms(1) by (simp add: bs_def rebuild_keys)
  have fl: "k \<in> set flat \<longleftrightarrow> mb_coin_balance x < coin_epsilon cfg" if "map_of bs k = Some x" for k x
  proof
    assume "k \<in> set flat"
    then obtain y where y: "(k, y) \<in> set bs" "mb_coin_balance y < coin_epsilon cfg"
      by (auto simp: flat_def flat_markets_def)
    then have "map_of bs k = Some y" using dist by (simp add: map_of_is_SomeI)
    then show "mb_coin_balance x < coin_epsilon cfg" using y that by simp
  next
    assume "mb_coin_balance x < coin_epsilon cfg"
    then show "k \<in> set flat" using map_of_SomeD [OF that]
      by (auto simp: flat_def flat_markets_def intro!: rev_image_eqI)
  qed
  have "map_of (am_budgets (rebuildFromAccount cfg account am)) m = (if m \<in> set flat then map_option f (map_of bs m) else map_of bs m)"
    using fold_modify_same [of f flat bs m]
    by (auto simp: rebuildFromAccount_def Let_def bs_def [symmetric] flat_def [symmetric] f_def)
  then obtain x where x: "map_of bs m = Some x" "b = (if m \<in> set flat then f x else x)"
    using assms(4) by (auto simp: getBudget_def split: if_splits)
  have nz: "\<not> mb_coin_balance x < coin_epsilon cfg \<Longrightarrow> mb_coin_balance x \<noteq> 0" using assms(2) by auto
  show ?thesis using x fl [OF x(1)] rebuild_budgets_all [of cfg account "am_budgets am" m x] nz
    by (auto simp: f_def flat_def bs_def [symmetric])
qed

definition example_richer :: Account where
  "example_richer = example_account \<lparr> a_krw_free := D 6000 \<rparr>"

lemma example_rebuild:
  "getBudget (rebuildFromAccount default_config example_richer example_am) ''KRW-BTC''
     = Some ((zero_budget ''KRW-BTC'') \<lparr> mb_available_krw := D 6000, mb_initial_capital := D 100000 \<rparr>)"
proof -
  have eps: "0 < D (1 / 100000000)" "D (1 / 100000000) < D 2"
    using D_pos [of "1 / 100000000"] D_mono [of "1 / 100000000" 1] dle_less_trans [of _ 1 "D 2"] by auto
  have n2: "\<not> D 2 < D (1 / 100000000)" using eps(2) dless_imp_le dle_not_less by blast
  show ?thesis
    using eps n2
    by (simp add: getBudget_def rebuildFromAccount_def rebuild_budgets_def flat_markets_def rebuild_position_def example_richer_def
        example_am_budgets zero_budget_def example_account_def default_config_def modify_def Let_def)
qed

theorem rebuild_distribution_witness:
  "mb_reserved_krw ((zero_budget ''KRW-BTC'') \<lparr> mb_available_krw := D 6000, mb_initial_capital := D 100000 \<rparr>) = 0
   \<and> getBudget (rebuildFromAccount default_config example_richer example_am) ''KRW-BTC'' \<noteq> None"
proof -
  have eps: "0 < D (1 / 100000000)" "fin (D (1 / 100000000))"
    using D_pos [of "1 / 100000000"] fin_lit [of "1 / 100000000"] by auto
  then have "mb_reserved_krw ((zero_budget ''KRW-BTC'') \<lparr> mb_available_krw := D 6000, mb_initial_capital := D 100000 \<rparr>) = 0"
    using rebuild_distribution [OF _ _ _ example_rebuild] by (simp add: example_am_budgets default_config_def)
  then show ?thesis by (simp add: example_rebuild)
qed

theorem krw_never_negative_witness:
  "getBudget (fold (am_exec default_config) [RebuildCall example_richer, MarketCall (ReserveOp ''KRW-BTC'' (D 1000))] example_am) ''KRW-BTC''
     = Some ((zero_budget ''KRW-BTC'') \<lparr> mb_available_krw := D 5000, mb_reserved_krw := D 1000, mb_initial_capital := D 100000 \<rparr>)
   \<and> 0 \<le> D 5000"
proof -
  let ?am = "rebuildFromAccount default_config example_richer example_am"
  have "fst (reserve ''KRW-BTC'' (D 1000) ?am) \<noteq> None"
    by (subst reserve_succeeds) (simp add: example_rebuild zero_budget_def)
  then have b: "getBudget (fold (am_exec default_config) [RebuildCall example_richer, MarketCall (ReserveOp ''KRW-BTC'' (D 1000))] example_am)
      ''KRW-BTC'' = Some ((zero_budget ''KRW-BTC'') \<lparr> mb_available_krw := D 5000, mb_reserved_krw := D 1000, mb_initial_capital := D 100000 \<rparr>)"
    by (simp add: getBudget_reserve example_rebuild) (simp add: zero_budget_def)
  then show ?thesis
    using krw_never_negative [OF _ _ example_am_eq _ b] by (simp add: example_account_def example_richer_def)
qed

text \<open>The guard the rebuild lacks: an account in debt leaves a market with negative free KRW.\<close>

lemma rebuild_hands_out_debt:
  "getBudget (rebuildFromAccount default_config (example_account \<lparr> a_krw_free := D (- 6000) \<rparr>) example_am) ''KRW-BTC''
     = Some ((zero_budget ''KRW-BTC'') \<lparr> mb_available_krw := D (- 6000), mb_initial_capital := D 100000 \<rparr>)"
proof -
  have eps: "0 < D (1 / 100000000)" "D (1 / 100000000) < D 2"
    using D_pos [of "1 / 100000000"] D_mono [of "1 / 100000000" 1] dle_less_trans [of _ 1 "D 2"] by auto
  have n2: "\<not> D 2 < D (1 / 100000000)" using eps(2) dless_imp_le dle_not_less by blast
  show ?thesis
    using eps n2
    by (simp add: getBudget_def rebuildFromAccount_def rebuild_budgets_def flat_markets_def rebuild_position_def
        example_am_budgets zero_budget_def example_account_def default_config_def modify_def Let_def)
qed

end
