(* ===== verification/OrderStore.thy ===== *)
theory OrderStore
  imports KeyedStore Domain
begin

text \<open>
  The orders the bot is waiting for, \<open>src/src/engine/OrderStore.{h,cpp}\<close>: an unordered map from the
  exchange's order uuid to the order, shared by all market engines. Every method holds the lock
  for its whole body. The map is an association list with distinct keys; its iteration order (the
  order of \<open>getOpenOrdersByMarket\<close>) is unspecified in the source.
\<close>

type_synonym OrderStore = "(string \<times> Order) list"

fun isOpenStatus :: "OrderStatus \<Rightarrow> bool" where
  "isOpenStatus New = True"
| "isOpenStatus Open = True"
| "isOpenStatus Pending = True"
| "isOpenStatus Filled = False"
| "isOpenStatus Canceled = False"
| "isOpenStatus Rejected = False"

definition os_add :: "Order \<Rightarrow> OrderStore \<Rightarrow> bool \<times> OrderStore" where
  "os_add ord s =
     (if o_id ord = [] then (False, s)
      else case map_of s (o_id ord) of
        Some _ \<Rightarrow> (False, s)
      | None \<Rightarrow> (True, AList.update (o_id ord) ord s))"

definition os_get :: "OrderStore \<Rightarrow> string \<Rightarrow> Order option" where
  "os_get s order_uuid = map_of s order_uuid"

definition os_update :: "Order \<Rightarrow> OrderStore \<Rightarrow> bool \<times> OrderStore" where
  "os_update ord s =
     (case map_of s (o_id ord) of
        None \<Rightarrow> (False, s)
      | Some _ \<Rightarrow> (True, AList.update (o_id ord) ord s))"

definition os_erase :: "string \<Rightarrow> OrderStore \<Rightarrow> bool \<times> OrderStore" where
  "os_erase order_uuid s =
     (case map_of s order_uuid of
        None \<Rightarrow> (False, s)
      | Some _ \<Rightarrow> (True, AList.delete order_uuid s))"

definition os_upsert :: "Order \<Rightarrow> OrderStore \<Rightarrow> OrderStore" where
  "os_upsert ord s = (if o_id ord = [] then s else AList.update (o_id ord) ord s)"

definition os_getOpenOrdersByMarket :: "OrderStore \<Rightarrow> string \<Rightarrow> Order list" where
  "os_getOpenOrdersByMarket s market =
     map snd (filter (\<lambda>(_, ord). o_market ord = market \<and> isOpenStatus (o_status ord)) s)"

definition os_size :: "OrderStore \<Rightarrow> nat" where
  "os_size s = length s"

lemma isOpenStatus_open: "isOpenStatus st = status_open st"
  by (cases st) (auto simp: status_open_def)

section \<open>Invariant and laws\<close>

definition store_ok :: "OrderStore \<Rightarrow> bool" where
  "store_ok s \<longleftrightarrow> distinct (map fst s) \<and> (\<forall>(k, ord) \<in> set s. k = o_id ord \<and> k \<noteq> [])"

lemma os_get_update [simp]:
  "os_get (snd (os_update ord s)) k = (if k = o_id ord \<and> os_get s k \<noteq> None then Some ord else os_get s k)"
  by (auto simp: os_get_def os_update_def update_conv split: option.split)

lemma os_update_success: "fst (os_update ord s) \<longleftrightarrow> os_get s (o_id ord) \<noteq> None"
  by (auto simp: os_get_def os_update_def split: option.split)

lemma os_get_erase [simp]: "os_get (snd (os_erase i s)) k = (if k = i then None else os_get s k)"
  by (auto simp: os_get_def os_erase_def delete_conv split: option.split)

lemma os_get_upsert [simp]: "o_id ord \<noteq> [] \<Longrightarrow> os_get (os_upsert ord s) k = (if k = o_id ord then Some ord else os_get s k)"
  by (simp add: os_get_def os_upsert_def update_conv)

lemma os_get_add:
  "os_get (snd (os_add ord s)) k =
     (if k = o_id ord \<and> o_id ord \<noteq> [] \<and> os_get s k = None then Some ord else os_get s k)"
  by (auto simp: os_get_def os_add_def update_conv split: option.split)

interpretation kvs: kv_store os_get os_upsert "\<lambda>k s. snd (os_erase k s)" o_id "\<lambda>ord. o_id ord \<noteq> []"
  by unfold_locales auto

lemma set_update_sub: "set (AList.update k v xs) \<subseteq> insert (k, v) (set xs)"
  by (induction xs) auto

lemma store_ok_update: "store_ok s \<Longrightarrow> o_id ord \<noteq> [] \<Longrightarrow> store_ok (AList.update (o_id ord) ord s)"
  using set_update_sub [of "o_id ord" ord s] by (auto simp: store_ok_def distinct_update)

lemma store_ok_ops [simp]:
  "store_ok []"
  "store_ok s \<Longrightarrow> store_ok (snd (os_add ord s))"
  "store_ok s \<Longrightarrow> store_ok (os_upsert ord s)"
  "store_ok s \<Longrightarrow> store_ok (snd (os_erase k s))"
  "store_ok s \<Longrightarrow> store_ok (snd (os_update ord s))"
proof -
  show "store_ok []" by (simp add: store_ok_def)
  assume s: "store_ok s"
  show "store_ok (snd (os_add ord s))" "store_ok (os_upsert ord s)"
    using store_ok_update [OF s, of ord] s by (auto simp: os_add_def os_upsert_def split: option.split)
  have "distinct (map fst (AList.delete k s))" using s by (simp add: store_ok_def distinct_delete)
  moreover have "set (AList.delete k s) \<subseteq> set s" by (induction s) auto
  ultimately show "store_ok (snd (os_erase k s))"
    using s by (auto simp: store_ok_def os_erase_def split: option.split)
  have "o_id ord \<noteq> []" if "map_of s (o_id ord) = Some x" for x
    using map_of_SomeD [OF that] s by (auto simp: store_ok_def)
  then show "store_ok (snd (os_update ord s))" using store_ok_update [OF s, of ord] s
    by (auto simp: os_update_def split: option.split)
qed

lemma store_ok_get: "store_ok s \<Longrightarrow> os_get s k = Some ord \<Longrightarrow> o_id ord = k \<and> k \<noteq> []"
  by (auto simp: store_ok_def os_get_def dest!: map_of_SomeD)

section \<open>Properties\<close>

text \<open>
  The shared order store is a map from order uuids: after any sequence of writes the order found under an id is
  the last one written with that id, erasing an id hides exactly that order, and the listing of a
  market's open orders returns exactly the stored orders of that market that are not terminal.
\<close>

theorem order_store_is_map:
  assumes "store_ok s" "\<forall>ord \<in> set ords. o_id ord \<noteq> []"
  shows "os_get (fold os_upsert ords s) k =
       (case filter (\<lambda>ord. o_id ord = k) ords of [] \<Rightarrow> os_get s k | ws \<Rightarrow> Some (last ws))
     \<and> os_get (snd (os_erase i s)) k = (if k = i then None else os_get s k)
     \<and> (ord \<in> set (os_getOpenOrdersByMarket s market) \<longleftrightarrow>
         os_get s (o_id ord) = Some ord \<and> o_market ord = market \<and> \<not> isDone ord)"
proof -
  have "(o_id ord, ord) \<in> set s \<longleftrightarrow> os_get s (o_id ord) = Some ord"
    using assms(1) by (simp add: store_ok_def os_get_def)
  moreover have "(\<exists>i. (i, ord) \<in> set s) \<longleftrightarrow> (o_id ord, ord) \<in> set s" using assms(1) by (auto simp: store_ok_def)
  moreover have "isOpenStatus (o_status ord) \<longleftrightarrow> \<not> isDone ord"
    using isOpen_not_isDone [of ord] by (simp add: isOpenStatus_open isOpen_def)
  ultimately show ?thesis using kvs.fold_put [OF assms(2), of s k]
    by (auto simp: os_getOpenOrdersByMarket_def image_iff)
qed

definition blank_order :: Order where
  "blank_order = \<lparr> o_market = [], o_identifier = None, o_id = [], o_position = ASK, o_type = Market, o_price = None,
     o_volume = None, o_requested_amount = None, o_executed_volume = 0, o_remaining_volume = 0, o_trades_count = 0,
     o_reserved_fee = 0, o_paid_fee = 0, o_remaining_fee = 0, o_locked = 0, o_executed_funds = 0, o_status = New,
     o_created_at = [] \<rparr>"

theorem order_store_is_map_witness:
  "os_get (fold os_upsert [blank_order \<lparr> o_id := ''a'' \<rparr>, blank_order \<lparr> o_id := ''b'' \<rparr>,
       blank_order \<lparr> o_id := ''a'', o_status := Open \<rparr>] []) ''a''
     = Some (blank_order \<lparr> o_id := ''a'', o_status := Open \<rparr>)"
  using order_store_is_map [of "[]" "[blank_order \<lparr> o_id := ''a'' \<rparr>, blank_order \<lparr> o_id := ''b'' \<rparr>,
       blank_order \<lparr> o_id := ''a'', o_status := Open \<rparr>]" "''a''"]
  by (simp add: blank_order_def)

end
