(* ===== verification/MarketEngine.thy ===== *)
theory MarketEngine
  imports AccountManager OrderStore TextFormat
begin

text \<open>
  The order engine of one market, \<open>src/src/engine/MarketEngine.{h,cpp}\<close>, with its result and event types. The
  engine's own members are a record; the account manager and the order store it shares with
  the other engines are the record \<open>Env\<close>. Every handler takes and returns both. The exchange's answer to
  \<open>postOrder\<close> is an argument: an error message or the uuid of the order. Logging and the owner-thread assertion
  have no effect on the state and are left out.
\<close>

section \<open>Results and events\<close>

datatype EngineErrorCode =
  ErrNone | InvalidOrderId | InsufficientFunds | MarketNotSupported | OrderRejected | InternalError

record EngineResult =
  er_success :: bool
  er_code :: EngineErrorCode
  er_order :: "Order option"
  er_myTrade :: "MyTrade option"
  er_account :: "Account option"
  er_message :: string

definition Success :: "Order \<Rightarrow> EngineResult" where
  "Success ord = \<lparr> er_success = True, er_code = ErrNone, er_order = Some ord, er_myTrade = None,
     er_account = None, er_message = [] \<rparr>"

definition Fail :: "EngineErrorCode \<Rightarrow> string \<Rightarrow> EngineResult" where
  "Fail error_code msg = \<lparr> er_success = False, er_code = error_code, er_order = None, er_myTrade = None,
     er_account = None, er_message = msg \<rparr>"

record EngineFillEvent =
  ef_identifier :: string
  ef_order_uuid :: string
  ef_trade_uuid :: string
  ef_position :: OrderPosition
  ef_fill_price :: Price
  ef_filled_volume :: Volume

record EngineOrderStatusEvent =
  es_identifier :: string
  es_order_uuid :: string
  es_status :: OrderStatus
  es_position :: OrderPosition
  es_executed_volume :: double
  es_remaining_volume :: double
  es_executed_funds :: double
  es_position_effect :: PositionEffect

datatype EngineEvent = FillEv EngineFillEvent | StatusEv EngineOrderStatusEvent

section \<open>State\<close>

record MarketEngine =
  me_market :: string
  me_seen :: "string set"
  me_fifo :: "string list"
  me_events :: "EngineEvent list"
  me_buy_token :: "ReservationToken option"
  me_buy_uuid :: string
  me_sell_uuid :: string
  me_mark :: Price

record Env =
  env_am :: AccountManager
  env_store :: OrderStore

definition me_new :: "string \<Rightarrow> MarketEngine" where
  "me_new market = \<lparr> me_market = market, me_seen = {}, me_fifo = [], me_events = [], me_buy_token = None,
     me_buy_uuid = [], me_sell_uuid = [], me_mark = 0 \<rparr>"

definition setMarkPrice :: "Price \<Rightarrow> MarketEngine \<Rightarrow> MarketEngine" where
  "setMarkPrice p e = e \<lparr> me_mark := p \<rparr>"

definition pushEvent :: "EngineEvent \<Rightarrow> MarketEngine \<Rightarrow> MarketEngine" where
  "pushEvent ev e = e \<lparr> me_events := me_events e @ [ev] \<rparr>"

definition pollEvents :: "MarketEngine \<Rightarrow> EngineEvent list \<times> MarketEngine" where
  "pollEvents e = (me_events e, e \<lparr> me_events := [] \<rparr>)"

definition activePendingIds :: "MarketEngine \<Rightarrow> string \<times> string" where
  "activePendingIds e = (me_buy_uuid e, me_sell_uuid e)"

definition extractCurrency :: "string \<Rightarrow> string" where
  "extractCurrency market = (case find_char (CHR ''-'') market of None \<Rightarrow> market | Some p \<Rightarrow> drop (p + 1) market)"

section \<open>Submitting\<close>

text \<open>The reason for which a request is refused, or \<open>None\<close>.\<close>

definition validateRequest :: "OrderRequest \<Rightarrow> string option" where
  "validateRequest req =
     (if rq_market req = [] then Some ''market is empty''
      else
        let isVolume = (case rq_size req of VolumeSize _ \<Rightarrow> True | AmountSize _ \<Rightarrow> False);
            isAmount = (case rq_size req of VolumeSize _ \<Rightarrow> False | AmountSize _ \<Rightarrow> True);
            shape =
              (if rq_type req = Limit then
                 (if rq_price req = None then Some ''limit order requires price''
                  else if \<not> isVolume then Some ''limit order requires VolumeSize''
                  else None)
               else
                 (if rq_price req \<noteq> None then Some ''market order must not specify price''
                  else if rq_position req = BID \<and> \<not> isAmount then Some ''market buy(BID) requires AmountSize''
                  else if rq_position req = ASK \<and> \<not> isVolume then Some ''market sell(ASK) requires VolumeSize''
                  else None))
        in case shape of
             Some reason \<Rightarrow> Some reason
           | None \<Rightarrow>
               (case rq_size req of
                  AmountSize a \<Rightarrow> if a \<le> 0 then Some ''amount must be > 0'' else
                    (case rq_price req of Some p \<Rightarrow> if p \<le> 0 then Some ''price must be > 0'' else None | None \<Rightarrow> None)
                | VolumeSize vol \<Rightarrow> if vol \<le> 0 then Some ''volume must be > 0'' else
                    (case rq_price req of Some p \<Rightarrow> if p \<le> 0 then Some ''price must be > 0'' else None | None \<Rightarrow> None)))"

definition computeReserveAmount :: "AppConfig \<Rightarrow> OrderRequest \<Rightarrow> Amount" where
  "computeReserveAmount cfg req =
     (case rq_size req of
        AmountSize base \<Rightarrow> base * reserve_margin cfg
      | VolumeSize volume \<Rightarrow> (case rq_price req of Some p \<Rightarrow> p | None \<Rightarrow> 0) * volume * reserve_margin cfg)"

text \<open>The order stored after a successful submission.\<close>

definition submitted_order :: "OrderRequest \<Rightarrow> string \<Rightarrow> Order" where
  "submitted_order req order_uuid =
     \<lparr> o_market = rq_market req,
       o_identifier = (if rq_identifier req = [] then None else Some (rq_identifier req)),
       o_id = order_uuid, o_position = rq_position req, o_type = rq_type req, o_price = rq_price req,
       o_volume = (case rq_size req of VolumeSize vol \<Rightarrow> Some vol | AmountSize _ \<Rightarrow> None),
       o_requested_amount = (case rq_size req of VolumeSize _ \<Rightarrow> None | AmountSize a \<Rightarrow> Some a),
       o_executed_volume = 0, o_remaining_volume = 0, o_trades_count = 0, o_reserved_fee = 0, o_paid_fee = 0,
       o_remaining_fee = 0, o_locked = 0, o_executed_funds = 0, o_status = Pending, o_created_at = [] \<rparr>"

text \<open>\<open>active_buy_token_.emplace(std::move(*token))\<close>: the moved-from token is destroyed at the end of the scope.\<close>

definition emplace_token :: "ReservationToken \<Rightarrow> MarketEngine \<times> Env \<Rightarrow> MarketEngine \<times> Env" where
  "emplace_token t s =
     (let (t1, t0) = token_move t
      in (fst s \<lparr> me_buy_token := Some t1 \<rparr>, snd s \<lparr> env_am := token_destroy t0 (env_am (snd s)) \<rparr>))"

text \<open>Step 3 of \<open>submit\<close>: the guards against a second or an opposite order, and the reservation of a buy.\<close>

definition submit_reserve :: "AppConfig \<Rightarrow> OrderRequest \<Rightarrow> MarketEngine \<times> Env \<Rightarrow> EngineResult option \<times> MarketEngine \<times> Env" where
  "submit_reserve cfg req s =
     (let e = fst s; env = snd s
      in if rq_position req = BID then
           (if me_buy_token e \<noteq> None then (Some (Fail OrderRejected (''already has pending buy order for '' @ me_market e)), s)
            else if me_sell_uuid e \<noteq> [] then
              (Some (Fail OrderRejected (''cannot submit buy while sell order is active for '' @ me_market e)), s)
            else
              (case reserve (me_market e) (computeReserveAmount cfg req) (env_am env) of
                 (None, am) \<Rightarrow> (Some (Fail InsufficientFunds (''reserve failed for '' @ me_market e)), e, env \<lparr> env_am := am \<rparr>)
               | (Some t, am) \<Rightarrow> (None, emplace_token t (e, env \<lparr> env_am := am \<rparr>))))
         else
           (if me_sell_uuid e \<noteq> [] then (Some (Fail OrderRejected (''already has pending sell order for '' @ me_market e)), s)
            else if me_buy_token e \<noteq> None then
              (Some (Fail OrderRejected (''cannot submit sell while buy order is active for '' @ me_market e)), s)
            else (None, s)))"

text \<open>Steps 4 and 5: the answer of the exchange.\<close>

definition submit_finish :: "OrderRequest \<Rightarrow> string + string \<Rightarrow> MarketEngine \<times> Env \<Rightarrow> EngineResult \<times> MarketEngine \<times> Env" where
  "submit_finish req result s =
     (let e = fst s; env = snd s
      in case result of
        Inl message \<Rightarrow>
          (Fail InternalError (''postOrder failed: '' @ message),
           (if rq_position req = BID then
              (case me_buy_token e of
                 Some t \<Rightarrow>
                   (let (t1, am) = release t (env_am env)
                    in (e \<lparr> me_buy_token := None, me_buy_uuid := [] \<rparr>, env \<lparr> env_am := token_destroy t1 am \<rparr>))
               | None \<Rightarrow> (e \<lparr> me_buy_uuid := [] \<rparr>, env))
            else (e, env)))
      | Inr order_uuid \<Rightarrow>
          (let e1 = (if rq_position req = BID then e \<lparr> me_buy_uuid := order_uuid \<rparr> else e);
               e2 = (if rq_position req = ASK then e1 \<lparr> me_sell_uuid := order_uuid \<rparr> else e1);
               ord = submitted_order req order_uuid
           in (Success ord, e2, env \<lparr> env_store := os_upsert ord (env_store env) \<rparr>)))"

definition submit ::
    "AppConfig \<Rightarrow> (OrderRequest \<Rightarrow> string + string) \<Rightarrow> OrderRequest \<Rightarrow> MarketEngine \<times> Env \<Rightarrow> EngineResult \<times> MarketEngine \<times> Env" where
  "submit cfg postOrder req s =
     (case validateRequest req of
        Some reason \<Rightarrow> (Fail OrderRejected reason, s)
      | None \<Rightarrow>
          if rq_market req \<noteq> me_market (fst s) then
            (Fail MarketNotSupported (''market mismatch: expected '' @ me_market (fst s) @ '', got '' @ rq_market req), s)
          else
            (case submit_reserve cfg req s of
               (Some failure, s1) \<Rightarrow> (failure, s1)
             | (None, s1) \<Rightarrow> submit_finish req (postOrder req) s1))"

section \<open>Fills\<close>

fun side_int :: "OrderPosition \<Rightarrow> int" where
  "side_int ASK = 0"
| "side_int BID = 1"

definition makeTradeDedupeKey :: "MyTrade \<Rightarrow> string" where
  "makeTradeDedupeKey t =
     (if t_trade_uuid t \<noteq> [] then t_trade_uuid t
      else ''FALLBACK|'' @ t_order_uuid t @ ''|'' @ int_str (side_int (t_side t)) @ ''|'' @ t_market t @ ''|''
        @ fixed_str 12 (t_price t) @ ''|'' @ fixed_str 12 (t_volume t) @ ''|''
        @ fixed_str 12 (t_executed_funds t) @ ''|'' @ fixed_str 12 (t_fee t)
        @ (case t_identifier t of Some i \<Rightarrow> if i \<noteq> [] then ''|'' @ i else [] | None \<Rightarrow> []))"

fun trim_seen :: "nat \<Rightarrow> string list \<Rightarrow> string set \<Rightarrow> string list \<times> string set" where
  "trim_seen cap [] seen = ([], seen)"
| "trim_seen cap (oldest # fifo) seen =
     (if cap < length (oldest # fifo) then trim_seen cap fifo (seen - {oldest}) else (oldest # fifo, seen))"

definition markTradeOnce :: "AppConfig \<Rightarrow> string \<Rightarrow> MarketEngine \<Rightarrow> bool \<times> MarketEngine" where
  "markTradeOnce cfg trade_uuid e =
     (if trade_uuid = [] then (False, e)
      else if trade_uuid \<in> me_seen e then (False, e)
      else
        let (fifo, seen) = trim_seen (max_seen_trades cfg) (me_fifo e @ [trade_uuid]) (insert trade_uuid (me_seen e))
        in (True, e \<lparr> me_seen := seen, me_fifo := fifo \<rparr>))"

definition trade_event :: "MyTrade \<Rightarrow> Order \<Rightarrow> EngineEvent option" where
  "trade_event t ord =
     (let i = (case t_identifier t of None \<Rightarrow> o_identifier ord | Some x \<Rightarrow> Some x)
      in case i of
           None \<Rightarrow> None
         | Some x \<Rightarrow>
             if x = [] then None
             else Some (FillEv \<lparr> ef_identifier = x, ef_order_uuid = t_order_uuid t,
                    ef_trade_uuid = (if t_trade_uuid t = [] then makeTradeDedupeKey t else t_trade_uuid t),
                    ef_position = t_side t, ef_fill_price = t_price t, ef_filled_volume = t_volume t \<rparr>))"

text \<open>Step 3 of \<open>onMyTrade\<close>: the settlement.\<close>

definition settle_trade :: "MyTrade \<Rightarrow> MarketEngine \<times> Env \<Rightarrow> MarketEngine \<times> Env" where
  "settle_trade t s =
     (let e = fst s; env = snd s
      in if t_side t = BID then
           (case me_buy_token e of
              Some tok \<Rightarrow>
                if me_buy_uuid e = t_order_uuid t then
                  (let executed_krw = t_executed_funds t + t_fee t;
                       (tok1, am1) = finalizeFillBuy tok executed_krw (t_volume t) (t_price t) (env_am env)
                   in (e \<lparr> me_buy_token := Some tok1 \<rparr>, env \<lparr> env_am := am1 \<rparr>))
                else s
            | None \<Rightarrow> s)
         else
           (let received_krw = dmax 0 (t_executed_funds t - t_fee t)
            in (e, env \<lparr> env_am := finalizeFillSell (me_market e) (t_volume t) received_krw (env_am env) \<rparr>)))"

definition onMyTrade :: "AppConfig \<Rightarrow> MyTrade \<Rightarrow> MarketEngine \<times> Env \<Rightarrow> MarketEngine \<times> Env" where
  "onMyTrade cfg t s =
     (if t_market t \<noteq> me_market (fst s) then s
      else
        (case markTradeOnce cfg (makeTradeDedupeKey t) (fst s) of
           (False, e1) \<Rightarrow> (e1, snd s)
         | (True, e1) \<Rightarrow>
             (case os_get (env_store (snd s)) (t_order_uuid t) of
                None \<Rightarrow> (e1, snd s)
              | Some ord \<Rightarrow>
                  settle_trade t
                    (case trade_event t ord of None \<Rightarrow> e1 | Some ev \<Rightarrow> pushEvent ev e1, snd s))))"

section \<open>Snapshots\<close>

definition finalizeBuyToken :: "AppConfig \<Rightarrow> string \<Rightarrow> MarketEngine \<times> Env \<Rightarrow> MarketEngine \<times> Env" where
  "finalizeBuyToken cfg order_uuid s =
     (let e = fst s; env = snd s
      in case me_buy_token e of
           None \<Rightarrow> s
         | Some t \<Rightarrow>
             if me_buy_uuid e = [] \<or> me_buy_uuid e \<noteq> order_uuid then s
             else
               (let (t1, am1) = finalizeOrder cfg t (env_am env)
                in (e \<lparr> me_buy_token := None, me_buy_uuid := [] \<rparr>, env \<lparr> env_am := token_destroy t1 am1 \<rparr>)))"

text \<open>The effect of a terminal order on the position. The source dereferences the budget of its own market,
  which exists for every market the manager creates an engine for; without one the code has no defined
  behaviour and the model answers as for an empty balance.\<close>

definition resolvePositionEffect :: "AppConfig \<Rightarrow> Order \<Rightarrow> MarketEngine \<times> Env \<Rightarrow> PositionEffect" where
  "resolvePositionEffect cfg ord s =
     (if o_executed_volume ord \<le> 0 then EffNone
      else
        let has_coin = (case getBudget (env_am (snd s)) (me_market (fst s)) of
                          Some b \<Rightarrow> coin_epsilon cfg \<le> mb_coin_balance b | None \<Rightarrow> False)
        in if o_position ord = BID then EffOpened
           else if has_coin then EffReduced else EffClosed)"

text \<open>The stored order after a snapshot: request fields are kept, cumulative fields replaced.\<close>

definition merge_snapshot :: "Order \<Rightarrow> Order \<Rightarrow> Order" where
  "merge_snapshot snapshot ord =
     (let o1 = (if o_market snapshot \<noteq> [] then ord \<lparr> o_market := o_market snapshot \<rparr> else ord);
          o2 = o1 \<lparr> o_position := o_position snapshot, o_type := o_type snapshot \<rparr>;
          o3 = (if o_price o2 = None \<and> o_price snapshot \<noteq> None \<and> o_type o2 = Limit
                then o2 \<lparr> o_price := o_price snapshot \<rparr> else o2);
          o4 = (if o_volume o3 = None \<and> o_volume snapshot \<noteq> None then o3 \<lparr> o_volume := o_volume snapshot \<rparr> else o3);
          o5 = o4 \<lparr> o_executed_volume := o_executed_volume snapshot, o_remaining_volume := o_remaining_volume snapshot,
                    o_trades_count := o_trades_count snapshot, o_reserved_fee := o_reserved_fee snapshot,
                    o_remaining_fee := o_remaining_fee snapshot, o_paid_fee := o_paid_fee snapshot,
                    o_locked := o_locked snapshot, o_executed_funds := o_executed_funds snapshot,
                    o_status := o_status snapshot \<rparr>;
          o6 = (if o_identifier o5 = None \<and> o_identifier snapshot \<noteq> None
                then o5 \<lparr> o_identifier := o_identifier snapshot \<rparr> else o5)
      in if o_created_at snapshot \<noteq> [] then o6 \<lparr> o_created_at := o_created_at snapshot \<rparr> else o6)"

definition status_event :: "AppConfig \<Rightarrow> Order \<Rightarrow> MarketEngine \<times> Env \<Rightarrow> EngineEvent" where
  "status_event cfg ord s =
     StatusEv \<lparr> es_identifier = (case o_identifier ord of Some i \<Rightarrow> i | None \<Rightarrow> []), es_order_uuid = o_id ord,
       es_status = o_status ord, es_position = o_position ord, es_executed_volume = o_executed_volume ord,
       es_remaining_volume = o_remaining_volume ord, es_executed_funds = o_executed_funds ord,
       es_position_effect = resolvePositionEffect cfg ord s \<rparr>"

text \<open>What a terminal snapshot does when the status has changed.\<close>

definition close_order :: "AppConfig \<Rightarrow> Order \<Rightarrow> MarketEngine \<times> Env \<Rightarrow> MarketEngine \<times> Env" where
  "close_order cfg ord s =
     (let s1 = (if o_position ord = BID \<and> o_id ord = me_buy_uuid (fst s) then finalizeBuyToken cfg (o_id ord) s else s);
          s2 = (if o_position ord = ASK \<and> o_id ord = me_sell_uuid (fst s1) then
                  (let mark = (if 0 < me_mark (fst s1) then Some (me_mark (fst s1)) else None)
                   in (fst s1 \<lparr> me_sell_uuid := [] \<rparr>,
                       snd s1 \<lparr> env_am := finalizeSellOrder cfg (me_market (fst s1)) mark (env_am (snd s1)) \<rparr>))
                else s1)
      in if (case o_identifier ord of Some i \<Rightarrow> i \<noteq> [] | None \<Rightarrow> False)
         then (pushEvent (status_event cfg ord s2) (fst s2), snd s2) else s2)"

definition onOrderSnapshot :: "AppConfig \<Rightarrow> Order \<Rightarrow> MarketEngine \<times> Env \<Rightarrow> MarketEngine \<times> Env" where
  "onOrderSnapshot cfg snapshot s =
     (if o_market snapshot \<noteq> [] \<and> o_market snapshot \<noteq> me_market (fst s) then s
      else case os_get (env_store (snd s)) (o_id snapshot) of
        None \<Rightarrow> s
      | Some old \<Rightarrow>
          (let ord = merge_snapshot snapshot old;
               (updated, store1) = os_update ord (env_store (snd s))
           in if \<not> updated then s
              else
                let s1 = (fst s, snd s \<lparr> env_store := store1 \<rparr>)
                in if isDone ord then
                     (let s2 = (if o_status ord \<noteq> o_status old then close_order cfg ord s1 else s1)
                      in (fst s2, snd s2 \<lparr> env_store := snd (os_erase (o_id ord) (env_store (snd s2))) \<rparr>))
                   else s1))"

section \<open>Reconciliation with the exchange's cumulative values\<close>

definition reconcileFromSnapshot :: "AppConfig \<Rightarrow> Order \<Rightarrow> MarketEngine \<times> Env \<Rightarrow> bool \<times> MarketEngine \<times> Env" where
  "reconcileFromSnapshot cfg snapshot s =
     (let e = fst s; env = snd s
      in if o_market snapshot \<noteq> [] \<and> o_market snapshot \<noteq> me_market e then (False, s)
         else case os_get (env_store env) (o_id snapshot) of
           None \<Rightarrow> (False, s)
         | Some prev \<Rightarrow>
             (let delta_volume = dmax 0 (o_executed_volume snapshot - o_executed_volume prev);
                  delta_funds = dmax 0 (o_executed_funds snapshot - o_executed_funds prev);
                  delta_paid_fee = dmax 0 (o_paid_fee snapshot - o_paid_fee prev)
              in if 0 < delta_volume then
                   (if delta_funds \<le> 0 then (False, s)
                    else if o_position snapshot = BID then
                      (case me_buy_token e of
                         None \<Rightarrow> (False, s)
                       | Some tok \<Rightarrow>
                           if me_buy_uuid e \<noteq> o_id snapshot then (False, s)
                           else
                             let fill_price = delta_funds / delta_volume
                             in if fill_price \<le> 0 then (False, s)
                                else
                                  (let (tok1, am1) = finalizeFillBuy tok (delta_funds + delta_paid_fee) delta_volume fill_price (env_am env)
                                   in (True, onOrderSnapshot cfg snapshot
                                         (e \<lparr> me_buy_token := Some tok1 \<rparr>, env \<lparr> env_am := am1 \<rparr>))))
                    else
                      (if me_sell_uuid e \<noteq> o_id snapshot then (False, s)
                       else
                         let received_krw = dmax 0 (delta_funds - delta_paid_fee)
                         in (True, onOrderSnapshot cfg snapshot
                               (e, env \<lparr> env_am := finalizeFillSell (me_market e) delta_volume received_krw (env_am env) \<rparr>))))
                 else (True, onOrderSnapshot cfg snapshot s)))"

section \<open>The engine as a state machine\<close>

datatype engine_in =
    InSubmit OrderRequest "string + string"
  | InTrade MyTrade
  | InSnapshot Order
  | InReconcile Order
  | InMark Price
  | InPoll

fun engine_step :: "AppConfig \<Rightarrow> engine_in \<Rightarrow> MarketEngine \<times> Env \<Rightarrow> MarketEngine \<times> Env" where
  "engine_step cfg (InSubmit req answer) s = snd (submit cfg (\<lambda>_. answer) req s)"
| "engine_step cfg (InTrade t) s = onMyTrade cfg t s"
| "engine_step cfg (InSnapshot snapshot) s = onOrderSnapshot cfg snapshot s"
| "engine_step cfg (InReconcile snapshot) s = snd (reconcileFromSnapshot cfg snapshot s)"
| "engine_step cfg (InMark p) s = (setMarkPrice p (fst s), snd s)"
| "engine_step cfg InPoll s = (snd (pollEvents (fst s)), snd s)"

text \<open>What the messages of the exchange are assumed to satisfy: finite amounts within \<open>2 ^ 99\<close>.\<close>

definition amount_ok :: "double \<Rightarrow> bool" where
  "amount_ok x \<longleftrightarrow> fin x \<and> \<bar>val x\<bar> \<le> 2 ^ 99"

definition order_fin :: "Order \<Rightarrow> bool" where
  "order_fin ord \<longleftrightarrow> amount_ok (o_executed_funds ord) \<and> amount_ok (o_paid_fee ord)"

fun in_valid :: "AppConfig \<Rightarrow> engine_in \<Rightarrow> bool" where
  "in_valid cfg (InSubmit req answer) = fin (computeReserveAmount cfg req)"
| "in_valid cfg (InTrade t) = (amount_ok (t_executed_funds t) \<and> amount_ok (t_fee t))"
| "in_valid cfg (InSnapshot snapshot) = order_fin snapshot"
| "in_valid cfg (InReconcile snapshot) = order_fin snapshot"
| "in_valid cfg (InMark p) = True"
| "in_valid cfg InPoll = True"

text \<open>The shared state: budgets that are never negative, a store that is a map and holds open orders only.\<close>

definition env_ok :: "Env \<Rightarrow> bool" where
  "env_ok env \<longleftrightarrow> am_ok (env_am env) \<and> store_ok (env_store env) \<and>
     (\<forall>k ord. os_get (env_store env) k = Some ord \<longrightarrow> isOpen ord \<and> order_fin ord)"

text \<open>The engine's own state: a buy in flight owns an active token of this market, a buy and a sell are never in
  flight together, the set of seen trades is the content of its FIFO and stays within the limit.\<close>

definition engine_ok :: "AppConfig \<Rightarrow> MarketEngine \<Rightarrow> bool" where
  "engine_ok cfg e \<longleftrightarrow>
     (\<forall>t. me_buy_token e = Some t \<longrightarrow>
        tok_ok t \<and> tok_active t \<and> tok_has_manager t \<and> tok_market t = me_market e \<and> me_sell_uuid e = []) \<and>
     (me_buy_uuid e \<noteq> [] \<longrightarrow> me_buy_token e \<noteq> None) \<and>
     me_seen e = set (me_fifo e) \<and> distinct (me_fifo e) \<and> length (me_fifo e) \<le> max_seen_trades cfg"

text \<open>What the other engines and the manager may do to the shared state between two steps of the engine of market \<open>m\<close>:
  anything that keeps it consistent and leaves the budget and the orders of \<open>m\<close> alone.\<close>

definition rely :: "string \<Rightarrow> Env \<Rightarrow> Env \<Rightarrow> bool" where
  "rely m env env' \<longleftrightarrow> env_ok env' \<and> getBudget (env_am env') m = getBudget (env_am env) m"

inductive reach :: "AppConfig \<Rightarrow> string \<Rightarrow> MarketEngine \<times> Env \<Rightarrow> bool" for cfg m where
  start: "env_ok env \<Longrightarrow> reach cfg m (me_new m, env)"
| step: "reach cfg m s \<Longrightarrow> in_valid cfg inp \<Longrightarrow> reach cfg m (engine_step cfg inp s)"
| others: "reach cfg m (e, env) \<Longrightarrow> rely m env env' \<Longrightarrow> reach cfg m (e, env')"

subsection \<open>Amounts\<close>

lemma amount_ok_0 [simp]: "amount_ok 0"
  by (simp add: amount_ok_def)

lemma amount_add: "amount_ok x \<Longrightarrow> amount_ok y \<Longrightarrow> fin (x + y)"
  unfolding amount_ok_def by (subst fin_add) (auto simp: abs_le_iff intro!: fin_D_big)

lemma amount_diff: "amount_ok x \<Longrightarrow> amount_ok y \<Longrightarrow> fin (x - y)"
  unfolding amount_ok_def by (subst fin_diff) (auto simp: abs_le_iff intro!: fin_D_big)

lemma fin_val_bound: "fin (D q) \<Longrightarrow> \<bar>q\<bar> \<le> 2 ^ k \<Longrightarrow> k \<le> 900 \<Longrightarrow> \<bar>val (D q)\<bar> \<le> 2 ^ k"
proof -
  assume f: "fin (D q)" and q: "\<bar>q\<bar> \<le> 2 ^ k" and k: "k \<le> 900"
  have r: "rep (2 ^ k)" using rep_scaled [of 1 k] k by simp
  then have "D q \<le> D (2 ^ k)" "D (- (2 ^ k)) \<le> D q" using q by (auto intro!: D_mono)
  then show ?thesis using f r by (auto simp: fin_val_le abs_le_iff)
qed

lemma delta_sum_fin:
  assumes "amount_ok a" "amount_ok b" "amount_ok c" "amount_ok d"
  shows "fin (dmax 0 (a - b) + dmax 0 (c - d))" "fin (dmax 0 (a - b) - dmax 0 (c - d))"
proof -
  have b: "fin (dmax 0 (x - y)) \<and> \<bar>val (dmax 0 (x - y))\<bar> \<le> 2 ^ 100" if "amount_ok x" "amount_ok y" for x y
  proof -
    have f: "fin (x - y)" by (rule amount_diff [OF that])
    have "\<bar>val x - val y\<bar> \<le> 2 ^ 100" using that by (auto simp: amount_ok_def abs_le_iff)
    then have "\<bar>val (x - y)\<bar> \<le> 2 ^ 100"
      using that f fin_val_bound [of "val x - val y" 100] by (auto simp: amount_ok_def fin_diff)
    then show ?thesis using f by (auto simp: dmax_def)
  qed
  show "fin (dmax 0 (a - b) + dmax 0 (c - d))"
    using b [OF assms(1,2)] b [OF assms(3,4)] by (subst fin_add) (auto simp: abs_le_iff intro!: fin_D_big)
  show "fin (dmax 0 (a - b) - dmax 0 (c - d))"
    using b [OF assms(1,2)] b [OF assms(3,4)] by (subst fin_diff) (auto simp: abs_le_iff intro!: fin_D_big)
qed

subsection \<open>The seen-trade window\<close>

lemma trim_seen_spec:
  "distinct fifo \<Longrightarrow> trim_seen cap fifo (set fifo) = (last_n cap fifo, set (last_n cap fifo))"
proof (induction fifo)
  case (Cons x xs)
  show ?case
  proof (cases "cap < length (x # xs)")
    case True
    have "set (x # xs) - {x} = set xs" using Cons.prems by auto
    moreover have "last_n cap (x # xs) = last_n cap xs" using True by (simp add: last_n_def Suc_diff_le)
    ultimately show ?thesis using Cons True by simp
  qed simp
qed (simp add: last_n_def)

lemma markTradeOnce_eq:
  assumes "me_seen e = set (me_fifo e)" "distinct (me_fifo e)"
  shows "markTradeOnce cfg k e =
     (if k = [] \<or> k \<in> me_seen e then (False, e)
      else (True, e \<lparr> me_seen := set (last_n (max_seen_trades cfg) (me_fifo e @ [k])),
                     me_fifo := last_n (max_seen_trades cfg) (me_fifo e @ [k]) \<rparr>))"
  using assms trim_seen_spec [of "me_fifo e @ [k]" "max_seen_trades cfg"]
  by (auto simp: markTradeOnce_def insert_commute)

lemma distinct_last_n: "distinct xs \<Longrightarrow> distinct (last_n n xs)"
  by (simp add: last_n_def)

lemma markTradeOnce_ok:
  assumes "engine_ok cfg e"
  shows "engine_ok cfg (snd (markTradeOnce cfg k e))"
proof -
  have s: "me_seen e = set (me_fifo e)" "distinct (me_fifo e)" using assms by (auto simp: engine_ok_def)
  show ?thesis using assms unfolding markTradeOnce_eq [OF s]
    by (auto simp: engine_ok_def distinct_last_n)
qed

lemma markTradeOnce_frame [simp]:
  "me_market (snd (markTradeOnce cfg k e)) = me_market e"
  "me_buy_token (snd (markTradeOnce cfg k e)) = me_buy_token e"
  "me_buy_uuid (snd (markTradeOnce cfg k e)) = me_buy_uuid e"
  "me_sell_uuid (snd (markTradeOnce cfg k e)) = me_sell_uuid e"
  by (auto simp: markTradeOnce_def split: prod.split)

subsection \<open>Account operations of the engine\<close>

lemma token_destroy_inactive [simp]: "\<not> tok_active t \<Longrightarrow> token_destroy t am = am"
  by (simp add: token_destroy_def)

lemma deactivate_inactive [simp]: "\<not> tok_active (token_deactivate t)"
  by (simp add: token_deactivate_def)

lemma am_ok_ops [pres]:
  "am_ok am \<Longrightarrow> fin k \<Longrightarrow> am_ok (snd (reserve m k am))"
  "am_ok am \<Longrightarrow> tok_ok t \<Longrightarrow> am_ok (snd (release t am))"
  "am_ok am \<Longrightarrow> tok_ok t \<Longrightarrow> fin x \<Longrightarrow> am_ok (snd (finalizeFillBuy t x c p am))"
  "am_ok am \<Longrightarrow> fin k \<Longrightarrow> am_ok (finalizeFillSell m v k am)"
  "am_ok am \<Longrightarrow> am_ok (finalizeSellOrder cfg m mark am)"
  "am_ok am \<Longrightarrow> tok_ok t \<Longrightarrow> am_ok (snd (finalizeOrder cfg t am))"
  using am_step_ok [of am "ReserveOp m k"] am_step_ok [of am "ReleaseOp t"] am_step_ok [of am "FillBuyOp t x c p"]
    am_step_ok [of am "FillSellOp m v k"] am_step_ok [of am "SellDoneOp m mark"] am_step_ok [of am "FinishOp t"]
  by auto

lemma finalizeFillBuy_token:
  assumes "tok_ok t" "fin x"
  shows "tok_ok (fst (finalizeFillBuy t x c p am))"
    "tok_active (fst (finalizeFillBuy t x c p am)) = tok_active t"
    "tok_has_manager (fst (finalizeFillBuy t x c p am)) = tok_has_manager t"
    "tok_market (fst (finalizeFillBuy t x c p am)) = tok_market t"
proof -
  have "tok_ok (addConsumed e t)" if "fill_amount t x c p = Some e" for e
    using fill_amount_fin [OF assms that] assms by (intro tok_ok_addConsumed) (auto dest: dless_imp_le)
  then show "tok_ok (fst (finalizeFillBuy t x c p am))" using assms
    by (auto simp: finalizeFillBuy_eq split: option.split)
qed (auto simp: finalizeFillBuy_eq addConsumed_def Let_def split: option.split)

lemma release_token_inactive [simp]: "\<not> tok_active (fst (release t am))"
  by (simp add: release_def)

lemma finalizeOrder_token_inactive [simp]: "\<not> tok_active (fst (finalizeOrder cfg t am))"
  by (auto simp: finalizeOrder_def split: option.split)

subsection \<open>Preservation\<close>

definition core_ok :: "AppConfig \<Rightarrow> string \<Rightarrow> MarketEngine \<times> Env \<Rightarrow> bool" where
  "core_ok cfg m s \<longleftrightarrow> engine_ok cfg (fst s) \<and> me_market (fst s) = m \<and> am_ok (env_am (snd s))"

text \<open>One handler's effect on the shared state: consistent again, and no budget but the engine's own has changed.\<close>

definition guar :: "AppConfig \<Rightarrow> string \<Rightarrow> MarketEngine \<times> Env \<Rightarrow> MarketEngine \<times> Env \<Rightarrow> bool" where
  "guar cfg m s s' \<longleftrightarrow> core_ok cfg m s' \<and>
     (\<forall>m'. m' \<noteq> m \<longrightarrow> getBudget (env_am (snd s')) m' = getBudget (env_am (snd s)) m')"

lemma guar_refl: "core_ok cfg m s \<Longrightarrow> guar cfg m s s"
  by (simp add: guar_def)

lemma guar_trans: "guar cfg m s s1 \<Longrightarrow> guar cfg m s1 s2 \<Longrightarrow> guar cfg m s s2"
  by (simp add: guar_def)

lemma guar_core: "guar cfg m s s' \<Longrightarrow> core_ok cfg m s'"
  by (simp add: guar_def)

lemma engine_ok_token:
  assumes "engine_ok cfg e" "me_buy_token e = Some t"
  shows "tok_ok t" "tok_active t" "tok_has_manager t" "tok_market t = me_market e" "me_sell_uuid e = []"
  using assms by (auto simp: engine_ok_def)

lemma guar_push [pres]: "core_ok cfg m s \<Longrightarrow> guar cfg m s (pushEvent ev (fst s), snd s)"
  by (simp add: guar_def core_ok_def engine_ok_def pushEvent_def)

lemma guar_mark: "core_ok cfg m s \<Longrightarrow> guar cfg m s (snd (markTradeOnce cfg k (fst s)), snd s)"
  by (simp add: guar_def core_ok_def markTradeOnce_ok)

lemma guar_fill_buy:
  assumes "core_ok cfg m s" "me_buy_token (fst s) = Some t" "fin x"
  shows "guar cfg m s (fst s \<lparr> me_buy_token := Some (fst (finalizeFillBuy t x c p (env_am (snd s)))) \<rparr>,
     snd s \<lparr> env_am := snd (finalizeFillBuy t x c p (env_am (snd s))) \<rparr>)"
proof -
  have e: "engine_ok cfg (fst s)" "me_market (fst s) = m" "am_ok (env_am (snd s))" using assms(1) by (auto simp: core_ok_def)
  note t = engine_ok_token [OF e(1) assms(2)]
  show ?thesis using e t finalizeFillBuy_token [OF t(1) assms(3)] assms(2,3)
    by (auto simp: guar_def core_ok_def engine_ok_def am_ok_ops getBudget_finalizeFillBuy)
qed

lemma guar_fill_sell:
  "core_ok cfg m s \<Longrightarrow> fin k \<Longrightarrow> me_market (fst s) = m' \<Longrightarrow>
   guar cfg m s (fst s, snd s \<lparr> env_am := finalizeFillSell m' vol k (env_am (snd s)) \<rparr>)"
  by (auto simp: guar_def core_ok_def am_ok_ops getBudget_finalizeFillSell)

lemma guar_settle:
  assumes "core_ok cfg m s" "amount_ok (t_executed_funds t)" "amount_ok (t_fee t)"
  shows "guar cfg m s (settle_trade t s)"
proof -
  have f: "fin (t_executed_funds t + t_fee t)" "fin (dmax 0 (t_executed_funds t - t_fee t))"
    using assms amount_add amount_diff by auto
  show ?thesis
    using guar_refl [OF assms(1)] guar_fill_buy [OF assms(1) _ f(1)] guar_fill_sell [OF assms(1) f(2)]
    by (auto simp: settle_trade_def Let_def split_beta split: option.split)
qed

lemma guar_trade:
  assumes "core_ok cfg m s" "amount_ok (t_executed_funds t)" "amount_ok (t_fee t)"
  shows "guar cfg m s (onMyTrade cfg t s)"
proof -
  obtain b e1 where mk: "markTradeOnce cfg (makeTradeDedupeKey t) (fst s) = (b, e1)" by fastforce
  have 1: "guar cfg m s (e1, snd s)" using guar_mark [OF assms(1), of "makeTradeDedupeKey t"] by (simp add: mk)
  then have c1: "core_ok cfg m (e1, snd s)" by (rule guar_core)
  have 2: "guar cfg m s (pushEvent ev e1, snd s)" for ev using guar_trans [OF 1 guar_push [OF c1, of ev]] by simp
  have 3: "guar cfg m s (settle_trade t (e2, snd s))" if "guar cfg m s (e2, snd s)" for e2
    using guar_trans [OF that guar_settle [OF guar_core [OF that] assms(2,3)]] .
  show ?thesis using 1 2 3 guar_refl [OF assms(1)] by (auto simp: onMyTrade_def mk split: bool.split option.split)
qed

lemma guar_finalize_token:
  assumes "core_ok cfg m s"
  shows "guar cfg m s (finalizeBuyToken cfg i s)"
proof -
  have e: "engine_ok cfg (fst s)" "me_market (fst s) = m" "am_ok (env_am (snd s))" using assms by (auto simp: core_ok_def)
  show ?thesis
  proof (cases "me_buy_token (fst s)")
    case None
    then show ?thesis using guar_refl [OF assms] by (simp add: finalizeBuyToken_def)
  next
    case (Some t)
    note t = engine_ok_token [OF e(1) Some]
    show ?thesis using guar_refl [OF assms] Some e t
      by (auto simp: finalizeBuyToken_def Let_def split_beta guar_def core_ok_def engine_ok_def am_ok_ops getBudget_finalizeOrder)
  qed
qed

lemma guar_close:
  assumes "core_ok cfg m s"
  shows "guar cfg m s (close_order cfg ord s)"
proof -
  define s1 where "s1 = (if o_position ord = BID \<and> o_id ord = me_buy_uuid (fst s) then finalizeBuyToken cfg (o_id ord) s else s)"
  have 1: "guar cfg m s s1" using guar_finalize_token [OF assms] guar_refl [OF assms] by (simp add: s1_def)
  then have c1: "core_ok cfg m s1" by (rule guar_core)
  define s2 where "s2 = (if o_position ord = ASK \<and> o_id ord = me_sell_uuid (fst s1) then
      (fst s1 \<lparr> me_sell_uuid := [] \<rparr>,
       snd s1 \<lparr> env_am := finalizeSellOrder cfg (me_market (fst s1))
         (if 0 < me_mark (fst s1) then Some (me_mark (fst s1)) else None) (env_am (snd s1)) \<rparr>) else s1)"
  have "guar cfg m s1 s2" using c1
    by (auto simp: s2_def guar_def core_ok_def engine_ok_def am_ok_ops getBudget_finalizeSellOrder)
  with 1 have 2: "guar cfg m s s2" by (rule guar_trans)
  then have "guar cfg m s (pushEvent ev (fst s2), snd s2)" for ev by (rule guar_trans [OF _ guar_push [OF guar_core [OF 2]]])
  then show ?thesis using 2 unfolding close_order_def Let_def s1_def [symmetric] s2_def [symmetric] by simp
qed

lemma close_order_store [simp]: "env_store (snd (close_order cfg ord s)) = env_store (snd s)"
  by (auto simp: close_order_def Let_def finalizeBuyToken_def split_beta split: option.split)

lemma guar_store: "core_ok cfg m (e, env \<lparr> env_store := st \<rparr>) \<longleftrightarrow> core_ok cfg m (e, env)"
  by (simp add: core_ok_def)

lemma guar_set_store: "guar cfg m s s' \<Longrightarrow> guar cfg m s (fst s', snd s' \<lparr> env_store := st \<rparr>)"
  by (simp add: guar_def core_ok_def)

lemma guar_snapshot:
  assumes "core_ok cfg m s"
  shows "guar cfg m s (onOrderSnapshot cfg snapshot s)"
proof (cases "os_get (env_store (snd s)) (o_id snapshot)")
  case None
  then show ?thesis using guar_refl [OF assms] by (simp add: onOrderSnapshot_def)
next
  case (Some old)
  define ord where "ord = merge_snapshot snapshot old"
  define s1 where "s1 = (fst s, snd s \<lparr> env_store := snd (os_update ord (env_store (snd s))) \<rparr>)"
  have c1: "guar cfg m s s1" using assms by (simp add: s1_def guar_def core_ok_def)
  then have A: "guar cfg m s (close_order cfg ord s1)"
    by (rule guar_trans) (rule guar_close [OF guar_core [OF c1]])
  define s2 where "s2 = (if o_status ord \<noteq> o_status old then close_order cfg ord s1 else s1)"
  have "guar cfg m s s2" using A c1 by (simp add: s2_def)
  then have g2: "guar cfg m s (fst s2, snd s2 \<lparr> env_store := st \<rparr>)" for st by (rule guar_set_store)
  have "onOrderSnapshot cfg snapshot s =
     (if o_market snapshot \<noteq> [] \<and> o_market snapshot \<noteq> me_market (fst s) then s
      else if \<not> fst (os_update ord (env_store (snd s))) then s
      else if isDone ord then (fst s2, snd s2 \<lparr> env_store := snd (os_erase (o_id ord) (env_store (snd s2))) \<rparr>)
      else s1)"
    using Some by (simp add: onOrderSnapshot_def Let_def split_beta ord_def s1_def s2_def)
  then show ?thesis using guar_refl [OF assms] c1 g2 by simp
qed

lemma merge_snapshot_fields [simp]:
  "o_id (merge_snapshot sn ord) = o_id ord" "o_status (merge_snapshot sn ord) = o_status sn"
  "o_executed_volume (merge_snapshot sn ord) = o_executed_volume sn"
  "o_executed_funds (merge_snapshot sn ord) = o_executed_funds sn" "o_paid_fee (merge_snapshot sn ord) = o_paid_fee sn"
  "o_position (merge_snapshot sn ord) = o_position sn" "o_type (merge_snapshot sn ord) = o_type sn"
  "o_requested_amount (merge_snapshot sn ord) = o_requested_amount ord"
  by (auto simp: merge_snapshot_def Let_def)

text \<open>The store after a snapshot.\<close>

lemma snapshot_store:
  assumes "store_ok (env_store (snd s))"
  shows "env_store (snd (onOrderSnapshot cfg sn s)) =
     (if o_market sn \<noteq> [] \<and> o_market sn \<noteq> me_market (fst s) then env_store (snd s)
      else case os_get (env_store (snd s)) (o_id sn) of
        None \<Rightarrow> env_store (snd s)
      | Some old \<Rightarrow>
          (let st = snd (os_update (merge_snapshot sn old) (env_store (snd s)))
           in if status_done (o_status sn) then snd (os_erase (o_id sn) st) else st))"
proof -
  have "fst (os_update (merge_snapshot sn old) (env_store (snd s))) \<and> o_id old = o_id sn"
    if "os_get (env_store (snd s)) (o_id sn) = Some old" for old
    using store_ok_get [OF assms that] that by (simp add: os_update_success)
  then show ?thesis
    by (auto simp: onOrderSnapshot_def Let_def split_beta isDone_def split: option.split)
qed

lemma env_ok_snapshot:
  assumes "core_ok cfg m s" "env_ok (snd s)" "order_fin sn"
  shows "env_ok (snd (onOrderSnapshot cfg sn s))"
proof -
  have st: "store_ok (env_store (snd s))" using assms(2) by (simp add: env_ok_def)
  have am: "am_ok (env_am (snd (onOrderSnapshot cfg sn s)))"
    using guar_core [OF guar_snapshot [OF assms(1)]] by (simp add: core_ok_def)
  have fin: "order_fin (merge_snapshot sn ord)" for ord using assms(3) by (simp add: order_fin_def)
  have open_: "\<not> status_done (o_status sn) \<Longrightarrow> isOpen (merge_snapshot sn ord)" for ord
    using isOpen_not_isDone [of "merge_snapshot sn ord"] by (simp add: isDone_def)
  have id: "o_id old = o_id sn" if "os_get (env_store (snd s)) (o_id sn) = Some old" for old
    using store_ok_get [OF st that] by simp
  have "store_ok (env_store (snd (onOrderSnapshot cfg sn s)))"
    unfolding snapshot_store [OF st] using st by (auto simp: Let_def split: option.split)
  moreover have "isOpen ord \<and> order_fin ord"
    if "os_get (env_store (snd (onOrderSnapshot cfg sn s))) k = Some ord" for k ord
    using that assms(2) fin open_ id unfolding snapshot_store [OF st] env_ok_def
    by (auto simp: Let_def split: option.splits if_splits)
  ultimately show ?thesis using am by (auto simp: env_ok_def)
qed

lemma settle_store [simp]: "env_store (snd (settle_trade t s)) = env_store (snd s)"
  by (auto simp: settle_trade_def Let_def split_beta split: option.split)

lemma trade_store [simp]: "env_store (snd (onMyTrade cfg t s)) = env_store (snd s)"
  by (auto simp: onMyTrade_def split: prod.split bool.split option.split)

lemma guar_reserve:
  assumes "core_ok cfg m s" "fin (computeReserveAmount cfg req)"
  shows "guar cfg m s (snd (submit_reserve cfg req s))"
proof -
  have e: "engine_ok cfg (fst s)" "me_market (fst s) = m" "am_ok (env_am (snd s))" using assms(1) by (auto simp: core_ok_def)
  let ?k = "computeReserveAmount cfg req"
  have r: "am_ok (snd (reserve m ?k (env_am (snd s))))" using am_ok_ops(1) e(3) assms(2) .
  have fr: "m' \<noteq> m \<Longrightarrow> getBudget (snd (reserve m ?k (env_am (snd s)))) m' = getBudget (env_am (snd s)) m'" for m'
    by (simp add: getBudget_reserve)
  have t: "tok_ok t \<and> tok_active t \<and> tok_has_manager t \<and> tok_market t = m" if "fst (reserve m ?k (env_am (snd s))) = Some t" for t
    using reserve_token [OF that] tok_ok_new [OF assms(2)] reserve_succeeds [of m ?k "env_am (snd s)"] that
    by (auto simp: token_new_def)
  show ?thesis using guar_refl [OF assms(1)] e r fr t
    by (auto simp: submit_reserve_def Let_def emplace_token_def token_move_def guar_def core_ok_def engine_ok_def
        split: prod.split option.split)
qed

lemma submit_reserve_store [simp]: "env_store (snd (snd (submit_reserve cfg req s))) = env_store (snd s)"
  by (auto simp: submit_reserve_def Let_def emplace_token_def token_move_def split: prod.split option.split)

lemma submit_reserve_proceeds:
  assumes "fst (submit_reserve cfg req s) = None"
  shows "rq_position req = BID \<Longrightarrow> me_buy_token (fst (snd (submit_reserve cfg req s))) \<noteq> None"
    "rq_position req = ASK \<Longrightarrow> me_buy_token (fst (snd (submit_reserve cfg req s))) = None"
    "me_sell_uuid (fst (snd (submit_reserve cfg req s))) = []"
  using assms by (auto simp: submit_reserve_def Let_def emplace_token_def token_move_def split: prod.splits option.splits if_splits)

lemma guar_finish:
  assumes "core_ok cfg m s" "rq_position req = BID \<Longrightarrow> me_buy_token (fst s) \<noteq> None"
    "rq_position req = ASK \<Longrightarrow> me_buy_token (fst s) = None"
  shows "guar cfg m s (snd (submit_finish req answer s))"
proof -
  have e: "engine_ok cfg (fst s)" "me_market (fst s) = m" "am_ok (env_am (snd s))" using assms(1) by (auto simp: core_ok_def)
  show ?thesis
  proof (cases answer)
    case (Inl msg)
    show ?thesis
    proof (cases "rq_position req = BID")
      case True
      then obtain t where t: "me_buy_token (fst s) = Some t" using assms(2) by auto
      note tk = engine_ok_token [OF e(1) t]
      show ?thesis using Inl True t tk e
        by (auto simp: submit_finish_def Let_def split_beta guar_def core_ok_def engine_ok_def am_ok_ops getBudget_release)
    next
      case False
      then show ?thesis using Inl guar_refl [OF assms(1)] by (simp add: submit_finish_def Let_def)
    qed
  next
    case (Inr i)
    then show ?thesis using assms(2,3) e
      by (cases "rq_position req") (auto simp: submit_finish_def Let_def guar_def core_ok_def engine_ok_def)
  qed
qed

lemma guar_submit:
  assumes "core_ok cfg m s" "fin (computeReserveAmount cfg req)"
  shows "guar cfg m s (snd (submit cfg post req s))"
proof -
  have 1: "guar cfg m s (snd (submit_reserve cfg req s))" by (rule guar_reserve [OF assms])
  have 2: "guar cfg m s (snd (submit_finish req answer (snd (submit_reserve cfg req s))))"
    if "fst (submit_reserve cfg req s) = None" for answer
    using submit_reserve_proceeds [OF that] by (intro guar_trans [OF 1] guar_finish [OF guar_core [OF 1]])
  show ?thesis using guar_refl [OF assms(1)] 1 2
    by (auto simp: submit_def split: option.split prod.split)
qed

lemma submit_store:
  "env_store (snd (snd (submit cfg post req s))) = env_store (snd s) \<or>
   (\<exists>i. env_store (snd (snd (submit cfg post req s))) = os_upsert (submitted_order req i) (env_store (snd s)))"
  by (auto simp: submit_def submit_finish_def Let_def split_beta split: option.split prod.split sum.split)

lemma submitted_order_open: "isOpen (submitted_order req i) \<and> order_fin (submitted_order req i)"
  by (simp add: submitted_order_def isOpen_def status_open_def order_fin_def)

lemma env_ok_upsert:
  assumes "env_ok env" "isOpen ord" "order_fin ord" "am_ok am"
  shows "env_ok \<lparr> env_am = am, env_store = os_upsert ord (env_store env) \<rparr>"
proof (cases "o_id ord = []")
  case True
  then show ?thesis using assms by (simp add: env_ok_def os_upsert_def)
next
  case False
  then show ?thesis using assms by (auto simp: env_ok_def)
qed

lemma guar_reconcile:
  assumes "core_ok cfg m s" "env_ok (snd s)" "order_fin sn"
  shows "guar cfg m s (snd (reconcileFromSnapshot cfg sn s)) \<and> env_ok (snd (snd (reconcileFromSnapshot cfg sn s)))"
proof (cases "os_get (env_store (snd s)) (o_id sn)")
  case None
  then show ?thesis using guar_refl [OF assms(1)] assms(2) by (simp add: reconcileFromSnapshot_def Let_def)
next
  case (Some prev)
  then have p: "order_fin prev" using assms(2) by (auto simp: env_ok_def)
  define vol where "vol = dmax 0 (o_executed_volume sn - o_executed_volume prev)"
  define fu where "fu = dmax 0 (o_executed_funds sn - o_executed_funds prev)"
  define fe where "fe = dmax 0 (o_paid_fee sn - o_paid_fee prev)"
  have f: "fin (fu + fe)" "fin (dmax 0 (fu - fe))"
    using delta_sum_fin [of "o_executed_funds sn" "o_executed_funds prev" "o_paid_fee sn" "o_paid_fee prev"] p assms(3)
    by (auto simp: fu_def fe_def order_fin_def)
  define P where "P = (\<lambda>s'. guar cfg m s s' \<and> env_ok (snd s'))"
  have snap: "P (onOrderSnapshot cfg sn s1)" if "guar cfg m s s1" "env_store (snd s1) = env_store (snd s)" for s1
  proof -
    note c = guar_core [OF that(1)]
    have "env_ok (snd s1)" using c that(2) assms(2) by (simp add: env_ok_def core_ok_def)
    then show ?thesis using guar_trans [OF that(1) guar_snapshot [OF c]] env_ok_snapshot [OF c _ assms(3)] by (simp add: P_def)
  qed
  have none: "P s" using guar_refl [OF assms(1)] assms(2) by (simp add: P_def)
  define s_buy where "s_buy = (\<lambda>tok. (fst s \<lparr> me_buy_token := Some (fst (finalizeFillBuy tok (fu + fe) vol (fu / vol) (env_am (snd s)))) \<rparr>,
     snd s \<lparr> env_am := snd (finalizeFillBuy tok (fu + fe) vol (fu / vol) (env_am (snd s))) \<rparr>))"
  define s_sell where "s_sell = (fst s, snd s \<lparr> env_am := finalizeFillSell (me_market (fst s)) vol (dmax 0 (fu - fe)) (env_am (snd s)) \<rparr>)"
  have r: "snd (reconcileFromSnapshot cfg sn s) \<in>
      {s, onOrderSnapshot cfg sn s, onOrderSnapshot cfg sn s_sell} \<union>
      {onOrderSnapshot cfg sn (s_buy tok) | tok. me_buy_token (fst s) = Some tok}"
    using Some by (auto simp: reconcileFromSnapshot_def vol_def fu_def fe_def s_buy_def s_sell_def Let_def split_beta split: option.split)
  have "P (onOrderSnapshot cfg sn (s_buy tok))" if "me_buy_token (fst s) = Some tok" for tok
    using guar_fill_buy [OF assms(1) that f(1)] by (intro snap) (simp_all add: s_buy_def)
  moreover have "P (onOrderSnapshot cfg sn s_sell)"
    using guar_fill_sell [OF assms(1) f(2)] by (intro snap) (simp_all add: s_sell_def)
  moreover have "P (onOrderSnapshot cfg sn s)" using guar_refl [OF assms(1)] by (intro snap) simp_all
  ultimately have "P (snd (reconcileFromSnapshot cfg sn s))" using r none by auto
  then show ?thesis by (simp add: P_def)
qed

lemma engine_step_ok:
  assumes "core_ok cfg m s" "env_ok (snd s)" "in_valid cfg inp"
  shows "guar cfg m s (engine_step cfg inp s) \<and> env_ok (snd (engine_step cfg inp s))"
proof (cases inp)
  case (InSubmit req answer)
  have g: "guar cfg m s (engine_step cfg inp s)" using guar_submit [OF assms(1)] assms(3) InSubmit by simp
  then have am: "am_ok (env_am (snd (engine_step cfg inp s)))" using guar_core by (auto simp: core_ok_def)
  have "env_ok (snd (engine_step cfg inp s))"
    using submit_store [of cfg "\<lambda>_. answer" req s] InSubmit am assms(2) submitted_order_open
      env_ok_upsert [OF assms(2), of "submitted_order req _" "env_am (snd (engine_step cfg inp s))"]
    by (auto simp: env_ok_def)
  with g show ?thesis by simp
next
  case (InTrade t)
  then have g: "guar cfg m s (engine_step cfg inp s)" using guar_trade [OF assms(1)] assms(3) by simp
  then show ?thesis using guar_core [OF g] assms(2) InTrade by (auto simp: env_ok_def core_ok_def)
next
  case (InSnapshot sn)
  then show ?thesis using guar_snapshot [OF assms(1)] env_ok_snapshot [OF assms(1,2)] assms(3) by simp
next
  case (InReconcile sn)
  then show ?thesis using guar_reconcile [OF assms(1,2)] assms(3) by simp
next
  case (InMark p)
  then show ?thesis using assms by (simp add: guar_def core_ok_def engine_ok_def setMarkPrice_def)
next
  case InPoll
  then show ?thesis using assms by (simp add: guar_def core_ok_def engine_ok_def pollEvents_def)
qed

lemma reach_inv: "reach cfg m s \<Longrightarrow> core_ok cfg m s \<and> env_ok (snd s)"
proof (induction rule: reach.induct)
  case (start env)
  then show ?case by (simp add: core_ok_def engine_ok_def me_new_def env_ok_def)
next
  case (step s inp)
  then show ?case using engine_step_ok guar_core by blast
next
  case (others e env env')
  then show ?case by (auto simp: rely_def core_ok_def env_ok_def)
qed

subsection \<open>The window of seen trades over several steps\<close>

lemma fifo_other [simp]:
  "me_fifo (fst (settle_trade t s)) = me_fifo (fst s)"
  "me_fifo (fst (close_order cfg ord s)) = me_fifo (fst s)"
  "me_seen (fst (settle_trade t s)) = me_seen (fst s)"
  by (auto simp: settle_trade_def close_order_def finalizeBuyToken_def pushEvent_def Let_def split_beta split: option.split)

lemma fifo_snapshot [simp]: "me_fifo (fst (onOrderSnapshot cfg sn s)) = me_fifo (fst s)"
  by (auto simp: onOrderSnapshot_def Let_def split_beta split: option.split)

lemma fifo_reconcile [simp]: "me_fifo (fst (snd (reconcileFromSnapshot cfg sn s))) = me_fifo (fst s)"
  by (auto simp: reconcileFromSnapshot_def Let_def split_beta split: option.split)

lemma fifo_submit [simp]: "me_fifo (fst (snd (submit cfg post req s))) = me_fifo (fst s)"
proof -
  have "me_fifo (fst (snd (submit_reserve cfg req s))) = me_fifo (fst s)"
    by (auto simp: submit_reserve_def Let_def emplace_token_def token_move_def split: prod.split option.split)
  moreover have "me_fifo (fst (snd (submit_finish req answer s1))) = me_fifo (fst s1)" for answer s1
    by (auto simp: submit_finish_def Let_def split_beta split: sum.split option.split)
  ultimately show ?thesis by (auto simp: submit_def split: option.split prod.split)
qed

lemma fifo_trade:
  assumes "core_ok cfg m s"
  shows "me_fifo (fst (onMyTrade cfg t s)) =
    (if t_market t \<noteq> me_market (fst s) \<or> makeTradeDedupeKey t = [] \<or> makeTradeDedupeKey t \<in> set (me_fifo (fst s))
     then me_fifo (fst s) else last_n (max_seen_trades cfg) (me_fifo (fst s) @ [makeTradeDedupeKey t]))"
proof -
  have "me_seen (fst s) = set (me_fifo (fst s))" "distinct (me_fifo (fst s))"
    using assms by (auto simp: core_ok_def engine_ok_def)
  then show ?thesis
    by (auto simp: onMyTrade_def markTradeOnce_eq pushEvent_def split: option.split)
qed

definition recent :: "nat \<Rightarrow> string \<Rightarrow> MarketEngine \<Rightarrow> bool" where
  "recent n k e \<longleftrightarrow> k \<in> set (last_n n (me_fifo e))"

fun is_trade :: "engine_in \<Rightarrow> bool" where
  "is_trade (InTrade t) = True"
| "is_trade inp = False"

lemma last_n_last_n: "last_n n (last_n k xs) = last_n (min n k) xs"
proof -
  have "(length xs - (length xs - k) - n) + (length xs - k) = length xs - min n k" by linarith
  then show ?thesis by (simp add: last_n_def)
qed

lemma set_last_n_mono: "n \<le> k \<Longrightarrow> set (last_n n xs) \<subseteq> set (last_n k xs)"
  by (simp add: last_n_def set_drop_subset_set_drop)

lemma recent_step:
  assumes "core_ok cfg m s" "recent n k (fst s)" "n < max_seen_trades cfg"
  shows "recent (if is_trade inp then n + 1 else n) k (fst (engine_step cfg inp s))"
proof (cases inp)
  case (InTrade t)
  have a: "k \<in> set (last_n (n + 1) (me_fifo (fst s)))"
    using assms(2) set_last_n_mono [of n "n + 1" "me_fifo (fst s)"] by (auto simp: recent_def)
  have "last_n (n + 1) (last_n (max_seen_trades cfg) (me_fifo (fst s) @ [x])) = last_n n (me_fifo (fst s)) @ [x]" for x
  proof -
    have "min (n + 1) (max_seen_trades cfg) = n + 1" using assms(3) by simp
    then show ?thesis by (simp only: last_n_last_n) (simp add: last_n_def)
  qed
  then show ?thesis using InTrade a assms(2) by (auto simp: recent_def fifo_trade [OF assms(1)])
qed (use assms in \<open>auto simp: recent_def setMarkPrice_def pollEvents_def\<close>)

lemma no_trade_run:
  assumes "core_ok cfg m s" "env_ok (snd s)" "filter is_trade inps = []" "\<forall>inp \<in> set inps. in_valid cfg inp"
  shows "core_ok cfg m (fold (engine_step cfg) inps s) \<and> me_fifo (fst (fold (engine_step cfg) inps s)) = me_fifo (fst s)"
  using assms
proof (induction inps arbitrary: s)
  case (Cons inp inps)
  have ok: "core_ok cfg m (engine_step cfg inp s)" "env_ok (snd (engine_step cfg inp s))"
    using engine_step_ok [OF Cons.prems(1,2), of inp] Cons.prems(4) by (auto intro: guar_core)
  have "\<not> is_trade inp" using Cons.prems(3) by (auto split: if_splits)
  then have "me_fifo (fst (engine_step cfg inp s)) = me_fifo (fst s)"
    by (cases inp) (auto simp: setMarkPrice_def pollEvents_def)
  then show ?case using Cons.IH [OF ok] Cons.prems(3,4) by (auto split: if_splits)
qed simp

lemma recent_run:
  assumes "core_ok cfg m s" "env_ok (snd s)" "recent n k (fst s)" "\<forall>inp \<in> set inps. in_valid cfg inp"
    "n + length (filter is_trade inps) \<le> max_seen_trades cfg" "n < max_seen_trades cfg"
  shows "core_ok cfg m (fold (engine_step cfg) inps s) \<and> k \<in> set (me_fifo (fst (fold (engine_step cfg) inps s)))"
  using assms
proof (induction inps arbitrary: s n)
  case Nil
  then show ?case using set_last_n [of n "me_fifo (fst s)"] by (auto simp: recent_def)
next
  case (Cons inp inps)
  let ?s = "engine_step cfg inp s"
  have v: "in_valid cfg inp" using Cons.prems(4) by simp
  have ok: "core_ok cfg m ?s" "env_ok (snd ?s)"
    using engine_step_ok [OF Cons.prems(1,2) v] guar_core by blast+
  have r: "recent (if is_trade inp then n + 1 else n) k (fst ?s)" by (rule recent_step [OF Cons.prems(1,3,6)])
  show ?case
  proof (cases "(if is_trade inp then n + 1 else n) < max_seen_trades cfg")
    case True
    then show ?thesis using Cons.IH [OF ok r] Cons.prems(4,5) by (auto split: if_splits)
  next
    case False
    then have "is_trade inp" using Cons.prems(6) by (auto split: if_splits)
    moreover have "filter is_trade inps = []"
    proof -
      have "length (filter is_trade (inp # inps)) = length (filter is_trade inps) + 1" using calculation by simp
      moreover have "max_seen_trades cfg \<le> n + 1" using False calculation by (simp split: if_splits)
      ultimately have "length (filter is_trade inps) = 0" using Cons.prems(5) by linarith
      then show ?thesis by (simp only: length_0_conv)
    qed
    moreover have "recent (n + 1) k (fst ?s)" using r \<open>is_trade inp\<close> by simp
    ultimately show ?thesis using no_trade_run [OF ok _ Cons.prems(4) [unfolded list.set ball_simps, THEN conjunct2]]
        set_last_n [of "n + 1" "me_fifo (fst ?s)"] by (auto simp: recent_def)
  qed
qed

end
