(* ===== verification/EngineProperties.thy ===== *)
theory EngineProperties
  imports MarketEngine
begin

text \<open>
  The properties of the market engine (theory \<open>MarketEngine\<close>): safety of the reachable states, isolation of the
  engines from each other as a rely/guarantee pair, exactly-once settlement of fills, what a failed
  submission and a terminal snapshot leave behind, idempotence of the reconciliation, and the sequence in which a
  reconciliation and a late fill settle the same execution twice.
\<close>

definition test_config :: AppConfig where
  "test_config = default_config \<lparr> reserve_margin := 1 \<rparr>"

definition test_env :: Env where
  "test_env = \<lparr> env_am = example_am, env_store = [] \<rparr>"

definition buy_request :: OrderRequest where
  "buy_request = \<lparr> rq_market = ''KRW-BTC'', rq_position = BID, rq_type = Market, rq_size = AmountSize (D 50000),
     rq_price = None, rq_strategy_id = ''rsi'', rq_identifier = ''id1'', rq_client_tag = [] \<rparr>"

lemma am_ok_example: "am_ok example_am"
  by (rule am_new_ok [OF _ _ example_am_eq]) (simp_all add: example_account_def)

lemma test_env_ok: "env_ok test_env"
  by (simp add: env_ok_def test_env_def am_ok_example os_get_def)

lemma reach_start: "reach test_config ''KRW-BTC'' (me_new ''KRW-BTC'', test_env)"
  by (rule reach.start [OF test_env_ok])

lemma example_budget_btc:
  "getBudget example_am ''KRW-BTC'' = Some ((zero_budget ''KRW-BTC'') \<lparr> mb_available_krw := D 100000, mb_initial_capital := D 100000 \<rparr>)"
  by (simp add: getBudget_def example_am_budgets)

text \<open>The state after the buy request has been accepted by the exchange as order \<open>u1\<close>.\<close>

definition bought :: "MarketEngine \<times> Env" where
  "bought = engine_step test_config (InSubmit buy_request (Inr ''u1'')) (me_new ''KRW-BTC'', test_env)"

lemma reserve_amount_buy [simp]: "computeReserveAmount test_config buy_request = D 50000"
  by (simp add: computeReserveAmount_def test_config_def buy_request_def)

lemma valid_buy [simp]: "validateRequest buy_request = None"
  by (simp add: validateRequest_def buy_request_def)

lemma reach_bought: "reach test_config ''KRW-BTC'' bought"
  unfolding bought_def by (rule reach.step [OF reach_start]) simp

definition bought_am :: AccountManager where
  "bought_am = snd (reserve ''KRW-BTC'' (D 50000) example_am)"

lemma reserve_bought:
  "reserve ''KRW-BTC'' (D 50000) example_am = (Some (token_new ''KRW-BTC'' (D 50000) (am_next_token_id example_am)), bought_am)"
proof -
  have "fst (reserve ''KRW-BTC'' (D 50000) example_am) \<noteq> None"
    by (subst reserve_succeeds) (simp add: example_budget_btc zero_budget_def)
  then obtain t where t: "fst (reserve ''KRW-BTC'' (D 50000) example_am) = Some t" by auto
  then show ?thesis using reserve_token [OF t] by (simp add: bought_am_def prod_eq_iff)
qed

lemma bought_eq:
  "bought = ((me_new ''KRW-BTC'') \<lparr> me_buy_token := Some (token_new ''KRW-BTC'' (D 50000) (am_next_token_id example_am)),
       me_buy_uuid := ''u1'' \<rparr>,
     \<lparr> env_am = bought_am, env_store = [(''u1'', submitted_order buy_request ''u1'')] \<rparr>)"
  unfolding bought_def
  by (simp add: submit_def submit_reserve_def submit_finish_def reserve_bought Let_def emplace_token_def token_move_def
      me_new_def test_env_def os_upsert_def) (simp_all add: buy_request_def submitted_order_def)

section \<open>Safety\<close>

text \<open>
  C2: In every reachable state of a market engine, whatever the strategy, the exchange, the recovery and the other
  engines do: a buy and a sell of the market are never in flight together; a buy order in flight owns an
  active reservation of this market whose consumption does not exceed it; the order store holds only
  orders that are not terminal; no budget is negative; and the memory of settled trades stays within
  its limit.
\<close>

theorem engine_safety:
  assumes "reach cfg m (e, env)"
  shows "(me_buy_token e = None \<or> me_sell_uuid e = []) \<and>
     (me_buy_uuid e \<noteq> [] \<longrightarrow> (\<exists>t. me_buy_token e = Some t \<and> tok_active t \<and> tok_market t = m \<and> tok_consumed t \<le> tok_amount t)) \<and>
     (\<forall>k ord. os_get (env_store env) k = Some ord \<longrightarrow> \<not> isDone ord) \<and>
     (\<forall>m' b. getBudget (env_am env) m' = Some b \<longrightarrow> 0 \<le> mb_available_krw b \<and> 0 \<le> mb_reserved_krw b) \<and>
     card (me_seen e) \<le> max_seen_trades cfg"
proof -
  have i: "core_ok cfg m (e, env)" "env_ok env" using reach_inv [OF assms] by auto
  then have e: "engine_ok cfg e" "me_market e = m" "am_ok (env_am env)" by (auto simp: core_ok_def)
  have "card (me_seen e) \<le> max_seen_trades cfg" using e(1) by (auto simp: engine_ok_def distinct_card)
  then show ?thesis using e i(2) isOpen_not_isDone
    by (auto simp: engine_ok_def env_ok_def am_ok_def budget_nonneg_def tok_ok_def)
qed

theorem engine_safety_witness:
  "me_sell_uuid (fst bought) = [] \<and> me_buy_uuid (fst bought) = ''u1''
   \<and> (\<exists>t. me_buy_token (fst bought) = Some t \<and> tok_active t \<and> tok_market t = ''KRW-BTC'')"
  using engine_safety [of test_config "''KRW-BTC''" "fst bought" "snd bought"] reach_bought
  by (simp add: bought_eq)

text \<open>
  The engines do not disturb each other. A step of the engine of one market, from any reachable state and with any
  valid input, is for the engine of every other market a step it relies on: the shared account
  manager and order store stay consistent and the other market's budget is unchanged.
\<close>

theorem engine_guarantees_rely:
  assumes "reach cfg m (e, env)" "in_valid cfg inp" "m' \<noteq> m"
  shows "rely m' env (snd (engine_step cfg inp (e, env)))"
  using engine_step_ok [OF conjunct1 [OF reach_inv [OF assms(1)]] conjunct2 [OF reach_inv [OF assms(1)]] assms(2)] assms(3)
  by (auto simp: rely_def guar_def)

theorem engine_guarantees_rely_witness:
  "rely ''KRW-ETH'' test_env (snd bought)"
  using engine_guarantees_rely [OF reach_start, of "InSubmit buy_request (Inr ''u1'')" "''KRW-ETH''"]
  by (simp add: bought_def)

section \<open>Fills are settled once\<close>

lemma onMyTrade_seen: "makeTradeDedupeKey t \<in> me_seen (fst s) \<Longrightarrow> onMyTrade cfg t s = s"
  by (simp add: onMyTrade_def markTradeOnce_def prod_eq_iff)

text \<open>
  C8: A fill is settled at most once. After a new fill of the market has been processed, delivering it again has no effect
  at all on the engine, the budgets and the store, whatever happened in between - submissions,
  snapshots, reconciliations, other fills - as long as fewer than \<open>max_seen_trades\<close> other fills came in
  between. The key is the trade uuid or, without one, the fallback key made of the fill's fields.
\<close>

theorem trade_settled_once:
  assumes "reach cfg m s" "in_valid cfg (InTrade t)" "t_market t = m" "makeTradeDedupeKey t \<notin> me_seen (fst s)"
    "\<forall>inp \<in> set inps. in_valid cfg inp" "length (filter is_trade inps) < max_seen_trades cfg"
  shows "onMyTrade cfg t (fold (engine_step cfg) inps (onMyTrade cfg t s)) = fold (engine_step cfg) inps (onMyTrade cfg t s)"
proof -
  let ?k = "makeTradeDedupeKey t" and ?s = "onMyTrade cfg t s"
  have k: "?k \<noteq> []" by (simp add: makeTradeDedupeKey_def)
  have i: "core_ok cfg m s" "env_ok (snd s)" using reach_inv [OF assms(1)] by auto
  have st: "engine_step cfg (InTrade t) s = ?s" by simp
  have ok: "core_ok cfg m ?s" "env_ok (snd ?s)"
    using guar_core [OF conjunct1 [OF engine_step_ok [OF i assms(2)]]] conjunct2 [OF engine_step_ok [OF i assms(2)]]
    unfolding st by auto
  have mkt: "me_market (fst s) = m" "me_seen (fst s) = set (me_fifo (fst s))" using i by (auto simp: core_ok_def engine_ok_def)
  have r1: "recent 1 ?k (fst ?s)" using assms(3,4,6) k mkt
    by (simp add: recent_def fifo_trade [OF i(1)] last_n_last_n min_def) (auto simp: last_n_def)
  have "?k \<in> set (me_fifo (fst (fold (engine_step cfg) inps ?s))) \<and> core_ok cfg m (fold (engine_step cfg) inps ?s)"
  proof (cases "1 < max_seen_trades cfg")
    case True
    then show ?thesis using recent_run [OF ok r1 assms(5)] assms(6) by simp
  next
    case False
    then have "filter is_trade inps = []" using assms(6) by (cases "filter is_trade inps") auto
    then show ?thesis using no_trade_run [OF ok _ assms(5)] r1 set_last_n [of 1 "me_fifo (fst ?s)"] by (auto simp: recent_def)
  qed
  then have "?k \<in> me_seen (fst (fold (engine_step cfg) inps ?s))" by (auto simp: core_ok_def engine_ok_def)
  then show ?thesis by (rule onMyTrade_seen)
qed

definition fill_u1 :: MyTrade where
  "fill_u1 = \<lparr> t_order_uuid = ''u1'', t_trade_uuid = ''t1'', t_market = ''KRW-BTC'', t_side = BID, t_price = D 1000,
     t_volume = D 10, t_executed_funds = D 10000, t_fee = 0, t_is_maker = None, t_trade_timestamp_ms = 0,
     t_identifier = None, t_strategy_id = None, t_client_tag = None \<rparr>"

lemma amount_ok_small [simp]: "rep q \<Longrightarrow> \<bar>q\<bar> \<le> 2 ^ 99 \<Longrightarrow> amount_ok (D q)"
  by (simp add: amount_ok_def)

theorem trade_settled_once_witness:
  "onMyTrade test_config fill_u1 (onMyTrade test_config fill_u1 bought) = onMyTrade test_config fill_u1 bought"
  using trade_settled_once [OF reach_bought, of fill_u1 "[]"]
  by (simp add: fill_u1_def bought_eq me_new_def test_config_def default_config_def)

section \<open>What a failed submission leaves behind\<close>

text \<open>
  A submission the exchange refuses (or that the engine refuses itself) leaves no trace: the engine holds the same
  token and order ids, the order store is unchanged, nothing stays reserved, and the free KRW is what it was
  up to the rounding of one subtraction and one addition.
\<close>

theorem failed_submit_restores:
  assumes "reach cfg m (e, env)" "fin (computeReserveAmount cfg req)" "getBudget (env_am env) m = Some b"
    "mb_reserved_krw b = 0" "amount_ok (mb_available_krw b)"
    "submit cfg (\<lambda>_. Inl msg) req (e, env) = (r, e', env')"
  shows "\<not> er_success r \<and> me_buy_token e' = me_buy_token e \<and> me_sell_uuid e' = me_sell_uuid e \<and>
     env_store env' = env_store env \<and>
     (\<exists>b'. getBudget (env_am env') m = Some b' \<and> mb_reserved_krw b' = 0 \<and> mb_coin_balance b' = mb_coin_balance b \<and>
        \<bar>val (mb_available_krw b') - val (mb_available_krw b)\<bar> \<le> 3 * val (mb_available_krw b) / 2 ^ 53)"
proof -
  have i: "core_ok cfg m (e, env)" "env_ok env" using reach_inv [OF assms(1)] by auto
  then have e: "engine_ok cfg e" "me_market e = m" "am_ok (env_am env)" by (auto simp: core_ok_def)
  let ?k = "computeReserveAmount cfg req"
  have nn: "0 \<le> val (mb_available_krw b)" "fin (mb_available_krw b)"
  proof -
    show f: "fin (mb_available_krw b)" using assms(5) by (simp add: amount_ok_def)
    have "0 \<le> mb_available_krw b" using e(3) assms(3) by (auto simp: am_ok_def budget_nonneg_def)
    then show "0 \<le> val (mb_available_krw b)" using f by (simp add: fin_val_le)
  qed
  have same: "\<bar>val (mb_available_krw b) - val (mb_available_krw b)\<bar> \<le> 3 * val (mb_available_krw b) / 2 ^ 53" using nn by simp
  show ?thesis
  proof (cases "rq_position req = BID \<and> validateRequest req = None \<and> rq_market req = m \<and> me_buy_token e = None \<and>
      me_sell_uuid e = [] \<and> fst (reserve m ?k (env_am env)) \<noteq> None")
    case False
    have rn: "getBudget am' m' = getBudget am m'" if "reserve x k am = (None, am')" for x k am am' m'
      using getBudget_reserve [of x k am m'] that by simp
    show ?thesis using False assms(3,4,6) e(2) same
      by (auto simp: rn submit_def submit_reserve_def submit_finish_def Let_def Fail_def getBudget_reserve
          split: option.splits prod.splits if_splits OrderPosition.splits)
  next
    case True
    then obtain t where t: "fst (reserve m ?k (env_am env)) = Some t" by auto
    note tk = reserve_token [OF t]
    have k: "\<not> ?k \<le> 0" "\<not> mb_available_krw b < ?k" using reserve_succeeds [of m ?k "env_am env"] t assms(3) by auto
    then have vk: "0 \<le> val ?k" "val ?k \<le> val (mb_available_krw b)" using assms(2) nn by (auto simp: fin_val_le fin_val_less)
    let ?b1 = "b \<lparr> mb_available_krw := mb_available_krw b - ?k, mb_reserved_krw := ?k \<rparr>"
    have b1: "getBudget (snd (reserve m ?k (env_am env))) m = Some ?b1"
      using getBudget_reserve [of m ?k "env_am env" m] t assms(3,4) by simp
    have rem: "token_remaining t = ?k" "tok_active t" "tok_market t = m" by (simp_all add: tk token_remaining_def token_new_def)
    have b2: "getBudget (snd (release t (snd (reserve m ?k (env_am env))))) m = Some (release_budget ?k ?b1)"
      by (simp add: getBudget_release rem b1)
    have out: "\<not> er_success r" "me_buy_token e' = None" "me_sell_uuid e' = []" "env_store env' = env_store env"
      "env_am env' = snd (release t (snd (reserve m ?k (env_am env))))"
      using assms(6) True t e(2)
      by (auto simp: submit_def submit_reserve_def submit_finish_def Let_def Fail_def emplace_token_def token_move_def split_beta
          split: prod.splits)
    have fr: "fin (mb_available_krw b - ?k)" using nn assms(2) vk by (intro fin_diff_nonneg) (auto simp: fin_val_le)
    have e1: "\<bar>val (mb_available_krw b - ?k) - (val (mb_available_krw b) - val ?k)\<bar> \<le> val (mb_available_krw b) / 2 ^ 53"
      using ddiff_error [OF nn(2) assms(2) fr] vk by (auto intro!: order.trans [OF _ divide_right_mono [of "\<bar>val (mb_available_krw b) - val ?k\<bar>"]])
    have sm: "val (mb_available_krw b - ?k) + val ?k \<le> 2 * val (mb_available_krw b)" "0 \<le> val (mb_available_krw b - ?k) + val ?k"
      using e1 vk nn unfolding abs_le_iff by auto
    have "val (mb_available_krw b) \<le> 2 ^ 99" using assms(5) by (auto simp: amount_ok_def abs_le_iff)
    then have fs: "fin (mb_available_krw b - ?k + ?k)" using fr assms(2) sm
      by (subst fin_add) (auto intro!: fin_D_big)
    have e2: "\<bar>val (mb_available_krw b - ?k + ?k) - (val (mb_available_krw b - ?k) + val ?k)\<bar> \<le> 2 * val (mb_available_krw b) / 2 ^ 53"
      using dadd_error [OF fr assms(2) fs] sm by (auto intro!: order.trans [OF _ divide_right_mono [of "\<bar>val (mb_available_krw b - ?k) + val ?k\<bar>"]])
    have "\<bar>val (mb_available_krw b - ?k + ?k) - val (mb_available_krw b)\<bar> \<le> 3 * val (mb_available_krw b) / 2 ^ 53"
      using e1 e2 unfolding abs_le_iff by (auto simp: field_simps)
    then show ?thesis using out True b2 assms(2) by (simp add: release_budget_def Let_def)
  qed
qed

theorem failed_submit_restores_witness:
  "\<exists>b'. getBudget (env_am (snd (snd (submit test_config (\<lambda>_. Inl ''timeout'') buy_request (me_new ''KRW-BTC'', test_env))))) ''KRW-BTC'' = Some b'
     \<and> mb_reserved_krw b' = 0"
proof -
  obtain r e' env' where s: "submit test_config (\<lambda>_. Inl ''timeout'') buy_request (me_new ''KRW-BTC'', test_env) = (r, e', env')"
    using prod_cases3 by blast
  show ?thesis
    using failed_submit_restores [OF reach_start _ _ _ _ s] example_budget_btc s
    by (auto simp: test_env_def zero_budget_def)
qed

section \<open>Terminal orders\<close>

lemma finalizeBuyToken_active:
  assumes "engine_ok cfg (fst s)" "me_buy_token (fst s) = Some t" "me_buy_uuid (fst s) = i" "i \<noteq> []"
  shows "finalizeBuyToken cfg i s = (fst s \<lparr> me_buy_token := None, me_buy_uuid := [] \<rparr>,
     snd s \<lparr> env_am := snd (finalizeOrder cfg t (env_am (snd s))) \<rparr>)"
  using assms by (simp add: finalizeBuyToken_def Let_def split_beta)

text \<open>
  C10: A terminal snapshot of the buy in flight closes it completely: from any reachable state the order leaves the store,
  the engine has no buy any more (so the next submission is accepted again), the budget is the one
  \<open>finalizeOrder\<close> leaves for the token - the unspent part of the reservation is free again -, the
  other budgets are unchanged, and the strategy is told the final status and volumes exactly once.
\<close>

theorem terminal_buy_closes:
  assumes "reach cfg m (e, env)" "os_get (env_store env) (o_id sn) = Some old" "o_market sn = m \<or> o_market sn = []"
    "status_done (o_status sn)" "o_position sn = BID" "me_buy_uuid e = o_id sn" "o_identifier old = Some i" "i \<noteq> []"
    "onOrderSnapshot cfg sn (e, env) = (e', env')"
  shows "\<exists>t. me_buy_token e = Some t \<and> me_buy_token e' = None \<and> me_buy_uuid e' = [] \<and>
     os_get (env_store env') (o_id sn) = None \<and>
     env_am env' = snd (finalizeOrder cfg t (env_am env)) \<and>
     (\<exists>ev. me_events e' = me_events e @ [StatusEv ev] \<and> es_identifier ev = i \<and> es_status ev = o_status sn \<and>
        es_executed_volume ev = o_executed_volume sn)"
proof -
  have i: "core_ok cfg m (e, env)" "env_ok env" using reach_inv [OF assms(1)] by auto
  then have e: "engine_ok cfg e" "me_market e = m" "store_ok (env_store env)" by (auto simp: core_ok_def env_ok_def)
  have oid: "o_id old = o_id sn" "o_id sn \<noteq> []" using store_ok_get [OF e(3) assms(2)] by auto
  obtain t where t: "me_buy_token e = Some t" using e(1) assms(6) oid(2) by (auto simp: engine_ok_def)
  have "isOpen old" using i(2) assms(2) by (auto simp: env_ok_def)
  then have ne: "o_status old \<noteq> o_status sn" using assms(4) by (auto simp: isOpen_def status_open_def status_done_def)
  define ord where "ord = merge_snapshot sn old"
  have ord: "o_id ord = o_id sn" "o_status ord = o_status sn" "o_position ord = BID" "o_identifier ord = Some i"
    "o_executed_volume ord = o_executed_volume sn"
    using oid assms(5,7) by (auto simp: ord_def) (auto simp: merge_snapshot_def Let_def)
  have u: "fst (os_update ord (env_store env))" using assms(2) ord by (simp add: os_update_success)
  define s1 where "s1 = (e, env \<lparr> env_store := snd (os_update ord (env_store env)) \<rparr>)"
  have fb: "finalizeBuyToken cfg (o_id sn) s1 = (e \<lparr> me_buy_token := None, me_buy_uuid := [] \<rparr>,
      snd s1 \<lparr> env_am := snd (finalizeOrder cfg t (env_am env)) \<rparr>)"
    using finalizeBuyToken_active [of cfg s1 t "o_id sn"] e(1) t assms(6) oid(2) by (simp add: s1_def)
  have c: "close_order cfg ord s1 = (pushEvent (status_event cfg ord (finalizeBuyToken cfg (o_id sn) s1)) (fst (finalizeBuyToken cfg (o_id sn) s1)),
      snd (finalizeBuyToken cfg (o_id sn) s1))"
    using ord assms(6,8) by (simp add: close_order_def Let_def s1_def)
  have "onOrderSnapshot cfg sn (e, env) = (fst (close_order cfg ord s1),
      snd (close_order cfg ord s1) \<lparr> env_store := snd (os_erase (o_id ord) (env_store (snd (close_order cfg ord s1)))) \<rparr>)"
    using assms(2-4) e(2) u ne ord(2)
    by (auto simp: onOrderSnapshot_def Let_def split_beta ord_def [symmetric] s1_def isDone_def)
  then have "e' = pushEvent (status_event cfg ord (finalizeBuyToken cfg (o_id sn) s1)) (e \<lparr> me_buy_token := None, me_buy_uuid := [] \<rparr>)"
    "env_am env' = snd (finalizeOrder cfg t (env_am env))" "os_get (env_store env') (o_id sn) = None"
    using assms(9) fb ord(1) unfolding c by auto
  then show ?thesis using t ord by (auto simp: pushEvent_def status_event_def)
qed

definition done_u1 :: Order where
  "done_u1 = (submitted_order buy_request ''u1'') \<lparr> o_status := Filled, o_executed_volume := D 50, o_executed_funds := D 50000 \<rparr>"

theorem terminal_buy_closes_witness:
  "me_buy_token (fst (onOrderSnapshot test_config done_u1 bought)) = None
   \<and> me_buy_uuid (fst (onOrderSnapshot test_config done_u1 bought)) = []"
proof -
  obtain e' env' where s: "onOrderSnapshot test_config done_u1 (fst bought, snd bought) = (e', env')" by fastforce
  show ?thesis
    using terminal_buy_closes [OF _ _ _ _ _ _ _ _ s, of "''KRW-BTC''" "submitted_order buy_request ''u1''" "''id1''"] reach_bought s
    by (auto simp: bought_eq done_u1_def submitted_order_def buy_request_def status_done_def os_get_def)
qed

section \<open>Reconciliation\<close>

lemma reconcile_cases:
  "reconcileFromSnapshot cfg sn s = (False, s) \<or>
   ((o_market sn = [] \<or> o_market sn = me_market (fst s)) \<and> os_get (env_store (snd s)) (o_id sn) \<noteq> None \<and>
    (\<exists>x. reconcileFromSnapshot cfg sn s = (True, onOrderSnapshot cfg sn x) \<and>
       x \<in> {s} \<union> range (\<lambda>am. (fst s, snd s \<lparr> env_am := am \<rparr>))
         \<union> range (\<lambda>(tok, am). (fst s \<lparr> me_buy_token := tok \<rparr>, snd s \<lparr> env_am := am \<rparr>))))"
  (is "?R = _ \<or> (?A \<and> ?B \<and> (\<exists>x. _ \<and> x \<in> ?X))")
proof (cases "os_get (env_store (snd s)) (o_id sn)")
  case (Some prev)
  define vol where "vol = dmax 0 (o_executed_volume sn - o_executed_volume prev)"
  define fu where "fu = dmax 0 (o_executed_funds sn - o_executed_funds prev)"
  define fe where "fe = dmax 0 (o_paid_fee sn - o_paid_fee prev)"
  define s_buy where "s_buy = (\<lambda>tok. (fst s \<lparr> me_buy_token := Some (fst (finalizeFillBuy tok (fu + fe) vol (fu / vol) (env_am (snd s)))) \<rparr>,
     snd s \<lparr> env_am := snd (finalizeFillBuy tok (fu + fe) vol (fu / vol) (env_am (snd s))) \<rparr>))"
  define s_sell where "s_sell = (fst s, snd s \<lparr> env_am := finalizeFillSell (me_market (fst s)) vol (dmax 0 (fu - fe)) (env_am (snd s)) \<rparr>)"
  have X: "s \<in> ?X" "s_sell \<in> ?X" "s_buy tok \<in> ?X" for tok
    by (auto simp: s_sell_def s_buy_def intro: rev_image_eqI)
  have "?R = (False, s) \<or> ?A \<and> (?R = (True, onOrderSnapshot cfg sn s) \<or> ?R = (True, onOrderSnapshot cfg sn s_sell) \<or>
      (\<exists>tok. ?R = (True, onOrderSnapshot cfg sn (s_buy tok))))"
    using Some by (auto simp: reconcileFromSnapshot_def vol_def fu_def fe_def s_buy_def s_sell_def Let_def split_beta split: option.split)
  then show ?thesis using X Some by blast
qed (simp add: reconcileFromSnapshot_def Let_def)

lemma reconcile_refused: "\<not> fst (reconcileFromSnapshot cfg sn s) \<Longrightarrow> snd (reconcileFromSnapshot cfg sn s) = s"
  using reconcile_cases [of cfg sn s] by auto

lemma reconcile_applied:
  assumes "fst (reconcileFromSnapshot cfg sn s)"
  shows "\<exists>x. snd (reconcileFromSnapshot cfg sn s) = onOrderSnapshot cfg sn x \<and> env_store (snd x) = env_store (snd s) \<and>
     me_market (fst x) = me_market (fst s) \<and> (o_market sn = [] \<or> o_market sn = me_market (fst s)) \<and>
     os_get (env_store (snd s)) (o_id sn) \<noteq> None"
proof -
  from reconcile_cases [of cfg sn s] assms obtain x where x: "reconcileFromSnapshot cfg sn s = (True, onOrderSnapshot cfg sn x)"
    "x \<in> {s} \<union> range (\<lambda>am. (fst s, snd s \<lparr> env_am := am \<rparr>)) \<union> range (\<lambda>(tok, am). (fst s \<lparr> me_buy_token := tok \<rparr>, snd s \<lparr> env_am := am \<rparr>))"
    and m: "o_market sn = [] \<or> o_market sn = me_market (fst s)" "os_get (env_store (snd s)) (o_id sn) \<noteq> None"
    by force
  have "env_store (snd x) = env_store (snd s)" "me_market (fst x) = me_market (fst s)" using x(2) by auto
  then show ?thesis using x(1) m by (intro exI [of _ x]) simp
qed

text \<open>
  Reconciling is idempotent: injecting the same snapshot of the exchange's cumulative values a second time settles
  nothing more, whether the first one was applied, refused or closed the order.
\<close>

theorem reconcile_idempotent:
  assumes "reach cfg m s" "order_fin sn" "fin (o_executed_volume sn)"
  defines "s1 \<equiv> snd (reconcileFromSnapshot cfg sn s)"
  shows "env_am (snd (snd (reconcileFromSnapshot cfg sn s1))) = env_am (snd s1)"
proof -
  have i: "core_ok cfg m s" "env_ok (snd s)" using reach_inv [OF assms(1)] by auto
  have s1: "core_ok cfg m s1" "env_ok (snd s1)" using guar_reconcile [OF i assms(2)] guar_core unfolding s1_def by blast+
  have st1: "store_ok (env_store (snd s1))" using s1 by (simp add: env_ok_def)
  have noop: "env_am (snd (onOrderSnapshot cfg sn x)) = env_am (snd x)" if "\<not> status_done (o_status sn)" for x
    using that by (auto simp: onOrderSnapshot_def Let_def split_beta isDone_def split: option.split)
  have zero: "env_am (snd (snd (reconcileFromSnapshot cfg sn x))) = env_am (snd x)"
    if "\<not> status_done (o_status sn)" "\<And>old. os_get (env_store (snd x)) (o_id sn) = Some old \<Longrightarrow> o_executed_volume old = o_executed_volume sn" for x
    using that assms(3) noop
    by (auto simp: reconcileFromSnapshot_def Let_def dmax_def split: option.split)
  show ?thesis
  proof (cases "fst (reconcileFromSnapshot cfg sn s)")
    case False
    then have "s1 = s" unfolding s1_def by (rule reconcile_refused)
    then show ?thesis using False by (simp add: reconcile_refused)
  next
    case True
    then obtain x where x: "s1 = onOrderSnapshot cfg sn x" "env_store (snd x) = env_store (snd s)" "me_market (fst x) = me_market (fst s)"
      "o_market sn = [] \<or> o_market sn = me_market (fst s)" "os_get (env_store (snd s)) (o_id sn) \<noteq> None"
      using reconcile_applied [of cfg sn s] unfolding s1_def by blast
    have st: "store_ok (env_store (snd x))" using i(2) x(2) by (simp add: env_ok_def)
    obtain old where old: "os_get (env_store (snd s)) (o_id sn) = Some old" using x(5) by auto
    have id: "o_id old = o_id sn" using store_ok_get [OF _ old] i(2) by (auto simp: env_ok_def)
    have g: "os_get (env_store (snd s1)) (o_id sn) = (if status_done (o_status sn) then None else Some (merge_snapshot sn old))"
      using snapshot_store [OF st, of cfg sn] x old id by (auto simp: Let_def)
    show ?thesis
    proof (cases "status_done (o_status sn)")
      case True
      then show ?thesis using g by (auto simp: reconcileFromSnapshot_def Let_def)
    next
      case False
      then show ?thesis using g by (intro zero) auto
    qed
  qed
qed

definition partial_u1 :: Order where
  "partial_u1 = (submitted_order buy_request ''u1'') \<lparr> o_status := Open, o_executed_volume := D 10, o_executed_funds := D 10000 \<rparr>"

theorem reconcile_idempotent_witness:
  "env_am (snd (snd (reconcileFromSnapshot test_config partial_u1 (snd (reconcileFromSnapshot test_config partial_u1 bought)))))
   = env_am (snd (snd (reconcileFromSnapshot test_config partial_u1 bought)))"
  using reconcile_idempotent [OF reach_bought, of partial_u1]
  by (simp add: partial_u1_def order_fin_def submitted_order_def)

lemma bought_budget:
  "getBudget bought_am ''KRW-BTC'' = Some ((zero_budget ''KRW-BTC'')
     \<lparr> mb_available_krw := D 50000, mb_reserved_krw := D 50000, mb_initial_capital := D 100000 \<rparr>)"
  using getBudget_reserve [of "''KRW-BTC''" "D 50000" example_am "''KRW-BTC''"]
  by (simp add: reserve_bought example_budget_btc zero_budget_def)

definition token_u1 :: ReservationToken where
  "token_u1 = token_new ''KRW-BTC'' (D 50000) (am_next_token_id example_am)"

lemma fill_amount_u1 [simp]: "fill_amount token_u1 (D 10000) (D 10) (D 1000) = Some (D 10000)"
  by (simp add: fill_amount_def token_u1_def token_new_def token_remaining_def)

lemma fill_amount_u1' [simp]: "fill_amount (addConsumed (D 10000) token_u1) (D 10000) (D 10) (D 1000) = Some (D 10000)"
  by (simp add: fill_amount_def token_u1_def token_new_def token_remaining_def addConsumed_def Let_def)

lemma token_u1_market [simp]: "tok_market token_u1 = ''KRW-BTC''" "tok_market (addConsumed e token_u1) = ''KRW-BTC''"
  by (simp_all add: token_u1_def token_new_def addConsumed_def Let_def)

definition reconciled :: "MarketEngine \<times> Env" where
  "reconciled = snd (reconcileFromSnapshot test_config partial_u1 bought)"

lemma reconciled_eq:
  "me_market (fst reconciled) = ''KRW-BTC''" "me_seen (fst reconciled) = {}" "me_fifo (fst reconciled) = []"
  "me_buy_uuid (fst reconciled) = ''u1''"
  "me_buy_token (fst reconciled) = Some (addConsumed (D 10000) token_u1)"
  "env_am (snd reconciled) = snd (finalizeFillBuy token_u1 (D 10000) (D 10) (D 1000) bought_am)"
  "os_get (env_store (snd reconciled)) ''u1'' \<noteq> None"
proof -
  have st: "os_get [(''u1'', submitted_order buy_request ''u1'')] ''u1'' = Some (submitted_order buy_request ''u1'')"
    by (simp add: os_get_def)
  define am1 where "am1 = snd (finalizeFillBuy token_u1 (D 10000) (D 10) (D 1000) bought_am)"
  have f: "finalizeFillBuy token_u1 (D 10000) (D 10) (D 1000) bought_am =
    (addConsumed (D 10000) token_u1, am1)"
    by (simp add: am1_def finalizeFillBuy_eq bought_budget)
  have p: "o_id partial_u1 = ''u1''" "o_market partial_u1 = ''KRW-BTC''" "o_executed_volume partial_u1 = D 10"
    "o_executed_funds partial_u1 = D 10000" "o_paid_fee partial_u1 = 0" "o_position partial_u1 = BID" "o_status partial_u1 = Open"
    by (simp_all add: partial_u1_def submitted_order_def buy_request_def)
  have q: "o_executed_volume (submitted_order buy_request ''u1'') = 0" "o_executed_funds (submitted_order buy_request ''u1'') = 0"
    "o_paid_fee (submitted_order buy_request ''u1'') = 0" "o_id (submitted_order buy_request ''u1'') = ''u1''"
    by (simp_all add: submitted_order_def)
  define s1 where "s1 = (fst bought \<lparr> me_buy_token := Some (addConsumed (D 10000) token_u1) \<rparr>,
    snd bought \<lparr> env_am := am1 \<rparr>)"
  have r: "reconciled = onOrderSnapshot test_config partial_u1 s1"
    unfolding reconciled_def
    by (simp add: reconcileFromSnapshot_def Let_def bought_eq st p q dmax_def f s1_def me_new_def flip: token_u1_def)
  have o: "onOrderSnapshot test_config partial_u1 s1 = (fst s1, snd s1 \<lparr> env_store :=
      snd (os_update (merge_snapshot partial_u1 (submitted_order buy_request ''u1'')) (env_store (snd s1))) \<rparr>)"
    by (simp add: onOrderSnapshot_def s1_def bought_eq st p q me_new_def Let_def os_update_def isDone_def status_done_def)
  show "me_market (fst reconciled) = ''KRW-BTC''" "me_seen (fst reconciled) = {}" "me_fifo (fst reconciled) = []"
    "me_buy_uuid (fst reconciled) = ''u1''"
    "me_buy_token (fst reconciled) = Some (addConsumed (D 10000) token_u1)"
    "env_am (snd reconciled) = snd (finalizeFillBuy token_u1 (D 10000) (D 10) (D 1000) bought_am)"
    "os_get (env_store (snd reconciled)) ''u1'' \<noteq> None"
    unfolding r o am1_def [symmetric] by (simp_all add: s1_def bought_eq me_new_def q st)
qed

text \<open>
  C21: A reconciliation and a late fill settle the same execution twice. The exchange has executed 10 coins of the buy for
  10,000 KRW. The recovery injects the exchange's cumulative values (10 coins are settled), and then the message of
  that very fill, still queued from before the reconnection, is processed: its trade uuid has never been
  seen, so the 10 coins are settled again. The budget ends with 20 coins and 20,000 KRW consumed. The
  reconciliation does not record which fills it has covered.
\<close>

theorem late_fill_settled_twice:
  "(\<exists>b. getBudget (env_am (snd reconciled)) ''KRW-BTC'' = Some b \<and> mb_coin_balance b = D 10 \<and> mb_reserved_krw b = D 40000) \<and>
   (\<exists>b. getBudget (env_am (snd (onMyTrade test_config fill_u1 reconciled))) ''KRW-BTC'' = Some b \<and>
      mb_coin_balance b = D 20 \<and> mb_reserved_krw b = D 30000)"
proof -
  have 1: "getBudget (env_am (snd reconciled)) ''KRW-BTC'' = Some ((zero_budget ''KRW-BTC'')
     \<lparr> mb_available_krw := D 50000, mb_reserved_krw := D 40000, mb_coin_balance := D 10, mb_avg_entry_price := D 1000,
       mb_initial_capital := D 100000 \<rparr>)"
    by (simp add: reconciled_eq getBudget_finalizeFillBuy bought_budget buy_budget_def zero_budget_def Let_def)
  obtain ord where ord: "os_get (env_store (snd reconciled)) ''u1'' = Some ord" using reconciled_eq(7) by auto
  have mk: "markTradeOnce test_config ''t1'' (fst reconciled) =
    (True, fst reconciled \<lparr> me_seen := {''t1''}, me_fifo := [''t1''] \<rparr>)"
    by (simp add: markTradeOnce_def reconciled_eq test_config_def default_config_def)
  have 2: "env_am (snd (onMyTrade test_config fill_u1 reconciled)) =
    snd (finalizeFillBuy (addConsumed (D 10000) token_u1) (D 10000) (D 10) (D 1000) (env_am (snd reconciled)))"
    by (simp add: onMyTrade_def fill_u1_def makeTradeDedupeKey_def reconciled_eq(1,4,5) mk ord settle_trade_def pushEvent_def Let_def split_beta
        split: option.split)
  show ?thesis unfolding 2
    by (simp add: 1 getBudget_finalizeFillBuy buy_budget_def zero_budget_def Let_def)
qed

end
