(* ===== verification/StrategyMachine.thy ===== *)
theory StrategyMachine
  imports Strategy
begin

text \<open>
  The strategy as a state machine: its inputs, the states it can reach, the invariant of those states, and the order
  life cycle it refines.
\<close>

section \<open>Inputs and reachable states\<close>

datatype strat_in =
    InCandle string Candle AccountSnapshot
  | InIntrabar string double AccountSnapshot
  | InFill FillEvent
  | InStatus int64 OrderStatusEvent
  | InSubmitFailed
  | InSync PositionSnapshot
  | InReset
  | InCallback bool

datatype strat_out = OutOrder OrderRequest | OutSignal SignalRecord

definition order_out :: "Decision \<times> Strategy \<Rightarrow> strat_out list \<times> Strategy" where
  "order_out r = (case dn_order (fst r) of None \<Rightarrow> [] | Some req \<Rightarrow> [OutOrder req], snd r)"

fun strat_step :: "AppConfig \<Rightarrow> strat_in \<Rightarrow> Strategy \<Rightarrow> strat_out list \<times> Strategy" where
  "strat_step cfg (InCandle uuid c a) s = order_out (onCandle cfg uuid c a s)"
| "strat_step cfg (InIntrabar uuid close a) s = order_out (onIntrabarCandle cfg uuid close a s)"
| "strat_step cfg (InFill f) s = ([], onFill f s)"
| "strat_step cfg (InStatus now ev) s = (map OutSignal (fst (onOrderUpdate now ev s)), snd (onOrderUpdate now ev s))"
| "strat_step cfg InSubmitFailed s = ([], onSubmitFailed s)"
| "strat_step cfg (InSync p) s = ([], syncOnStart p s)"
| "strat_step cfg InReset s = ([], strategy_reset s)"
| "strat_step cfg (InCallback b) s = ([], setSignalCallback b s)"

text \<open>A run from \<open>s\<close> to \<open>s'\<close> over inputs, with everything emitted.\<close>

inductive strat_run :: "AppConfig \<Rightarrow> Strategy \<Rightarrow> strat_in list \<Rightarrow> strat_out list \<Rightarrow> Strategy \<Rightarrow> bool" for cfg where
  run_nil: "strat_run cfg s [] [] s"
| run_step: "strat_step cfg i s = (outs, s1) \<Longrightarrow> strat_run cfg s1 is rest s' \<Longrightarrow> strat_run cfg s (i # is) (outs @ rest) s'"

inductive_simps strat_run_nil [simp]: "strat_run cfg s [] outs s'"
inductive_cases strat_run_consE: "strat_run cfg s (i # is) outs s'"

definition strat_reach :: "AppConfig \<Rightarrow> string \<Rightarrow> Params \<Rightarrow> Strategy \<Rightarrow> bool" where
  "strat_reach cfg m p s \<longleftrightarrow> (\<exists>is outs. strat_run cfg (strategy_new m p) is outs s)"

section \<open>The invariant\<close>

definition stop_level :: "Params \<Rightarrow> double \<Rightarrow> double" where
  "stop_level p e = e * (1 - dmax 0 (pr_stopLossPct p) / D 100)"

definition target_level :: "Params \<Rightarrow> double \<Rightarrow> double" where
  "target_level p e = e * (1 + dmax 0 (pr_profitTargetPct p) / D 100)"

definition pending_ok :: "Strategy \<Rightarrow> bool" where
  "pending_ok s \<longleftrightarrow> (st_pending_client_id s = None \<longleftrightarrow> st_state s = Flat \<or> st_state s = InPosition) \<and>
     (st_pending_client_id s = None \<longrightarrow> st_pending_filled_volume s = 0 \<and> st_pending_cost_sum s = 0
        \<and> st_pending_last_price s = 0 \<and> st_pending_exit_reason s = [])"

definition prices_ok :: "Params \<Rightarrow> Strategy \<Rightarrow> bool" where
  "prices_ok p s \<longleftrightarrow>
     (st_state s = Flat \<or> st_state s = PendingEntry \<longrightarrow> st_entry_price s = None) \<and>
     st_stop_price s = map_option (stop_level p) (st_entry_price s) \<and>
     st_target_price s = map_option (target_level p) (st_entry_price s)"

definition strat_ok :: "string \<Rightarrow> Params \<Rightarrow> Strategy \<Rightarrow> bool" where
  "strat_ok m p s \<longleftrightarrow> st_market s = m \<and> st_params s = p \<and> pending_ok s \<and> prices_ok p s"

lemmas strat_simps =
  clearPendingState_def clear_prices_def set_entry_def setStopsFromEntry_def Let_def
  pending_ok_def prices_ok_def stop_level_def target_level_def

lemma ok_new: "strat_ok m p (strategy_new m p)"
  by (simp add: strategy_new_def strategy_reset_def strat_ok_def strat_simps)

lemma ok_reset: "strat_ok m p s \<Longrightarrow> strat_ok m p (strategy_reset s)"
  by (simp add: strategy_reset_def strat_ok_def strat_simps)

lemma ok_sync: "strat_ok m p s \<Longrightarrow> strat_ok m p (syncOnStart pos s)"
  by (simp add: syncOnStart_def strat_ok_def strat_simps)

lemma ok_fill: "strat_ok m p s \<Longrightarrow> strat_ok m p (onFill f s)"
  by (auto simp: onFill_def strat_ok_def strat_simps)

lemma ok_failed: "strat_ok m p s \<Longrightarrow> strat_ok m p (onSubmitFailed s)"
  by (cases "st_state s") (auto simp: onSubmitFailed_def strat_ok_def strat_simps)

lemma ok_callback: "strat_ok m p s \<Longrightarrow> strat_ok m p (setSignalCallback b s)"
  by (simp add: setSignalCallback_def strat_ok_def strat_simps)

lemma ok_status: "strat_ok m p s \<Longrightarrow> strat_ok m p (snd (onOrderUpdate now ev s))"
  by (cases "st_state s") (auto simp: onOrderUpdate_def rollback_def strat_ok_def strat_simps split: option.split)

lemma ok_identifier: "strat_ok m p s \<Longrightarrow> strat_ok m p (snd (makeIdentifier tag uuid s))"
  by (simp add: makeIdentifier_def strat_ok_def strat_simps)

text \<open>The indicators and the last time stamp are outside of the invariant.\<close>

lemma ok_frame:
  assumes "strat_ok m p s" "st_market t = st_market s" "st_params t = st_params s" "st_state t = st_state s"
    "st_pending_client_id t = st_pending_client_id s" "st_pending_exit_reason t = st_pending_exit_reason s"
    "st_pending_filled_volume t = st_pending_filled_volume s" "st_pending_cost_sum t = st_pending_cost_sum s"
    "st_pending_last_price t = st_pending_last_price s" "st_entry_price t = st_entry_price s"
    "st_stop_price t = st_stop_price s" "st_target_price t = st_target_price s"
  shows "strat_ok m p t"
  using assms by (simp add: strat_ok_def pending_ok_def prices_ok_def)

lemma ok_snapshot: "strat_ok m p s \<Longrightarrow> strat_ok m p (snd (buildSnapshot c (s \<lparr> st_last_candle_ts := t \<rparr>)))"
  by (erule ok_frame) (simp_all add: buildSnapshot_def Let_def split_beta)

lemma ok_reconcile: "strat_ok m p s \<Longrightarrow> strat_ok m p (reconcile_state cfg coin close s)"
  by (auto simp: reconcile_state_def strat_ok_def strat_simps)

lemma ok_enter: "strat_ok m p s \<Longrightarrow> st_state s = Flat \<Longrightarrow> strat_ok m p (snd (maybeEnter cfg uuid sn a s))"
  by (auto simp: maybeEnter_def makeIdentifier_def start_pending_def strat_ok_def strat_simps)

lemma ok_exit: "strat_ok m p s \<Longrightarrow> st_state s = InPosition \<Longrightarrow> strat_ok m p (snd (maybeExit cfg uuid sn a s))"
  by (auto simp: maybeExit_def makeIdentifier_def start_pending_def strat_ok_def strat_simps split_beta)

lemma ok_candle: "strat_ok m p s \<Longrightarrow> strat_ok m p (snd (onCandle cfg uuid c a s))"
  by (auto simp: onCandle_def Let_def split_beta intro!: ok_enter ok_exit ok_reconcile ok_snapshot
      split: StrategyState.split)

lemma ok_intrabar: "strat_ok m p s \<Longrightarrow> strat_ok m p (snd (onIntrabarCandle cfg uuid close a s))"
  by (auto simp: onIntrabarCandle_def makeIdentifier_def start_pending_def strat_ok_def strat_simps split: option.split)

lemma ok_step: "strat_ok m p s \<Longrightarrow> strat_ok m p (snd (strat_step cfg i s))"
  by (cases i) (auto simp: order_out_def intro: ok_reset ok_sync ok_fill ok_failed ok_status ok_candle ok_intrabar ok_callback)

lemma ok_run: "strat_run cfg s is outs s' \<Longrightarrow> strat_ok m p s \<Longrightarrow> strat_ok m p s'"
  by (induction rule: strat_run.induct) (simp, metis ok_step snd_conv)

lemma reach_ok: "strat_reach cfg m p s \<Longrightarrow> strat_ok m p s"
  unfolding strat_reach_def using ok_run ok_new by blast


section \<open>The life cycle of an order\<close>

text \<open>
  What the strategy promises about its orders, without indicators, prices or sums: it is out of the market, or it
  waits for the buy order \<open>cid\<close>, holds a position, or waits for the sell order \<open>cid\<close>. An order leaves only from
  the two states without a pending order, and a pending order is given up only when its final status arrives, when
  the submission failed, or when the strategy is started again.
\<close>

datatype phase = Out | Buying string | Holding | Selling string

fun pending_of :: "phase \<Rightarrow> string option" where
  "pending_of (Buying cid) = Some cid"
| "pending_of (Selling cid) = Some cid"
| "pending_of _ = None"

definition final_status :: "string \<Rightarrow> OrderStatusEvent \<Rightarrow> bool" where
  "final_status cid ev \<longleftrightarrow> ou_identifier ev = cid \<and> status_done (ou_status ev)"

fun resolves :: "string \<Rightarrow> strat_in \<Rightarrow> bool" where
  "resolves cid (InStatus now ev) = final_status cid ev"
| "resolves cid InSubmitFailed = True"
| "resolves cid (InSync pos) = True"
| "resolves cid InReset = True"
| "resolves cid _ = False"

fun is_price :: "strat_in \<Rightarrow> bool" where
  "is_price (InCandle uuid c a) = True"
| "is_price (InIntrabar uuid close a) = True"
| "is_price _ = False"

fun orders_of :: "strat_out list \<Rightarrow> OrderRequest list" where
  "orders_of [] = []"
| "orders_of (OutOrder r # outs) = r # orders_of outs"
| "orders_of (OutSignal sig # outs) = orders_of outs"

lemma orders_of_append [simp]: "orders_of (xs @ ys) = orders_of xs @ orders_of ys"
  by (induction xs rule: orders_of.induct) auto

lemma orders_of_signals [simp]: "orders_of (map OutSignal xs) = []"
  by (induction xs) auto

inductive lifecycle :: "phase \<Rightarrow> strat_in \<Rightarrow> OrderRequest list \<Rightarrow> phase \<Rightarrow> bool" where
  life_buy: "ph = Out \<or> ph = Holding \<Longrightarrow> rq_position r = BID \<Longrightarrow> cid = rq_identifier r \<Longrightarrow>
     lifecycle ph (InCandle uuid c a) [r] (Buying cid)"
| life_sell: "ph = Holding \<or> ph = Out \<and> (\<exists>uuid c a. i = InCandle uuid c a) \<Longrightarrow> is_price i \<Longrightarrow> rq_position r = ASK \<Longrightarrow>
     cid = rq_identifier r \<Longrightarrow> lifecycle ph i [r] (Selling cid)"
| life_watch: "pending_of ph = None \<Longrightarrow> pending_of ph' = None \<Longrightarrow> lifecycle ph (InCandle uuid c a) [] ph'"
| life_idle: "pending_of ph = None \<Longrightarrow> \<not> (\<exists>pos. i = InSync pos) \<Longrightarrow> i \<noteq> InReset \<Longrightarrow> lifecycle ph i [] ph"
| life_wait: "pending_of ph = Some cid \<Longrightarrow> \<not> resolves cid i \<Longrightarrow> lifecycle ph i [] ph"
| life_bought: "final_status cid ev \<Longrightarrow> ou_position_effect ev = EffOpened \<Longrightarrow>
     lifecycle (Buying cid) (InStatus now ev) [] Holding"
| life_not_bought: "final_status cid ev \<Longrightarrow> ou_position_effect ev \<noteq> EffOpened \<Longrightarrow>
     lifecycle (Buying cid) (InStatus now ev) [] Out"
| life_sold: "final_status cid ev \<Longrightarrow> ou_position_effect ev = EffClosed \<Longrightarrow>
     lifecycle (Selling cid) (InStatus now ev) [] Out"
| life_not_sold: "final_status cid ev \<Longrightarrow> ou_position_effect ev \<noteq> EffClosed \<Longrightarrow>
     lifecycle (Selling cid) (InStatus now ev) [] Holding"
| life_buy_failed: "lifecycle (Buying cid) InSubmitFailed [] Out"
| life_sell_failed: "lifecycle (Selling cid) InSubmitFailed [] Holding"
| life_sync: "ph' = (if hasPosition pos \<and> 0 < ps_avg_entry_price pos then Holding else Out) \<Longrightarrow>
     lifecycle ph (InSync pos) [] ph'"
| life_reset: "lifecycle ph InReset [] Out"

inductive_cases life_waitE: "lifecycle (Buying cid) i rs ph'" "lifecycle (Selling cid) i rs ph'"

definition phase_of :: "Strategy \<Rightarrow> phase" where
  "phase_of s = (case st_state s of
       Flat \<Rightarrow> Out
     | PendingEntry \<Rightarrow> Buying (the (st_pending_client_id s))
     | InPosition \<Rightarrow> Holding
     | PendingExit \<Rightarrow> Selling (the (st_pending_client_id s)))"

lemma pending_of_phase: "pending_ok s \<Longrightarrow> pending_of (phase_of s) = st_pending_client_id s"
  by (cases "st_state s") (auto simp: pending_ok_def phase_of_def)

lemma pending_cases:
  assumes "pending_ok s"
  obtains "st_state s = Flat" "st_pending_client_id s = None"
  | cid where "st_state s = PendingEntry" "st_pending_client_id s = Some cid"
  | "st_state s = InPosition" "st_pending_client_id s = None"
  | cid where "st_state s = PendingExit" "st_pending_client_id s = Some cid"
  using assms by (cases "st_state s") (auto simp: pending_ok_def)

lemma snapshot_frame [simp]:
  "st_state (snd (buildSnapshot c s)) = st_state s"
  "st_pending_client_id (snd (buildSnapshot c s)) = st_pending_client_id s"
  "st_entry_price (snd (buildSnapshot c s)) = st_entry_price s"
  "st_market (snd (buildSnapshot c s)) = st_market s"
  "st_params (snd (buildSnapshot c s)) = st_params s"
  "sn_close (fst (buildSnapshot c s)) = c_close_price c"
  by (simp_all add: buildSnapshot_def Let_def split_beta)

lemma reconcile_frame [simp]:
  "st_pending_client_id (reconcile_state cfg coin close s) = st_pending_client_id s"
  "st_market (reconcile_state cfg coin close s) = st_market s"
  "st_params (reconcile_state cfg coin close s) = st_params s"
  by (simp_all add: reconcile_state_def strat_simps)

lemma reconcile_pending: "st_state s \<noteq> Flat \<Longrightarrow> st_state s \<noteq> InPosition \<Longrightarrow> reconcile_state cfg coin close s = s"
  by (simp add: reconcile_state_def)

lemma reconcile_phase:
  "st_state s = Flat \<or> st_state s = InPosition \<Longrightarrow>
   st_state (reconcile_state cfg coin close s) = Flat \<or> st_state (reconcile_state cfg coin close s) = InPosition"
  by (auto simp: reconcile_state_def strat_simps)


subsection \<open>What the decisions are\<close>

definition next_id :: "Strategy \<Rightarrow> string \<Rightarrow> string \<Rightarrow> string" where
  "next_id s tag uuid = strategy_id @ '':'' @ st_market s @ '':'' @ tag @ '':'' @ uuid"

definition buy_order :: "Strategy \<Rightarrow> string \<Rightarrow> double \<Rightarrow> OrderRequest" where
  "buy_order s uuid amount =
     \<lparr> rq_market = st_market s, rq_position = BID, rq_type = Market, rq_size = AmountSize amount, rq_price = None,
       rq_strategy_id = strategy_id, rq_identifier = next_id s ''entry_rsi_oversold'' uuid,
       rq_client_tag = ''entry_rsi_oversold'' \<rparr>"

definition sell_order :: "Strategy \<Rightarrow> string \<Rightarrow> string \<Rightarrow> double \<Rightarrow> OrderRequest" where
  "sell_order s tag uuid volume =
     \<lparr> rq_market = st_market s, rq_position = ASK, rq_type = Market, rq_size = VolumeSize volume, rq_price = None,
       rq_strategy_id = strategy_id, rq_identifier = next_id s tag uuid, rq_client_tag = tag \<rparr>"

lemma order_fields [simp]:
  "rq_position (buy_order s uuid amount) = BID" "rq_position (sell_order s tag uuid v) = ASK"
  "rq_identifier (buy_order s uuid amount) = next_id s ''entry_rsi_oversold'' uuid"
  "rq_identifier (sell_order s tag uuid v) = next_id s tag uuid"
  "rq_market (buy_order s uuid amount) = st_market s" "rq_market (sell_order s tag uuid v) = st_market s"
  by (simp_all add: buy_order_def sell_order_def)

definition bump :: "Strategy \<Rightarrow> Strategy" where
  "bump s = s \<lparr> st_seq := st_seq s + 1 \<rparr>"

lemma enter_result:
  obtains "maybeEnter cfg uuid sn a s = (noAction, s)"
  | amount where "maybeEnter cfg uuid sn a s =
       (submit_decision (buy_order s uuid amount),
        start_pending PendingEntry (next_id s ''entry_rsi_oversold'' uuid) sn (bump s))"
     "amount = as_krw_available a / reserve_margin cfg * pr_utilization (st_params s)"
     "\<not> amount < min_notional_krw cfg" "\<not> amount \<le> 0" "canBuy a"
  by (cases "maybeEnter cfg uuid sn a s = (noAction, s)")
    (auto simp: maybeEnter_def Let_def makeIdentifier_def buy_order_def next_id_def bump_def makeMarketBuyByAmount_def
      split: if_splits)

lemma exit_result:
  obtains "maybeExit cfg uuid sn a s = (noAction, s)" | "maybeExit cfg uuid sn a s = (noAction, bump s)"
  | tag where "maybeExit cfg uuid sn a s =
       (submit_decision (sell_order s tag uuid (as_coin_available a)),
        (start_pending PendingExit (next_id s tag uuid) sn (bump s)) \<lparr> st_pending_exit_reason := tag \<rparr>)"
     "\<not> as_coin_available a * sn_close sn < min_notional_krw cfg" "canSell a"
proof (cases "maybeExit cfg uuid sn a s = (noAction, s) \<or> maybeExit cfg uuid sn a s = (noAction, bump s)")
  case False
  obtain hs ht where h: "stop_target_hits (sn_close sn) s = (hs, ht)" by fastforce
  show ?thesis using False
    by (auto simp: maybeExit_def Let_def h makeIdentifier_def sell_order_def next_id_def bump_def
        makeMarketSellByVolume_def split: if_splits intro: that)
qed (use that in auto)

lemma intrabar_result:
  obtains "onIntrabarCandle cfg uuid close a s = (noAction, s)"
  | tag where "onIntrabarCandle cfg uuid close a s =
       (submit_decision (sell_order s tag uuid (as_coin_available a)),
        (start_pending PendingExit (next_id s tag uuid) (empty_snapshot \<lparr> sn_close := close \<rparr>) (bump s))
          \<lparr> st_pending_exit_reason := tag \<rparr>)"
     "\<not> as_coin_available a * close < min_notional_krw cfg" "canSell a" "st_state s = InPosition"
  by (cases "onIntrabarCandle cfg uuid close a s = (noAction, s)")
    (auto simp: onIntrabarCandle_def Let_def makeIdentifier_def sell_order_def next_id_def bump_def
      makeMarketSellByVolume_def split: if_splits option.splits)

lemma order_out_simps [simp]:
  "order_out (noAction, s) = ([], s)" "order_out (submit_decision r, s) = ([OutOrder r], s)"
  by (simp_all add: order_out_def noAction_def submit_decision_def)

lemma snd_order_out [simp]: "snd (order_out r) = snd r"
  by (simp add: order_out_def)

lemma start_pending_state [simp]:
  "st_state (start_pending st cid sn s) = st" "st_pending_client_id (start_pending st cid sn s) = Some cid"
  by (simp_all add: start_pending_def)

lemma bump_state [simp]: "st_state (bump s) = st_state s" "st_pending_client_id (bump s) = st_pending_client_id s"
  by (simp_all add: bump_def)

text \<open>The snapshot and the corrected state with which a candle is decided.\<close>

definition candle_sn :: "Candle \<Rightarrow> Strategy \<Rightarrow> Snapshot" where
  "candle_sn c s = fst (buildSnapshot c (s \<lparr> st_last_candle_ts := Some (c_start_timestamp c) \<rparr>))"

definition candle_fed :: "Candle \<Rightarrow> Strategy \<Rightarrow> Strategy" where
  "candle_fed c s = snd (buildSnapshot c (s \<lparr> st_last_candle_ts := Some (c_start_timestamp c) \<rparr>))"

definition candle_state :: "AppConfig \<Rightarrow> Candle \<Rightarrow> AccountSnapshot \<Rightarrow> Strategy \<Rightarrow> Strategy" where
  "candle_state cfg c a s = reconcile_state cfg (as_coin_available a) (sn_close (candle_sn c s)) (candle_fed c s)"

definition accepts :: "Candle \<Rightarrow> Strategy \<Rightarrow> bool" where
  "accepts c s \<longleftrightarrow> c_market c = st_market s \<and> st_last_candle_ts s \<noteq> Some (c_start_timestamp c)"

lemma candle_skipped: "\<not> accepts c s \<Longrightarrow> onCandle cfg uuid c a s = (noAction, s)"
  by (auto simp: onCandle_def accepts_def)

lemma candle_decided: "accepts c s \<Longrightarrow> onCandle cfg uuid c a s =
   (case st_state (candle_state cfg c a s) of
      Flat \<Rightarrow> maybeEnter cfg uuid (candle_sn c s) a (candle_state cfg c a s)
    | PendingEntry \<Rightarrow> (noAction, candle_state cfg c a s)
    | InPosition \<Rightarrow> maybeExit cfg uuid (candle_sn c s) a (candle_state cfg c a s)
    | PendingExit \<Rightarrow> (noAction, candle_state cfg c a s))"
  unfolding onCandle_def accepts_def candle_state_def candle_sn_def candle_fed_def Let_def split_beta by simp

lemma candle_frame [simp]:
  "st_state (candle_fed c s) = st_state s" "st_pending_client_id (candle_fed c s) = st_pending_client_id s"
  "st_market (candle_fed c s) = st_market s" "st_params (candle_fed c s) = st_params s"
  "sn_close (candle_sn c s) = c_close_price c"
  "st_market (candle_state cfg c a s) = st_market s" "st_params (candle_state cfg c a s) = st_params s"
  "st_pending_client_id (candle_state cfg c a s) = st_pending_client_id s"
  by (simp_all add: candle_fed_def candle_sn_def candle_state_def)

lemma candle_state_pending:
  "st_state s = PendingEntry \<or> st_state s = PendingExit \<Longrightarrow> candle_state cfg c a s = candle_fed c s"
  by (auto simp: candle_state_def reconcile_pending)

lemma candle_state_free:
  "st_state s = Flat \<or> st_state s = InPosition \<Longrightarrow>
   st_state (candle_state cfg c a s) = Flat \<or> st_state (candle_state cfg c a s) = InPosition"
  unfolding candle_state_def by (rule reconcile_phase) simp

text \<open>The phase a candle leads to.\<close>

lemma candle_free_life:
  assumes "accepts c s" "st_state s = Flat \<or> st_state s = InPosition"
  shows "lifecycle (phase_of s) (InCandle uuid c a) (orders_of (fst (order_out (onCandle cfg uuid c a s))))
     (phase_of (snd (onCandle cfg uuid c a s)))"
proof -
  define s2 where "s2 = candle_state cfg c a s"
  define sn where "sn = candle_sn c s"
  have ph: "phase_of s = Out \<or> phase_of s = Holding" using assms(2) by (auto simp: phase_of_def)
  then have none: "pending_of (phase_of s) = None" by auto
  have "st_state s2 = Flat \<or> st_state s2 = InPosition" using candle_state_free assms(2) by (simp add: s2_def)
  then show ?thesis
  proof
    assume f: "st_state s2 = Flat"
    then have on: "onCandle cfg uuid c a s = maybeEnter cfg uuid sn a s2"
      using candle_decided [OF assms(1)] by (simp add: s2_def sn_def)
    show ?thesis unfolding on
      by (rule enter_result [of cfg uuid sn a s2])
        (use f ph none in \<open>auto simp: phase_of_def intro!: life_buy life_watch\<close>)
  next
    assume f: "st_state s2 = InPosition"
    then have on: "onCandle cfg uuid c a s = maybeExit cfg uuid sn a s2"
      using candle_decided [OF assms(1)] by (simp add: s2_def sn_def)
    show ?thesis unfolding on
      by (rule exit_result [of cfg uuid sn a s2])
        (use f ph none in \<open>auto simp: phase_of_def intro!: life_sell life_watch\<close>)
  qed
qed

lemma candle_life:
  assumes "strat_ok m p s"
  shows "lifecycle (phase_of s) (InCandle uuid c a) (orders_of (fst (order_out (onCandle cfg uuid c a s))))
     (phase_of (snd (onCandle cfg uuid c a s)))"
proof (cases "accepts c s")
  case False
  then show ?thesis by (cases "phase_of s") (auto simp: candle_skipped intro: life_wait life_idle)
next
  case True
  have "pending_ok s" using assms by (simp add: strat_ok_def)
  then show ?thesis
  proof (cases rule: pending_cases)
    case (2 cid)
    then show ?thesis using candle_decided [OF True] by (auto simp: phase_of_def candle_state_pending intro: life_wait)
  next
    case (4 cid)
    then show ?thesis using candle_decided [OF True] by (auto simp: phase_of_def candle_state_pending intro: life_wait)
  qed (use candle_free_life [OF True] in auto)
qed

lemma status_life:
  assumes "strat_ok m p s"
  shows "lifecycle (phase_of s) (InStatus now ev) [] (phase_of (snd (onOrderUpdate now ev s)))"
proof -
  have "pending_ok s" using assms by (simp add: strat_ok_def)
  then show ?thesis
  proof (cases rule: pending_cases)
    case (2 cid)
    show ?thesis
    proof (cases "final_status cid ev")
      case True
      then show ?thesis using 2
        by (auto simp: onOrderUpdate_def final_status_def rollback_def phase_of_def strat_simps
            intro: life_bought life_not_bought)
    qed (use 2 in \<open>auto simp: onOrderUpdate_def final_status_def phase_of_def intro!: life_wait\<close>)
  next
    case (4 cid)
    show ?thesis
    proof (cases "final_status cid ev")
      case True
      then show ?thesis using 4
        by (auto simp: onOrderUpdate_def final_status_def rollback_def phase_of_def strat_simps
            intro: life_sold life_not_sold)
    qed (use 4 in \<open>auto simp: onOrderUpdate_def final_status_def phase_of_def intro!: life_wait\<close>)
  qed (auto simp: onOrderUpdate_def phase_of_def intro!: life_idle)
qed

lemma fill_frame [simp]:
  "st_state (onFill f s) = st_state s" "st_pending_client_id (onFill f s) = st_pending_client_id s"
  by (simp_all add: onFill_def Let_def)

lemma callback_frame [simp]:
  "st_state (setSignalCallback b s) = st_state s" "st_pending_client_id (setSignalCallback b s) = st_pending_client_id s"
  by (simp_all add: setSignalCallback_def)

lemma intrabar_life:
  shows "lifecycle (phase_of s) (InIntrabar uuid close a) (orders_of (fst (order_out (onIntrabarCandle cfg uuid close a s))))
     (phase_of (snd (onIntrabarCandle cfg uuid close a s)))"
proof (rule intrabar_result [of cfg uuid close a s])
  assume "onIntrabarCandle cfg uuid close a s = (noAction, s)"
  then show ?thesis by (cases "phase_of s") (auto intro: life_idle life_wait)
qed (auto simp: phase_of_def intro!: life_sell)

lemma step_life:
  assumes "strat_ok m p s"
  shows "lifecycle (phase_of s) i (orders_of (fst (strat_step cfg i s))) (phase_of (snd (strat_step cfg i s)))"
proof -
  have p: "pending_ok s" using assms by (simp add: strat_ok_def)
  show ?thesis
  proof (cases i)
    case (InFill f)
    have "phase_of (onFill f s) = phase_of s" unfolding phase_of_def fill_frame by (rule refl)
    then show ?thesis using InFill by (cases "phase_of s") (auto intro: life_idle life_wait)
  next
    case InSubmitFailed
    show ?thesis using p
      by (cases rule: pending_cases)
        (auto simp: InSubmitFailed onSubmitFailed_def phase_of_def strat_simps intro: life_idle life_buy_failed life_sell_failed)
  next
    case (InSync pos)
    then show ?thesis by (auto simp: syncOnStart_def phase_of_def strat_simps intro!: life_sync)
  next
    case InReset
    then show ?thesis by (auto simp: strategy_reset_def phase_of_def strat_simps intro!: life_reset)
  next
    case (InCallback b)
    have "phase_of (setSignalCallback b s) = phase_of s" unfolding phase_of_def callback_frame by (rule refl)
    then show ?thesis using InCallback by (cases "phase_of s") (auto intro: life_idle life_wait)
  qed (use candle_life [OF assms] intrabar_life status_life [OF assms] in auto)
qed


lemma step_pending:
  assumes "strat_ok m p s"
  shows "pending_of (phase_of (snd (strat_step cfg i s))) = st_pending_client_id (snd (strat_step cfg i s))"
  using ok_step [OF assms] by (simp add: strat_ok_def pending_of_phase)

text \<open>A pending order, one step on.\<close>

lemma pending_step:
  assumes "strat_ok m p s" "st_pending_client_id s = Some cid"
  shows "orders_of (fst (strat_step cfg i s)) = [] \<and>
     (resolves cid i \<longrightarrow> st_pending_client_id (snd (strat_step cfg i s)) = None) \<and>
     (\<not> resolves cid i \<longrightarrow> phase_of (snd (strat_step cfg i s)) = phase_of s)"
proof -
  have ph: "phase_of s = Buying cid \<or> phase_of s = Selling cid"
    using assms pending_of_phase [of s] by (cases "phase_of s") (auto simp: strat_ok_def)
  show ?thesis using step_life [OF assms(1), of i cfg] step_pending [OF assms(1), of cfg i] ph
    by (auto elim!: life_waitE split: if_splits)
qed

lemma pending_run:
  "strat_run cfg s is outs s' \<Longrightarrow> strat_ok m p s \<Longrightarrow> st_pending_client_id s = Some cid \<Longrightarrow>
   \<forall>i \<in> set is. \<not> resolves cid i \<Longrightarrow> orders_of outs = [] \<and> phase_of s' = phase_of s"
proof (induction rule: strat_run.induct)
  case (run_step i s outs s1 "is" rest s')
  have s1: "snd (strat_step cfg i s) = s1" "fst (strat_step cfg i s) = outs" using run_step.hyps by auto
  have ok: "strat_ok m p s1" using ok_step run_step.prems(1) s1 by metis
  have st: "orders_of outs = []" "phase_of s1 = phase_of s"
    using pending_step [OF run_step.prems(1,2), of cfg i] run_step.prems(3) s1 by auto
  have "st_pending_client_id s1 = Some cid"
    using st run_step.prems ok pending_of_phase by (metis strat_ok_def)
  then show ?case using run_step.IH [OF ok] run_step.prems(3) st by auto
qed simp

subsection \<open>The order of a decision\<close>

lemma next_id_cong: "st_market s = st_market t \<Longrightarrow> next_id s tag uuid = next_id t tag uuid"
  by (simp add: next_id_def)

lemma no_order [simp]: "dn_order noAction = None" "dn_order (submit_decision r) = Some r"
  by (simp_all add: noAction_def submit_decision_def)

lemma enter_order:
  assumes "dn_order (fst (maybeEnter cfg uuid sn a s)) = Some req"
  shows "rq_market req = st_market s \<and> (\<exists>tag. rq_identifier req = next_id s tag uuid) \<and>
     st_pending_client_id (snd (maybeEnter cfg uuid sn a s)) = Some (rq_identifier req)"
  by (rule enter_result [of cfg uuid sn a s]) (use assms in auto)

lemma exit_order:
  assumes "dn_order (fst (maybeExit cfg uuid sn a s)) = Some req"
  shows "rq_market req = st_market s \<and> (\<exists>tag. rq_identifier req = next_id s tag uuid) \<and>
     st_pending_client_id (snd (maybeExit cfg uuid sn a s)) = Some (rq_identifier req)"
  by (rule exit_result [of cfg uuid sn a s]) (use assms in auto)

text \<open>The order a candle or an intrabar close decides on is one of this market, under the identifier the strategy waits for.\<close>

lemma candle_order:
  assumes "dn_order (fst (onCandle cfg uuid c a s)) = Some req"
  shows "rq_market req = st_market s \<and> (\<exists>tag. rq_identifier req = next_id s tag uuid) \<and>
     st_pending_client_id (snd (onCandle cfg uuid c a s)) = Some (rq_identifier req)"
proof (cases "accepts c s")
  case True
  have i: "next_id (candle_state cfg c a s) tag uuid = next_id s tag uuid" for tag by (rule next_id_cong) simp
  show ?thesis
  proof (cases "st_state (candle_state cfg c a s)")
    case Flat
    then show ?thesis using assms candle_decided [OF True] enter_order [of cfg uuid "candle_sn c s" a "candle_state cfg c a s" req] i
      by simp
  next
    case InPosition
    then show ?thesis using assms candle_decided [OF True] exit_order [of cfg uuid "candle_sn c s" a "candle_state cfg c a s" req] i
      by simp
  qed (use assms candle_decided [OF True] in simp_all)
qed (use assms candle_skipped in simp)

lemma intrabar_order:
  assumes "dn_order (fst (onIntrabarCandle cfg uuid close a s)) = Some req"
  shows "rq_market req = st_market s \<and> (\<exists>tag. rq_identifier req = next_id s tag uuid) \<and>
     st_pending_client_id (snd (onIntrabarCandle cfg uuid close a s)) = Some (rq_identifier req)"
  by (rule intrabar_result [of cfg uuid close a s]) (use assms in auto)

lemma next_id_nonempty [simp]: "next_id s tag uuid \<noteq> []"
  by (simp add: next_id_def)

end
