(* ===== verification/StrategyExamples.thy ===== *)
theory StrategyExamples
  imports StrategyMachine
begin

text \<open>
  Reachable states of the strategy by one step, and two concrete strategies that witnesses use: one that holds a
  position, and one with a pending sell order.
\<close>

lemma reach_start_strategy: "strat_reach cfg m p (strategy_new m p)"
  unfolding strat_reach_def using run_nil by blast

lemma run_one: "strat_step cfg i s = (outs, s') \<Longrightarrow> strat_run cfg s [i] outs s'"
  using run_step [OF _ run_nil] by fastforce

definition held :: PositionSnapshot where
  "held = \<lparr> ps_coin = D 100, ps_avg_entry_price = D 200 \<rparr>"

definition holding_strategy :: Strategy where
  "holding_strategy = syncOnStart held (strategy_new ''KRW-ADA'' default_params)"

lemma reach_holding: "strat_reach cfg ''KRW-ADA'' default_params holding_strategy"
  unfolding strat_reach_def holding_strategy_def using run_one [of cfg "InSync held"] by fastforce

lemma holding_facts:
  "st_state holding_strategy = InPosition" "st_entry_price holding_strategy = Some (D 200)"
  "st_pending_client_id holding_strategy = None" "st_market holding_strategy = ''KRW-ADA''"
  by (simp_all add: holding_strategy_def held_def syncOnStart_def hasPosition_def strat_simps strategy_new_def
      strategy_reset_def)

definition sold_account :: AccountSnapshot where
  "sold_account = \<lparr> as_krw_available = 0, as_coin_available = D 100 \<rparr>"

definition selling_strategy :: Strategy where
  "selling_strategy = snd (onIntrabarCandle default_config ''u1'' (D 100) sold_account holding_strategy)"

lemma holding_levels:
  "st_stop_price holding_strategy = Some (stop_level default_params (D 200))"
  "st_target_price holding_strategy = Some (target_level default_params (D 200))"
  by (simp_all add: holding_strategy_def held_def syncOnStart_def hasPosition_def strat_simps strategy_new_def
      strategy_reset_def default_params_def)

text \<open>The stop of the example lies at 180 (up to the rounding of one tenth), far above a close of 100.\<close>

lemma example_stop: "D 100 \<le> stop_level default_params (D 200)"
proof -
  have t: "D 10 / D 100 = D (1 / 10)" by simp
  have "D (1 / 10) \<le> D (1 / 2)" "D 0 \<le> D (1 / 10)" by (auto intro: D_mono D_nonneg simp del: D_0)
  then have f: "fin (D (1 / 10))" "val (D (1 / 10)) \<le> 1 / 2" "0 \<le> val (D (1 / 10))"
    using fin_lit [of "1 / 10"] fin_val_le [of "D (1 / 10)" "D (1 / 2)"] fin_val_le [of "D 0" "D (1 / 10)"] by auto
  have "1 - D (1 / 10) = D (1 - val (D (1 / 10)))" using f(1) by (simp add: fin_diff)
  moreover have "D (1 / 2) \<le> D (1 - val (D (1 / 10)))" using f(2) by (intro D_mono) simp
  moreover have "fin (D (1 - val (D (1 / 10))))" using f by (intro fin_lit) auto
  ultimately have g: "fin (1 - D (1 / 10))" "1 / 2 \<le> val (1 - D (1 / 10))"
    using fin_val_le [of "D (1 / 2)" "1 - D (1 / 10)"] by auto
  have "D 100 \<le> D (200 * val (1 - D (1 / 10)))" using g(2) by (intro D_mono) simp
  then show ?thesis using g(1) by (simp add: stop_level_def default_params_def dmax_def t fin_mult)
qed

lemma example_sell:
  "onIntrabarCandle default_config ''u1'' (D 100) sold_account holding_strategy =
     (submit_decision (sell_order holding_strategy ''exit_stop'' ''u1'' (D 100)), selling_strategy) \<or>
   onIntrabarCandle default_config ''u1'' (D 100) sold_account holding_strategy =
     (submit_decision (sell_order holding_strategy ''exit_stop_target'' ''u1'' (D 100)), selling_strategy)"
  using example_stop
  by (auto simp: onIntrabarCandle_def selling_strategy_def sold_account_def canSell_def holding_facts holding_levels
      exit_reason_def default_config_def Let_def makeIdentifier_def sell_order_def next_id_def makeMarketSellByVolume_def)


lemma selling_pending: "\<exists>cid. st_pending_client_id selling_strategy = Some cid \<and> st_state selling_strategy = PendingExit"
  using example_stop
  by (auto simp: onIntrabarCandle_def selling_strategy_def sold_account_def canSell_def holding_facts holding_levels
      default_config_def Let_def makeIdentifier_def start_pending_def)

lemma reach_step: "strat_reach cfg m p s \<Longrightarrow> strat_reach cfg m p (snd (strat_step cfg i s))"
proof -
  have app: "strat_run cfg a is outs b \<Longrightarrow> strat_run cfg a (is @ [i]) (outs @ fst (strat_step cfg i b)) (snd (strat_step cfg i b))" for a "is" outs b
  proof (induction rule: strat_run.induct)
    case (run_nil s)
    show ?case using run_one [of cfg i s] by simp
  next
    case (run_step j s outs s1 "is" rest s')
    then show ?case using strat_run.run_step by fastforce
  qed
  assume "strat_reach cfg m p s"
  then show ?thesis unfolding strat_reach_def using app by blast
qed

lemma reach_selling: "strat_reach default_config ''KRW-ADA'' default_params selling_strategy"
  using reach_step [OF reach_holding [of default_config], of "InIntrabar ''u1'' (D 100) sold_account"]
  by (simp add: selling_strategy_def)

end
