(* ===== verification/StrategyProperties.thy ===== *)
theory StrategyProperties
  imports StrategyExamples EngineProperties
begin

text \<open>
  The properties of the strategy, with a concrete strategy their witnesses use: one that watches a falling market.
\<close>

section \<open>Properties of the state machine\<close>

text \<open>
  C18: In every state a strategy can reach, by any inputs in any order, an order is pending exactly in the states
  \<open>PendingEntry\<close> and \<open>PendingExit\<close>; without a pending order the fill sums and the exit reason are cleared;
  no entry price survives in \<open>Flat\<close> or \<open>PendingEntry\<close>; and stop and target are set exactly when the entry price is,
  to the levels the parameters give for it.
\<close>

theorem strategy_invariant:
  assumes "strat_reach cfg m p s"
  shows "(st_pending_client_id s = None \<longleftrightarrow> st_state s = Flat \<or> st_state s = InPosition) \<and>
     (st_pending_client_id s = None \<longrightarrow> st_pending_filled_volume s = 0 \<and> st_pending_cost_sum s = 0
        \<and> st_pending_last_price s = 0 \<and> st_pending_exit_reason s = []) \<and>
     (st_state s = Flat \<or> st_state s = PendingEntry \<longrightarrow> st_entry_price s = None) \<and>
     st_stop_price s = map_option (\<lambda>e. e * (1 - dmax 0 (pr_stopLossPct p) / D 100)) (st_entry_price s) \<and>
     st_target_price s = map_option (\<lambda>e. e * (1 + dmax 0 (pr_profitTargetPct p) / D 100)) (st_entry_price s)"
  using reach_ok [OF assms] by (simp add: strat_ok_def pending_ok_def prices_ok_def stop_level_def [abs_def] target_level_def [abs_def])

theorem strategy_invariant_witness:
  "st_stop_price holding_strategy = Some (D 200 * (1 - D 10 / D 100)) \<and> st_pending_client_id holding_strategy = None"
  using strategy_invariant [OF reach_holding [of default_config]] holding_facts
  by (auto simp: default_params_def dmax_def)

text \<open>
  C4: The strategy implements the order life cycle: from every reachable state each input (candle, intrabar close,
  fill, status event, failed submission, start, reset) makes a transition of \<open>lifecycle\<close> between the phases of the
  two states, with exactly the orders the transition allows.
\<close>

theorem strategy_refines_lifecycle:
  assumes "strat_reach cfg m p s" "strat_step cfg i s = (outs, s')"
  shows "lifecycle (phase_of s) i (orders_of outs) (phase_of s')"
  using step_life [OF reach_ok [OF assms(1)], of i cfg] assms(2) by simp

theorem strategy_refines_lifecycle_witness:
  "lifecycle Out (InSync held) [] Holding"
  using strategy_refines_lifecycle [OF reach_start_strategy [of default_config "''KRW-ADA''" default_params],
      of "InSync held" "[]" holding_strategy]
  by (simp add: holding_strategy_def [symmetric] phase_of_def holding_facts)
    (simp add: strategy_new_def strategy_reset_def strat_simps)


text \<open>
  One order at a time. From a reachable state with the order \<open>cid\<close> pending, no sequence of candles, intrabar
  closes, fills, foreign or non-final status events makes the strategy send another order or forget this one; and the
  first final status of \<open>cid\<close>, failed submission, start or reset clears it.
\<close>

theorem one_order_in_flight:
  assumes "strat_reach cfg m p s" "st_pending_client_id s = Some cid"
    "\<forall>i \<in> set is. \<not> resolves cid i" "strat_run cfg s is outs s'" "resolves cid fin_in"
  shows "orders_of outs = [] \<and> phase_of s' = phase_of s \<and>
     orders_of (fst (strat_step cfg fin_in s')) = [] \<and> st_pending_client_id (snd (strat_step cfg fin_in s')) = None"
proof -
  have ok: "strat_ok m p s" by (rule reach_ok [OF assms(1)])
  have r: "orders_of outs = []" "phase_of s' = phase_of s" using pending_run [OF assms(4) ok assms(2,3)] by auto
  have ok': "strat_ok m p s'" by (rule ok_run [OF assms(4) ok])
  then have "st_pending_client_id s' = Some cid"
    using r(2) ok assms(2) pending_of_phase by (metis strat_ok_def)
  then show ?thesis using pending_step [OF ok', of cid cfg fin_in] assms(5) r by simp
qed

theorem one_order_in_flight_witness:
  "st_pending_client_id selling_strategy \<noteq> None \<and>
   orders_of (fst (strat_step default_config InSubmitFailed (setSignalCallback True selling_strategy))) = [] \<and>
   st_pending_client_id (snd (strat_step default_config InSubmitFailed (setSignalCallback True selling_strategy))) = None"
proof -
  obtain cid where c: "st_pending_client_id selling_strategy = Some cid" using selling_pending by blast
  have "strat_run default_config selling_strategy [InCallback True] [] (setSignalCallback True selling_strategy)"
    by (rule run_one) simp
  from one_order_in_flight [OF reach_selling c _ this, of InSubmitFailed] c show ?thesis by simp
qed

text \<open>
  C20: The stop fires. In a reachable state that holds a position with a known entry price, a close at or below the stop
  level sends a market sell of the whole available coin, as long as there is coin to sell of at least the minimal
  order value: within the candle by \<open>onIntrabarCandle\<close>, and by \<open>onCandle\<close> at the close of a new candle of the market,
  whatever the indicators say. The strategy then waits for that order.
\<close>

theorem stop_loss_fires:
  assumes "strat_reach cfg m p s" "st_state s = InPosition" "st_entry_price s = Some e"
    "close \<le> e * (1 - dmax 0 (pr_stopLossPct p) / D 100)" "canSell a"
    "min_notional_krw cfg \<le> as_coin_available a * close"
    "c_market c = m" "c_close_price c = close" "st_last_candle_ts s \<noteq> Some (c_start_timestamp c)"
  shows "(\<exists>r. orders_of (fst (strat_step cfg (InIntrabar uuid close a) s)) = [r] \<and> rq_position r = ASK \<and>
        rq_size r = VolumeSize (as_coin_available a) \<and>
        phase_of (snd (strat_step cfg (InIntrabar uuid close a) s)) = Selling (rq_identifier r)) \<and>
     (\<exists>r. orders_of (fst (strat_step cfg (InCandle uuid c a) s)) = [r] \<and> rq_position r = ASK \<and>
        rq_size r = VolumeSize (as_coin_available a) \<and>
        phase_of (snd (strat_step cfg (InCandle uuid c a) s)) = Selling (rq_identifier r))"
proof -
  have ok: "strat_ok m p s" by (rule reach_ok [OF assms(1)])
  then have lv: "st_stop_price s = Some (stop_level p e)" "st_target_price s = Some (target_level p e)"
    and m: "st_market s = m" using assms(3) by (auto simp: strat_ok_def prices_ok_def)
  have stop: "close \<le> stop_level p e" using assms(4) by (simp add: stop_level_def)
  have nl: "\<not> as_coin_available a * close < min_notional_krw cfg" using assms(6) dle_not_less by blast
  define st where "st = candle_state cfg c a s"
  have st: "st = candle_fed c s" using assms(2,8) nl by (simp add: st_def candle_state_def reconcile_state_def Let_def)
  then have keep: "st_state st = InPosition" "st_entry_price st = Some e" "st_stop_price st = Some (stop_level p e)"
    "st_target_price st = Some (target_level p e)"
    using assms(2,3) lv by (simp_all add: candle_fed_def) (simp_all add: buildSnapshot_def Let_def split_beta)
  have on: "onCandle cfg uuid c a s = maybeExit cfg uuid (candle_sn c s) a st"
    using candle_decided [of c s cfg uuid a] assms(7,9) m keep(1) by (simp add: accepts_def st_def)
  have 1: "\<exists>r. orders_of (fst (order_out (maybeExit cfg uuid (candle_sn c s) a st))) = [r] \<and> rq_position r = ASK \<and>
        rq_size r = VolumeSize (as_coin_available a) \<and> phase_of (snd (maybeExit cfg uuid (candle_sn c s) a st)) = Selling (rq_identifier r)"
    using keep assms(5,8) nl stop
    by (auto simp: maybeExit_def stop_target_hits_def makeIdentifier_def makeMarketSellByVolume_def Let_def phase_of_def)
  have 2: "\<exists>r. orders_of (fst (order_out (onIntrabarCandle cfg uuid close a s))) = [r] \<and> rq_position r = ASK \<and>
        rq_size r = VolumeSize (as_coin_available a) \<and> phase_of (snd (onIntrabarCandle cfg uuid close a s)) = Selling (rq_identifier r)"
    using lv assms(2,5) nl stop
    by (auto simp: onIntrabarCandle_def makeIdentifier_def makeMarketSellByVolume_def Let_def phase_of_def)
  show ?thesis using 1 2 on by simp
qed

definition crash_candle :: Candle where
  "crash_candle = \<lparr> c_market = ''KRW-ADA'', c_open_price = D 190, c_high_price = D 190, c_low_price = D 100,
     c_close_price = D 100, c_volume = D 5, c_start_timestamp = ''2026-01-01T00:00:00'' \<rparr>"

theorem stop_loss_fires_witness:
  "\<exists>r. orders_of (fst (strat_step default_config (InCandle ''u2'' crash_candle sold_account) holding_strategy)) = [r]
     \<and> rq_position r = ASK"
proof -
  have "st_last_candle_ts holding_strategy = None"
    by (simp add: holding_strategy_def syncOnStart_def strat_simps strategy_new_def strategy_reset_def)
  moreover have "canSell sold_account" "min_notional_krw default_config \<le> as_coin_available sold_account * D 100"
    by (simp_all add: canSell_def sold_account_def default_config_def)
  moreover have "D 100 \<le> D 200 * (1 - dmax 0 (pr_stopLossPct default_params) / D 100)"
    using example_stop by (simp add: stop_level_def)
  ultimately show ?thesis
    using stop_loss_fires [OF reach_holding [of default_config] holding_facts(1,2), of "D 100" sold_account crash_candle "''u2''"]
    by (auto simp: crash_candle_def simp del: strat_step.simps)
qed

text \<open>
  C25: Every order the strategy sends passes the engine's validation: it is for the strategy's market, carries the
  identifier the strategy now waits for, and \<open>validateRequest\<close> accepts it. A buy states an amount that is not below
  the minimal order value, a sell a positive volume.
\<close>

theorem orders_pass_validation:
  assumes "strat_reach cfg m p s" "m \<noteq> []" "r \<in> set (orders_of (fst (strat_step cfg i s)))"
  shows "validateRequest r = None \<and> rq_market r = m \<and> rq_identifier r \<noteq> [] \<and>
     st_pending_client_id (snd (strat_step cfg i s)) = Some (rq_identifier r) \<and>
     (case rq_size r of AmountSize amount \<Rightarrow> rq_position r = BID \<and> \<not> amount < min_notional_krw cfg
                      | VolumeSize vol \<Rightarrow> rq_position r = ASK \<and> 0 < vol)"
proof -
  have m: "st_market s = m" using reach_ok [OF assms(1)] by (simp add: strat_ok_def)
  have sell: "validateRequest (sell_order t tag uuid v) = None" if "0 < v" "st_market t = m" for t tag uuid v
    using that assms(2) dless_not_le [of 0 v] by (simp add: sell_order_def validateRequest_def)
  have buy: "validateRequest (buy_order t uuid v) = None" if "\<not> v \<le> 0" "st_market t = m" for t uuid v
    using that assms(2) by (simp add: buy_order_def validateRequest_def)
  have ne: "next_id t tag uuid \<noteq> []" for t tag uuid by (simp add: next_id_def)
  show ?thesis
  proof (cases i)
    case (InCandle uuid c a)
    define st where "st = candle_state cfg c a s"
    have st: "st_market st = m" using m by (simp add: st_def)
    have r: "r \<in> set (orders_of (fst (order_out (onCandle cfg uuid c a s))))" using assms(3) InCandle by simp
    then have acc: "accepts c s" using candle_skipped [of c s cfg uuid a] by (rule_tac ccontr) auto
    note on = candle_decided [OF acc, of cfg uuid a, folded st_def]
    note r1 = r [unfolded on]
    show ?thesis
    proof (cases "st_state st")
      case Flat
      show ?thesis unfolding InCandle strat_step.simps on
        by (rule enter_result [of cfg uuid "candle_sn c s" a st])
          (use r1 Flat in \<open>auto simp: buy ne st\<close>, auto simp: buy_order_def)
    next
      case InPosition
      show ?thesis unfolding InCandle strat_step.simps on
        by (rule exit_result [of cfg uuid "candle_sn c s" a st])
          (use r1 InPosition in \<open>auto simp: sell ne st canSell_def\<close>, auto simp: sell_order_def)
    qed (use r1 in auto)
  next
    case (InIntrabar uuid close a)
    show ?thesis unfolding InIntrabar
      by (rule intrabar_result [of cfg uuid close a s])
        (use assms(3) InIntrabar m in \<open>auto simp: sell ne canSell_def\<close>, auto simp: sell_order_def)
  qed (use assms(3) in auto)
qed


theorem orders_pass_validation_witness:
  "\<exists>r. orders_of (fst (strat_step default_config (InIntrabar ''u1'' (D 100) sold_account) holding_strategy)) = [r]
     \<and> validateRequest r = None"
proof -
  obtain r where r: "orders_of (fst (strat_step default_config (InIntrabar ''u1'' (D 100) sold_account) holding_strategy)) = [r]"
    using example_sell by fastforce
  then show ?thesis using orders_pass_validation [OF reach_holding [of default_config], of r "InIntrabar ''u1'' (D 100) sold_account"]
    by (auto simp del: strat_step.simps)
qed

subsection \<open>The entry price\<close>

definition my_fill :: "string \<Rightarrow> FillEvent \<Rightarrow> bool" where
  "my_fill cid f \<longleftrightarrow> fv_identifier f = cid \<and> 0 < fv_filled_volume f"

definition cost_total :: "FillEvent list \<Rightarrow> double" where
  "cost_total fs = foldl (\<lambda>acc f. acc + fv_fill_price f * fv_filled_volume f) 0 fs"

definition volume_total :: "FillEvent list \<Rightarrow> double" where
  "volume_total fs = foldl (\<lambda>acc f. acc + fv_filled_volume f) 0 fs"

lemma fills_accumulate:
  assumes "st_pending_client_id s = Some cid"
  shows "let s' = fold onFill fs s; mine = filter (my_fill cid) fs
     in st_pending_client_id s' = Some cid \<and> st_state s' = st_state s \<and> st_params s' = st_params s \<and>
        st_signal_callback s' = st_signal_callback s \<and> st_market s' = st_market s \<and>
        st_pending_filled_volume s' = foldl (\<lambda>acc f. acc + fv_filled_volume f) (st_pending_filled_volume s) mine \<and>
        st_pending_cost_sum s' = foldl (\<lambda>acc f. acc + fv_fill_price f * fv_filled_volume f) (st_pending_cost_sum s) mine"
  using assms
proof (induction fs arbitrary: s)
  case (Cons f fs)
  have "st_pending_client_id (onFill f s) = Some cid" using Cons.prems by simp
  note ih = Cons.IH [OF this]
  show ?case
  proof (cases "my_fill cid f")
    case True
    then show ?thesis using ih Cons.prems by (simp add: onFill_def my_fill_def Let_def)
  next
    case False
    then have "st_pending_filled_volume (onFill f s) = st_pending_filled_volume s"
      "st_pending_cost_sum (onFill f s) = st_pending_cost_sum s"
      using Cons.prems by (auto simp: onFill_def my_fill_def Let_def)
    moreover have "st_params (onFill f s) = st_params s" "st_signal_callback (onFill f s) = st_signal_callback s"
      "st_market (onFill f s) = st_market s" by (simp_all add: onFill_def Let_def)
    ultimately show ?thesis using ih False by (simp add: Let_def)
  qed
qed simp

lemma order_starts_clean:
  assumes "strat_ok m p s" "orders_of (fst (strat_step cfg i s)) = [r]"
  shows "st_pending_filled_volume (snd (strat_step cfg i s)) = 0 \<and> st_pending_cost_sum (snd (strat_step cfg i s)) = 0
     \<and> st_pending_client_id (snd (strat_step cfg i s)) = Some (rq_identifier r)
     \<and> phase_of (snd (strat_step cfg i s)) = (if rq_position r = BID then Buying else Selling) (rq_identifier r)"
proof (cases i)
  case (InCandle uuid c a)
  define st where "st = candle_state cfg c a s"
  have r: "orders_of (fst (order_out (onCandle cfg uuid c a s))) = [r]" using assms(2) InCandle by simp
  then have acc: "accepts c s" using candle_skipped [of c s cfg uuid a] by (rule_tac ccontr) auto
  note on = candle_decided [OF acc, of cfg uuid a, folded st_def]
  note r1 = r [unfolded on]
  show ?thesis
  proof (cases "st_state st")
    case Flat
    show ?thesis unfolding InCandle strat_step.simps on
      by (rule enter_result [of cfg uuid "candle_sn c s" a st])
        (use r1 Flat in \<open>auto simp: start_pending_def phase_of_def\<close>)
  next
    case InPosition
    show ?thesis unfolding InCandle strat_step.simps on
      by (rule exit_result [of cfg uuid "candle_sn c s" a st])
        (use r1 InPosition in \<open>auto simp: start_pending_def phase_of_def\<close>)
  qed (use r1 in auto)
next
  case (InIntrabar uuid close a)
  show ?thesis unfolding InIntrabar
    by (rule intrabar_result [of cfg uuid close a s])
      (use assms(2) InIntrabar in \<open>auto simp: start_pending_def phase_of_def\<close>)
qed (use assms(2) in auto)

text \<open>
  C19: The entry price is the volume-weighted average of the fills of the order. When a buy order is sent, any fills
  arrive (those of other orders and those without volume included) and the order ends with the effect \<open>Opened\<close>, the
  strategy holds a position whose entry price is the sum of price times volume over the sum of volumes of exactly its
  own fills, with stop and target set from it; and the one signal record, if a callback is registered, is a BUY with
  that price, volume and amount.
\<close>

theorem entry_is_vwap:
  assumes "strat_reach cfg m p s" "orders_of (fst (strat_step cfg i s)) = [r]" "rq_position r = BID"
    "final_status (rq_identifier r) ev" "ou_position_effect ev = EffOpened"
    "mine = filter (my_fill (rq_identifier r)) fills" "vwap = cost_total mine / volume_total mine"
    "0 < volume_total mine" "0 < cost_total mine" "0 < vwap"
    "onOrderUpdate now ev (fold onFill fills (snd (strat_step cfg i s))) = (sigs, s')"
  shows "st_state s' = InPosition \<and> st_entry_price s' = Some vwap \<and>
     st_stop_price s' = Some (vwap * (1 - dmax 0 (pr_stopLossPct p) / D 100)) \<and>
     st_target_price s' = Some (vwap * (1 + dmax 0 (pr_profitTargetPct p) / D 100)) \<and>
     map (\<lambda>sg. (sg_side sg, sg_identifier sg, sg_price sg, sg_volume sg, sg_krw_amount sg)) sigs =
       (if st_signal_callback (snd (strat_step cfg i s))
        then [(BUY, rq_identifier r, vwap, volume_total mine, cost_total mine)] else [])"
proof -
  define s1 where "s1 = snd (strat_step cfg i s)"
  define s2 where "s2 = fold onFill fills s1"
  have ok: "strat_ok m p s1" using ok_step [OF reach_ok [OF assms(1)]] by (simp add: s1_def)
  have c: "st_pending_filled_volume s1 = 0" "st_pending_cost_sum s1 = 0" "st_pending_client_id s1 = Some (rq_identifier r)"
    "phase_of s1 = Buying (rq_identifier r)"
    using order_starts_clean [OF reach_ok [OF assms(1)] assms(2)] assms(3) by (simp_all add: s1_def)
  then have "st_state s1 = PendingEntry" by (cases "st_state s1") (auto simp: phase_of_def)
  then have s2: "st_pending_client_id s2 = Some (rq_identifier r)" "st_state s2 = PendingEntry" "st_params s2 = p"
    "st_signal_callback s2 = st_signal_callback s1"
    "st_pending_filled_volume s2 = volume_total mine" "st_pending_cost_sum s2 = cost_total mine"
    using fills_accumulate [OF c(3), of fills] c ok assms(6)
    by (simp_all add: Let_def s2_def strat_ok_def volume_total_def cost_total_def)
  have "final_fill_price ev s2 = vwap" using s2 assms(7,8) by (simp add: final_fill_price_def)
  then show ?thesis using assms(4,5,8-11) s2 unfolding s1_def [symmetric] s2_def [symmetric]
    by (auto simp: onOrderUpdate_def final_status_def strat_simps make_signal_def final_fill_volume_def split: if_splits)
qed


subsection \<open>The indicators\<close>

text \<open>The candles that reach the indicators: those of the market whose time stamp differs from the last accepted one.\<close>

fun accepted :: "string \<Rightarrow> string option \<Rightarrow> strat_in list \<Rightarrow> Candle list" where
  "accepted m ts [] = []"
| "accepted m ts (InCandle uuid c a # is) =
     (if c_market c = m \<and> ts \<noteq> Some (c_start_timestamp c) then c # accepted m (Some (c_start_timestamp c)) is
      else accepted m ts is)"
| "accepted m ts (_ # is) = accepted m ts is"

definition indicators :: "Strategy \<Rightarrow> RsiWilder \<times> ClosePriceWindow \<times> ChangeVolatility \<times> string option \<times> string" where
  "indicators s = (st_rsi s, st_closeN s, st_vol s, st_last_candle_ts s, st_market s)"

lemma ind_keep [simp]:
  "indicators (clearPendingState s) = indicators s" "indicators (clear_prices s) = indicators s"
  "indicators (set_entry e s) = indicators s" "indicators (s \<lparr> st_state := x \<rparr>) = indicators s"
  "indicators (bump s) = indicators s" "indicators (start_pending st cid sn s) = indicators s"
  "indicators (s \<lparr> st_pending_exit_reason := y \<rparr>) = indicators s" "indicators (rollback s) = indicators s"
  "indicators (onFill f s) = indicators s" "indicators (setSignalCallback b s) = indicators s"
  by (simp_all add: indicators_def strat_simps bump_def start_pending_def rollback_def onFill_def setSignalCallback_def)

lemma ind_ops [simp]:
  "indicators (snd (maybeEnter cfg uuid sn a s)) = indicators s"
  "indicators (snd (maybeExit cfg uuid sn a s)) = indicators s"
  "indicators (snd (onIntrabarCandle cfg uuid close a s)) = indicators s"
  "indicators (reconcile_state cfg coin cl s) = indicators s"
  "indicators (onSubmitFailed s) = indicators s" "indicators (syncOnStart pos s) = indicators s"
  "indicators (snd (onOrderUpdate now ev s)) = indicators s"
  by (rule enter_result [of cfg uuid sn a s], simp, simp)
    (rule exit_result [of cfg uuid sn a s], simp, simp, simp,
     rule intrabar_result [of cfg uuid close a s], simp, simp,
     auto simp: reconcile_state_def onSubmitFailed_def syncOnStart_def onOrderUpdate_def Let_def split: option.split)

lemma ind_candle:
  "accepts c s \<Longrightarrow> indicators (snd (onCandle cfg uuid c a s)) =
     (snd (rsi_update (c_close_price c) (st_rsi s)), snd (cpw_update (c_close_price c) (st_closeN s)),
      snd (cv_update (c_close_price c) (st_vol s)), Some (c_start_timestamp c), st_market s)"
proof -
  assume acc: "accepts c s"
  have "indicators (snd (onCandle cfg uuid c a s)) = indicators (candle_fed c s)"
    unfolding candle_decided [OF acc] by (cases "st_state (candle_state cfg c a s)") (simp_all, simp_all add: candle_state_def)
  then show ?thesis
    by (simp add: candle_fed_def buildSnapshot_def Let_def split_beta indicators_def rsi_update_candle_def
        cpw_update_candle_def cv_update_candle_def)
qed

lemma ind_run:
  "strat_run cfg s is outs s' \<Longrightarrow> InReset \<notin> set is \<Longrightarrow>
   let closes = map c_close_price (accepted (st_market s) (st_last_candle_ts s) is)
   in st_rsi s' = snd (feed rsi_update closes (st_rsi s)) \<and> st_closeN s' = snd (feed cpw_update closes (st_closeN s)) \<and>
      st_vol s' = snd (feed cv_update closes (st_vol s))"
proof (induction rule: strat_run.induct)
  case (run_step i s outs s1 "is" rest s')
  have s1: "s1 = snd (strat_step cfg i s)" using run_step.hyps by simp
  show ?case
  proof (cases "\<exists>uuid c a. i = InCandle uuid c a \<and> accepts c s")
    case True
    then obtain uuid c a where i: "i = InCandle uuid c a" "accepts c s" by blast
    then show ?thesis using ind_candle [of c s cfg uuid a] run_step.IH run_step.prems s1
      by (auto simp: indicators_def accepts_def Let_def split_beta)
  next
    case False
    then have "indicators s1 = indicators s" using run_step.prems s1 candle_skipped [of _ s]
      by (cases i) auto
    moreover have "accepted (st_market s) (st_last_candle_ts s) (i # is) = accepted (st_market s) (st_last_candle_ts s) is"
      using False by (cases i) (auto simp: accepts_def)
    ultimately show ?thesis using run_step.IH run_step.prems by (auto simp: indicators_def)
  qed
qed (simp add: Let_def)

lemma new_indicators [simp]:
  "st_rsi (strategy_new m p) = rsi_new (pr_rsiLength p)" "st_closeN (strategy_new m p) = cpw_new (pr_trendLookWindow p)"
  "st_vol (strategy_new m p) = cv_new (pr_volatilityWindow p)" "st_last_candle_ts (strategy_new m p) = None"
  "st_market (strategy_new m p) = m" "st_params (strategy_new m p) = p" "st_state (strategy_new m p) = Flat"
  by (simp_all add: strategy_new_def strategy_reset_def strat_simps rsi_new_def rsi_reset_def rsi_clear_def cpw_new_def
      cpw_reset_def cpw_clear_def cv_new_def cv_reset_def cv_clear_def rb_reset_def rb_clear_def)


text \<open>
  C27: Each candle counts once. After any run without a reset the three indicators are in the state they have after
  being fed, from new, exactly the closes of the accepted candles: those of the strategy's market whose time stamp
  differs from the last accepted one. Repeated updates of a candle, other markets, intrabar closes and order
  events leave no trace in them.
\<close>

theorem indicators_follow_stream:
  assumes "strat_run cfg (strategy_new m p) is outs s" "InReset \<notin> set is"
    "closes = map c_close_price (accepted m None is)"
  shows "st_rsi s = snd (feed rsi_update closes (rsi_new (pr_rsiLength p))) \<and>
     st_closeN s = snd (feed cpw_update closes (cpw_new (pr_trendLookWindow p))) \<and>
     st_vol s = snd (feed cv_update closes (cv_new (pr_volatilityWindow p)))"
  using ind_run [OF assms(1,2)] assms(3) by (simp add: Let_def)

text \<open>A falling market with short windows: the third candle is bought.\<close>

definition short_params :: Params where
  "short_params = default_params \<lparr> pr_rsiLength := 1, pr_trendLookWindow := 1, pr_volatilityWindow := 2,
     pr_maxTrendStrength := 1, pr_minVolatility := 0 \<rparr>"

definition candle_at :: "string \<Rightarrow> double \<Rightarrow> Candle" where
  "candle_at ts close = \<lparr> c_market = ''KRW-ADA'', c_open_price = close, c_high_price = close, c_low_price = close,
     c_close_price = close, c_volume = 1, c_start_timestamp = ts \<rparr>"

definition rich_account :: AccountSnapshot where
  "rich_account = \<lparr> as_krw_available = D 10000, as_coin_available = 0 \<rparr>"

definition candle1 :: strat_in where "candle1 = InCandle ''u1'' (candle_at ''1'' (D 200)) rich_account"
definition candle2 :: strat_in where "candle2 = InCandle ''u2'' (candle_at ''2'' (D 100)) rich_account"
definition candle3 :: strat_in where "candle3 = InCandle ''u3'' (candle_at ''3'' (D 50)) rich_account"

definition after1 :: Strategy where "after1 = snd (strat_step test_config candle1 (strategy_new ''KRW-ADA'' short_params))"
definition watching :: Strategy where "watching = snd (strat_step test_config candle2 after1)"

lemma step_pair: "strat_step cfg i s = (fst (strat_step cfg i s), snd (strat_step cfg i s))"
  by simp

lemma run_watching: "\<exists>outs. strat_run test_config (strategy_new ''KRW-ADA'' short_params) [candle1, candle2] outs watching"
  unfolding watching_def after1_def using run_step [OF step_pair run_one [OF step_pair]] by blast

lemma reach_watching: "strat_reach test_config ''KRW-ADA'' short_params watching"
  using run_watching unfolding strat_reach_def by blast

theorem indicators_follow_stream_witness:
  "st_closeN watching = snd (feed cpw_update [D 200, D 100] (cpw_new 1))"
proof -
  obtain outs where "strat_run test_config (strategy_new ''KRW-ADA'' short_params) [candle1, candle2] outs watching"
    using run_watching by blast
  from indicators_follow_stream [OF this _ refl] show ?thesis
    by (simp add: candle1_def candle2_def candle_at_def short_params_def del: feed.simps)
qed

lemma watching_indicators:
  "st_rsi watching = snd (feed rsi_update [D 200, D 100] (rsi_new 1))"
  "st_closeN watching = snd (feed cpw_update [D 200, D 100] (cpw_new 1))"
  "st_vol watching = snd (feed cv_update [D 200, D 100] (cv_new 2))"
proof -
  obtain outs where "strat_run test_config (strategy_new ''KRW-ADA'' short_params) [candle1, candle2] outs watching"
    using run_watching by blast
  from ind_run [OF this]
  show "st_rsi watching = snd (feed rsi_update [D 200, D 100] (rsi_new 1))"
    "st_closeN watching = snd (feed cpw_update [D 200, D 100] (cpw_new 1))"
    "st_vol watching = snd (feed cv_update [D 200, D 100] (cv_new 2))"
    by (simp_all add: candle1_def candle2_def candle_at_def short_params_def Let_def del: feed.simps)
qed

lemma falling_rsi: "fst (rsi_update (D 50) (st_rsi watching)) = \<lparr> v_ready = True, v_val = 0 \<rparr>"
  by (simp add: watching_indicators rsi_update_def rsi_new_def rsi_reset_def rsi_clear_def computeRsi_def Let_def deq_def)

lemma falling_closeN: "fst (cpw_update (D 50) (st_closeN watching)) = \<lparr> v_ready = True, v_val = D 100 \<rparr>"
  using cpw.feed_good [of 2 "[D 200, D 100, D 50]" 1]
  by (simp add: watching_indicators cpw_good_def Let_def split_beta)

lemma falling_vol: "fst (cv_update (D 50) (st_vol watching)) = \<lparr> v_ready = True, v_val = 0 \<rparr>"
proof -
  have "cv_good 2 [D 200, D 100, D 50] (fst (feed cv_update [D 200, D 100, D 50] (cv_new 2)) ! 2)"
    using cv.feed_good [of "[D 200, D 100, D 50]" 2 2] by (simp add: deq_def del: feed.simps)
  then have "cv_good 2 [D 200, D 100, D 50] (fst (cv_update (D 50) (st_vol watching)))"
    by (simp add: watching_indicators Let_def split_beta)
  then show ?thesis by (cases "fst (cv_update (D 50) (st_vol watching))") (simp add: cv_good_def)
qed


lemma market_ok_vol: "sn_marketOk (candle_sn c s) \<Longrightarrow> v_ready (fst (cv_update (c_close_price c) (st_vol s)))"
  by (auto simp: candle_sn_def buildSnapshot_def cv_update_candle_def Let_def split_beta split: if_splits)

lemma stay_flat:
  assumes "st_state s = Flat" "accepts c s" "as_coin_available a * c_close_price c < min_notional_krw cfg"
    "\<not> v_ready (fst (cv_update (c_close_price c) (st_vol s)))"
  shows "st_state (snd (onCandle cfg uuid c a s)) = Flat"
proof -
  have st: "candle_state cfg c a s = candle_fed c s"
    using assms(1,3) dless_not_le by (auto simp: candle_state_def reconcile_state_def Let_def)
  have "\<not> sn_marketOk (candle_sn c s)" using assms(4) market_ok_vol by blast
  then show ?thesis unfolding candle_decided [OF assms(2)] st using assms(1) by (simp add: maybeEnter_def)
qed

lemma watching_state: "st_state watching = Flat" "st_last_candle_ts watching = Some ''2''"
    "st_market watching = ''KRW-ADA''" "st_params watching = short_params"
proof -
  note cfg = test_config_def default_config_def
  have v: "\<not> v_ready (fst (cv_update (D 200) (cv_new 2)))"
    using cv.feed_good [of "[D 200]" 0 2] by (simp add: deq_def cv_good_def Let_def split_beta)
  have a1: "accepts (candle_at ''1'' (D 200)) (strategy_new ''KRW-ADA'' short_params)"
    by (simp add: accepts_def candle_at_def)
  have 1: "st_state after1 = Flat"
    using stay_flat [OF _ a1, of rich_account test_config "''u1''"] v
    by (simp add: after1_def candle1_def candle_at_def rich_account_def cfg short_params_def)
  have i1: "indicators after1 = (snd (rsi_update (D 200) (rsi_new 1)), snd (cpw_update (D 200) (cpw_new 1)),
      snd (cv_update (D 200) (cv_new 2)), Some ''1'', ''KRW-ADA'')"
    using ind_candle [OF a1, of test_config "''u1''" rich_account]
    by (simp add: after1_def candle1_def candle_at_def short_params_def)
  have a2: "accepts (candle_at ''2'' (D 100)) after1" using i1 by (simp add: accepts_def candle_at_def indicators_def)
  have "\<not> v_ready (fst (cv_update (D 100) (st_vol after1)))"
    using cv.feed_good [of "[D 200, D 100]" 1 2] i1 by (simp add: deq_def cv_good_def Let_def split_beta indicators_def)
  then show "st_state watching = Flat"
    using stay_flat [OF 1 a2, of rich_account test_config "''u2''"]
    by (simp add: watching_def candle2_def candle_at_def rich_account_def cfg)
  have "indicators watching = indicators (snd (onCandle test_config ''u2'' (candle_at ''2'' (D 100)) rich_account after1))"
    by (simp add: watching_def candle2_def)
  then show "st_last_candle_ts watching = Some ''2''"
    using ind_candle [OF a2] by (simp add: indicators_def candle_at_def)
  show "st_market watching = ''KRW-ADA''" "st_params watching = short_params"
    using reach_ok [OF reach_watching] by (simp_all add: strat_ok_def)
qed

lemma falling_buys:
  "orders_of (fst (strat_step test_config candle3 watching)) =
     [buy_order (candle_fed (candle_at ''3'' (D 50)) watching) ''u3'' (D 10000)]"
proof -
  define c where "c = candle_at ''3'' (D 50)"
  have acc: "accepts c watching" by (simp add: c_def accepts_def candle_at_def watching_state)
  have st: "candle_state test_config c rich_account watching = candle_fed c watching"
    by (simp add: candle_state_def reconcile_state_def rich_account_def c_def candle_at_def test_config_def
        default_config_def watching_state)
  have cl: "c_close_price c = D 50" by (simp add: c_def candle_at_def)
  have sn: "sn_rsi (candle_sn c watching) = \<lparr> v_ready = True, v_val = 0 \<rparr>" "sn_marketOk (candle_sn c watching)"
    using falling_rsi falling_closeN falling_vol cl
    by (simp_all add: candle_sn_def buildSnapshot_def rsi_update_candle_def cpw_update_candle_def cv_update_candle_def
        Let_def split_beta deq_def dabs_def watching_state short_params_def)
  have "maybeEnter test_config ''u3'' (candle_sn c watching) rich_account (candle_fed c watching) =
     (submit_decision (buy_order (candle_fed c watching) ''u3'' (D 10000)),
      start_pending PendingEntry (next_id (candle_fed c watching) ''entry_rsi_oversold'' ''u3'') (candle_sn c watching)
        (bump (candle_fed c watching)))"
    using sn by (simp add: maybeEnter_def canBuy_def rich_account_def watching_state short_params_def default_params_def
        test_config_def default_config_def Let_def makeIdentifier_def buy_order_def next_id_def bump_def makeMarketBuyByAmount_def)
  then show ?thesis unfolding candle3_def strat_step.simps c_def [symmetric] candle_decided [OF acc] st
    by (simp add: watching_state)
qed


definition falling_id :: string where
  "falling_id = ''rsi_mean_reversion:KRW-ADA:entry_rsi_oversold:u3''"

lemma falling_id: "next_id (candle_fed c watching) ''entry_rsi_oversold'' ''u3'' = falling_id"
  by (simp add: next_id_def strategy_id_def watching_state falling_id_def)

definition bought_ev :: OrderStatusEvent where
  "bought_ev = \<lparr> ou_identifier = falling_id, ou_status = Filled, ou_position = BID, ou_executed_volume = D 200,
     ou_remaining_volume = 0, ou_executed_funds = D 12000, ou_position_effect = EffOpened \<rparr>"

definition falling_fills :: "FillEvent list" where
  "falling_fills =
     [\<lparr> fv_identifier = falling_id, fv_position = BID, fv_fill_price = D 50, fv_filled_volume = D 100 \<rparr>,
      \<lparr> fv_identifier = ''other'', fv_position = BID, fv_fill_price = D 9, fv_filled_volume = D 100 \<rparr>,
      \<lparr> fv_identifier = falling_id, fv_position = BID, fv_fill_price = D 70, fv_filled_volume = D 100 \<rparr>]"

lemma falling_totals:
  "cost_total (filter (my_fill falling_id) falling_fills) = D 12000"
  "volume_total (filter (my_fill falling_id) falling_fills) = D 200"
proof -
  have "''other'' \<noteq> falling_id" by (simp add: falling_id_def)
  then show "cost_total (filter (my_fill falling_id) falling_fills) = D 12000"
    "volume_total (filter (my_fill falling_id) falling_fills) = D 200"
    by (simp_all add: falling_fills_def my_fill_def cost_total_def volume_total_def)
qed

theorem entry_is_vwap_witness:
  "st_entry_price (snd (onOrderUpdate 0 bought_ev (fold onFill falling_fills
      (snd (strat_step test_config candle3 watching))))) = Some (D 60)"
  using entry_is_vwap [OF reach_watching falling_buys _ _ _ refl refl _ _ _ prod.collapse [symmetric],
      of bought_ev falling_fills 0]
  by (simp add: falling_id falling_totals final_status_def bought_ev_def status_done_def del: strat_step.simps)

text \<open>
  Stop below, target above. In every reachable state with a finite positive entry price, for percentages up to
  a million (negative ones count as 0), the stop is not above the entry price and the target not below it, roundings included.
\<close>

theorem levels_bracket_entry:
  assumes "strat_reach cfg m p s" "st_entry_price s = Some e" "fin e" "0 < e"
    "pr_stopLossPct p \<le> D 1000000" "pr_profitTargetPct p \<le> D 1000000"
  shows "\<exists>stop target. st_stop_price s = Some stop \<and> st_target_price s = Some target \<and> stop \<le> e \<and> e \<le> target"
proof -
  have f: "0 \<le> x / D 100 \<and> fin (x / D 100) \<and> val (x / D 100) \<le> 1000000" if "x = dmax 0 y" "y \<le> D 1000000" for x y
  proof -
    have x: "0 \<le> x" "x \<le> D 1000000" using that dmax_nonneg by (auto simp: dmax_def)
    then have "fin x" using dle_fin by simp
    then have q: "0 \<le> x / D 100" "x / D 100 \<le> x" using ddiv_ge_1 [of x "D 100"] x(1) by simp_all
    then have "fin (x / D 100)" using \<open>fin x\<close> dle_fin by blast
    moreover have "x / D 100 \<le> D 1000000" using q(2) x(2) by (rule dle_trans)
    ultimately show ?thesis using q(1) fin_val_le [of "x / D 100" "D 1000000"] by simp
  qed
  define a b where "a = dmax 0 (pr_stopLossPct p) / D 100" and "b = dmax 0 (pr_profitTargetPct p) / D 100"
  have a: "0 \<le> a" "fin a" "val a \<le> 1000000" and b: "0 \<le> b" "fin b" "val b \<le> 1000000"
    using f [OF refl assms(5)] f [OF refl assms(6)] by (simp_all add: a_def b_def)
  have va: "0 \<le> val a" "0 \<le> val b" using a b fin_val_le [of 0] by auto
  have fa: "fin (1 - a)" "fin (1 + b)" using a b va by (auto simp: fin_diff fin_add intro!: fin_lit)
  have "1 - a \<le> 1" "1 \<le> 1 + b" using a b ddiff_le dadd_ge by auto
  then have v: "val (1 - a) \<le> 1" "1 \<le> val (1 + b)" using fa fin_val_le [of _ 1] fin_val_le [of 1] by auto
  have e: "0 < val e" using assms(3,4) fin_val_less [of 0 e] by simp
  have "D (val e * val (1 - a)) \<le> D (val e)" "D (val e) \<le> D (val e * val (1 + b))"
    using v e by (auto intro!: D_mono simp: mult_le_cancel_left1 mult_le_cancel_left2)
  then have "e * (1 - a) \<le> e" "e \<le> e * (1 + b)" using fa assms(3) by (simp_all add: fin_mult)
  then show ?thesis using reach_ok [OF assms(1)] assms(2)
    by (simp add: strat_ok_def prices_ok_def stop_level_def target_level_def a_def b_def)
qed

theorem levels_bracket_entry_witness:
  "\<exists>stop. st_stop_price holding_strategy = Some stop \<and> stop \<le> D 200"
  using levels_bracket_entry [OF reach_holding [of default_config] holding_facts(2)] by (auto simp: default_params_def)


subsection \<open>All in\<close>

text \<open>The default margin, the amount it leaves of 6238 KRW, and what the engine then asks to reserve.\<close>

lemma margin_D: "D (1001 / 1000) = D (4508103226997866 / 2 ^ 52) \<and> rep (4508103226997866 / 2 ^ 52)"
  using D_near [of 52 "1001 / 1000" 4508103226997866] by simp

lemma spent_D: "D 6238 / D (1001 / 1000) = D (6851901632434255 / 2 ^ 40) \<and> rep (6851901632434255 / 2 ^ 40)"
  using D_near [of 40 "6238 / (4508103226997866 / 2 ^ 52)" 6851901632434255] margin_D by simp

lemma reserved_D: "D (6851901632434255 / 2 ^ 40) * D (1001 / 1000) = D (6858753534066689 / 2 ^ 40)
    \<and> rep (6858753534066689 / 2 ^ 40)"
  using D_near [of 40 "6851901632434255 / 2 ^ 40 * (4508103226997866 / 2 ^ 52)" 6858753534066689] margin_D spent_D by simp


lemma default_margin [simp]: "reserve_margin default_config = D (1001 / 1000)" "min_notional_krw default_config = D 5000"
  by (simp_all add: default_config_def)

lemma all_in_decision:
  assumes "sn_marketOk sn" "v_val (sn_rsi sn) \<le> D 30" "as_krw_available a = D 6238" "st_params s = default_params"
  shows "dn_order (fst (maybeEnter default_config uuid sn a s)) = Some (buy_order s uuid (D (6851901632434255 / 2 ^ 40)))"
proof -
  have "v_val (sn_rsi sn) \<le> pr_oversold (st_params s)" "pr_utilization (st_params s) = 1"
    using assms(2,4) by (simp_all add: default_params_def)
  moreover have "rep (6851901632434255 / 2 ^ 40)" using spent_D by blast
  moreover have "D 6238 / D (1001 / 1000) = D (6851901632434255 / 2 ^ 40)" using spent_D by blast
  ultimately show ?thesis using assms(1,3)
    by (simp add: maybeEnter_def canBuy_def makeIdentifier_def makeMarketBuyByAmount_def buy_order_def next_id_def
        submit_decision_def Let_def)
qed

lemma all_in_reserve: "D 6238 < computeReserveAmount default_config (buy_order s uuid (D (6851901632434255 / 2 ^ 40)))"
  using reserved_D by (simp add: computeReserveAmount_def buy_order_def)

text \<open>
  C26: An order for all the money can be refused by the program itself. With the default configuration and parameters
  (margin 1.001, utilisation 1) and 6238 KRW available, an entry signal makes the strategy ask for
  \<open>6238 / 1.001\<close> KRW, but the engine reserves that amount times \<open>1.001\<close>, which rounds to
  more than 6238: the reservation fails, the order is answered with \<open>InsufficientFunds\<close> whatever the exchange would
  say, and nothing changes that would let the next signal do better.
\<close>

theorem all_in_order_refused:
  assumes "sn_marketOk sn" "v_val (sn_rsi sn) \<le> D 30" "as_krw_available a = D 6238" "st_params s = default_params"
    "st_market s = m" "m \<noteq> []" "me_market e = m" "me_buy_token e = None" "me_sell_uuid e = []"
    "getBudget (env_am env) m = Some b" "mb_available_krw b = as_krw_available a"
  shows "\<exists>r. dn_order (fst (maybeEnter default_config uuid sn a s)) = Some r \<and> validateRequest r = None \<and>
     fst (submit default_config postOrder r (e, env)) = Fail InsufficientFunds (''reserve failed for '' @ m) \<and>
     am_budgets (env_am (snd (snd (submit default_config postOrder r (e, env))))) = am_budgets (env_am env)"
proof -
  define r where "r = buy_order s uuid (D (6851901632434255 / 2 ^ 40))"
  have d: "dn_order (fst (maybeEnter default_config uuid sn a s)) = Some r"
    unfolding r_def by (rule all_in_decision [OF assms(1-4)])
  have over: "D 6238 < computeReserveAmount default_config r" unfolding r_def by (rule all_in_reserve)
  have r: "validateRequest r = None" "rq_market r = m" "rq_position r = BID"
    using assms(5,6) spent_D by (simp_all add: r_def buy_order_def validateRequest_def)
  have "0 < computeReserveAmount default_config r" using over dle_less_trans [of 0 "D 6238"] by simp
  then have "reserve m (computeReserveAmount default_config r) (env_am env) =
     (None, am_count (reserve_failures_update (\<lambda>n. n + 1)) (env_am env))"
    using assms(3,10,11) over dless_not_le by (auto simp: reserve_def)
  then show ?thesis using d r assms(7-9)
    by (auto simp: submit_def submit_reserve_def am_count_def)
qed

definition signal_snap :: Snapshot where
  "signal_snap = empty_snapshot \<lparr> sn_close := D 50, sn_rsi := \<lparr> v_ready = True, v_val = D 20 \<rparr>, sn_marketOk := True \<rparr>"

definition tight_env :: Env where
  "tight_env = test_env \<lparr> env_am := (env_am test_env) \<lparr> am_budgets := [(''KRW-ADA'',
     \<lparr> mb_market = ''KRW-ADA'', mb_available_krw = D 6238, mb_reserved_krw = 0, mb_coin_balance = 0, mb_avg_entry_price = 0,
       mb_initial_capital = D 6238, mb_realized_pnl = 0 \<rparr>)] \<rparr> \<rparr>"

definition tight_account :: AccountSnapshot where
  "tight_account = \<lparr> as_krw_available = D 6238, as_coin_available = 0 \<rparr>"

theorem all_in_order_refused_witness:
  "\<exists>r. dn_order (fst (maybeEnter default_config ''u1'' signal_snap tight_account
         (strategy_new ''KRW-ADA'' default_params))) = Some r \<and>
     fst (submit default_config (\<lambda>_. Inr ''o1'') r (me_new ''KRW-ADA'', tight_env)) =
       Fail InsufficientFunds (''reserve failed for '' @ ''KRW-ADA'')"
proof -
  obtain b where b: "getBudget (env_am tight_env) ''KRW-ADA'' = Some b" "mb_available_krw b = as_krw_available tight_account"
    by (simp add: tight_env_def getBudget_def tight_account_def)
  have "sn_marketOk signal_snap" "v_val (sn_rsi signal_snap) \<le> D 30" by (simp_all add: signal_snap_def)
  moreover have "as_krw_available tight_account = D 6238" by (simp add: tight_account_def)
  moreover have "me_market (me_new ''KRW-ADA'') = ''KRW-ADA''" "me_buy_token (me_new ''KRW-ADA'') = None"
    "me_sell_uuid (me_new ''KRW-ADA'') = []" by (simp_all add: me_new_def)
  ultimately show ?thesis
    using all_in_order_refused [of signal_snap tight_account "strategy_new ''KRW-ADA'' default_params" "''KRW-ADA''",
        OF _ _ _ _ _ _ _ _ _ b, of "me_new ''KRW-ADA''" "''u1''" "\<lambda>_. Inr ''o1''"]
    by (simp only: new_indicators) blast
qed

end
