(* ===== verification/Rest.thy ===== *)
theory Rest
  imports NumberText
begin

text \<open>
  The transport layer of \<open>src/src/api/rest\<close>: the types of \<open>HttpTypes.h\<close>, \<open>RestError.h\<close> and \<open>RetryPolicy.h\<close>, and the
  retry loop of \<open>RestClient.cpp\<close>. One exchange with the server (\<open>performOnce\<close>: name resolution, TLS and HTTP through
  Boost) is an argument here: the answer to the attempt with a given number; theory \<open>Transport\<close> gives it stage by stage. Delays
  are in milliseconds.
\<close>

section \<open>Types\<close>

datatype RestErrorCode =
    ResolveFailed | ConnectFailed | HandshakeFailed | WriteFailed | ReadFailed | Timeout | BadStatus
  | RestInvalidArgument | ParseError | UnknownError

fun rest_error_code_str :: "RestErrorCode \<Rightarrow> string" where
  "rest_error_code_str ResolveFailed = ''ResolveFailed''"
| "rest_error_code_str ConnectFailed = ''ConnectFailed''"
| "rest_error_code_str HandshakeFailed = ''HandshakeFailed''"
| "rest_error_code_str WriteFailed = ''WriteFailed''"
| "rest_error_code_str ReadFailed = ''ReadFailed''"
| "rest_error_code_str Timeout = ''Timeout''"
| "rest_error_code_str BadStatus = ''BadStatus''"
| "rest_error_code_str RestInvalidArgument = ''InvalidArgument''"
| "rest_error_code_str ParseError = ''ParseError''"
| "rest_error_code_str UnknownError = ''Unknown''"

record RestError =
  re_code :: RestErrorCode
  re_message :: string
  re_http_status :: int

datatype HttpMethod = Get | Post | Put | Delete

record HttpRequest =
  hq_method :: HttpMethod
  hq_host :: string
  hq_port :: string
  hq_target :: string
  hq_headers :: "(string \<times> string) list"
  hq_body :: string
  hq_timeout :: int

record HttpResponse =
  hr_status :: int
  hr_headers :: "(string \<times> string) list"
  hr_body :: string

record RetryPolicy =
  rp_max_attempts :: nat
  rp_base_delay :: int
  rp_backoff_multiplier :: double
  rp_retry_on_429 :: bool
  rp_retry_on_5xx :: bool
  rp_retry_on_timeout :: bool
  rp_retry_on_connect_fail :: bool
  rp_retry_on_read_write_fail :: bool

definition default_retry :: RetryPolicy where
  "default_retry = \<lparr> rp_max_attempts = 2, rp_base_delay = 200, rp_backoff_multiplier = D 2, rp_retry_on_429 = True,
     rp_retry_on_5xx = True, rp_retry_on_timeout = True, rp_retry_on_connect_fail = True,
     rp_retry_on_read_write_fail = True \<rparr>"

section \<open>Retrying\<close>

definition shouldRetryStatus :: "int \<Rightarrow> RetryPolicy \<Rightarrow> bool" where
  "shouldRetryStatus status p =
     (let is429 = (status = 429); is5xx = (500 \<le> status \<and> status \<le> 599)
      in if is429 then rp_retry_on_429 p else if is5xx then rp_retry_on_5xx p else False)"

fun retry_code :: "RestErrorCode \<Rightarrow> RetryPolicy \<Rightarrow> bool" where
  "retry_code Timeout p = rp_retry_on_timeout p"
| "retry_code ConnectFailed p = rp_retry_on_connect_fail p"
| "retry_code ResolveFailed p = rp_retry_on_connect_fail p"
| "retry_code HandshakeFailed p = rp_retry_on_connect_fail p"
| "retry_code ReadFailed p = rp_retry_on_read_write_fail p"
| "retry_code WriteFailed p = rp_retry_on_read_write_fail p"
| "retry_code _ p = False"

definition shouldRetryError :: "RestError \<Rightarrow> RetryPolicy \<Rightarrow> bool" where
  "shouldRetryError e p = retry_code (re_code e) p"

text \<open>Conversion of a double to \<open>long long\<close>: truncation; what does not fit gives the least value, as the instruction of
  x86-64 does (the language leaves it undefined).\<close>

definition to_long_long :: "double \<Rightarrow> int" where
  "to_long_long x =
     (let t = (if 0 \<le> val x then \<lfloor>val x\<rfloor> else \<lceil>val x\<rceil>)
      in if fin x \<and> - (2 ^ 63) \<le> t \<and> t < 2 ^ 63 then t else - (2 ^ 63))"

definition nextDelay :: "int \<Rightarrow> double \<Rightarrow> int" where
  "nextDelay cur mult =
     (let next = to_long_long (D (of_int cur) * mult);
          next = (if next < 0 then cur else next)
      in if 10000 < next then 10000 else next)"

definition retryable :: "RetryPolicy \<Rightarrow> RestError + HttpResponse \<Rightarrow> bool" where
  "retryable p r = (case r of Inr resp \<Rightarrow> shouldRetryStatus (hr_status resp) p | Inl err \<Rightarrow> shouldRetryError err p)"

text \<open>The loop: \<open>once n\<close> is the answer to attempt \<open>n\<close>; the result is the last answer and the delays slept.\<close>

function perform_loop ::
    "(nat \<Rightarrow> RestError + HttpResponse) \<Rightarrow> RetryPolicy \<Rightarrow> nat \<Rightarrow> int \<Rightarrow> (RestError + HttpResponse) \<times> int list" where
  "perform_loop once retry attempt delay =
     (let attempt1 = attempt + 1; r = once attempt1
      in if retryable retry r \<and> attempt1 < rp_max_attempts retry then
           (let (res, sleeps) = perform_loop once retry attempt1 (nextDelay delay (rp_backoff_multiplier retry))
            in (res, delay # sleeps))
         else (r, []))"
  by pat_completeness auto
termination by (relation "measure (\<lambda>(once, retry, attempt, delay). rp_max_attempts retry - attempt)") auto

declare perform_loop.simps [simp del]

definition perform ::
    "(nat \<Rightarrow> HttpRequest \<Rightarrow> RestError + HttpResponse) \<Rightarrow> HttpRequest \<Rightarrow> RetryPolicy \<Rightarrow> (RestError + HttpResponse) \<times> int list" where
  "perform performOnce req retry =
     (if hq_host req = [] \<or> hq_target req = [] then
        (Inl \<lparr> re_code = RestInvalidArgument, re_message = ''host/target is empty'', re_http_status = 0 \<rparr>, [])
      else perform_loop (\<lambda>n. performOnce n req) retry 0 (rp_base_delay retry))"

section \<open>Properties\<close>

lemma nextDelay_bounds: "0 \<le> cur \<Longrightarrow> 0 \<le> nextDelay cur mult \<and> nextDelay cur mult \<le> 10000"
  by (simp add: nextDelay_def Let_def)

lemma perform_loop_spec:
  "0 \<le> delay \<Longrightarrow> (case perform_loop once retry attempt delay of (res, sleeps) \<Rightarrow>
     res = once (attempt + length sleeps + 1) \<and>
     (\<forall>k < length sleeps. retryable retry (once (attempt + k + 1))) \<and>
     (sleeps \<noteq> [] \<longrightarrow> attempt + length sleeps < rp_max_attempts retry) \<and>
     (retryable retry res \<longrightarrow> rp_max_attempts retry \<le> attempt + length sleeps + 1) \<and>
     (\<forall>s \<in> set sleeps. 0 \<le> s \<and> s \<le> max delay 10000))"
proof (induction once retry attempt delay rule: perform_loop.induct)
  case (1 once retry attempt delay)
  show ?case
  proof (cases "retryable retry (once (attempt + 1)) \<and> attempt + 1 < rp_max_attempts retry")
    case True
    define d where "d = nextDelay delay (rp_backoff_multiplier retry)"
    have d: "0 \<le> d" "d \<le> 10000" using nextDelay_bounds [OF "1.prems"] by (auto simp: d_def)
    obtain res sleeps where r: "perform_loop once retry (attempt + 1) d = (res, sleeps)" by fastforce
    have e: "perform_loop once retry attempt delay = (res, delay # sleeps)"
      using True r by (subst perform_loop.simps) (simp add: Let_def d_def)
    note ih = "1.IH" [OF refl refl True, folded d_def, OF d(1), unfolded r]
    have "retryable retry (once (attempt + k + 1))" if "k < length (delay # sleeps)" for k
      using that ih True by (cases k) auto
    then show ?thesis using ih True d "1.prems" unfolding e by (auto simp: max_def split: if_splits)
  next
    case False
    then have "perform_loop once retry attempt delay = (once (attempt + 1), [])"
      by (subst perform_loop.simps) (simp only: Let_def if_False)
    then show ?thesis using False by auto
  qed
qed

text \<open>
  C29: A request is retried a bounded number of times, for the right reasons. Whatever the server answers, \<open>perform\<close>
  returns: after at most \<open>max_attempts\<close> attempts (one at least) it hands back the answer of the last attempt; every
  earlier answer was one the policy retries; if the last answer is one of those too, the attempts were
  used up; and no delay is negative or longer than the larger of the base delay and ten seconds.
\<close>

theorem retries_bounded:
  assumes "hq_host req \<noteq> []" "hq_target req \<noteq> []" "0 \<le> rp_base_delay retry"
    "perform performOnce req retry = (res, sleeps)"
  shows "res = performOnce (length sleeps + 1) req \<and> length sleeps + 1 \<le> max 1 (rp_max_attempts retry) \<and>
     (\<forall>k < length sleeps. retryable retry (performOnce (k + 1) req)) \<and>
     (retryable retry res \<longrightarrow> rp_max_attempts retry \<le> length sleeps + 1) \<and>
     (\<forall>s \<in> set sleeps. 0 \<le> s \<and> s \<le> max (rp_base_delay retry) 10000)"
  using perform_loop_spec [OF assms(3), where once = "\<lambda>n. performOnce n req" and retry = retry and attempt = 0] assms
  by (cases "sleeps = []") (auto simp: perform_def)

definition busy_then_ok :: "nat \<Rightarrow> HttpRequest \<Rightarrow> RestError + HttpResponse" where
  "busy_then_ok n req = Inr \<lparr> hr_status = (if n = 1 then 429 else 200), hr_headers = [], hr_body = [] \<rparr>"

definition ping :: HttpRequest where
  "ping = \<lparr> hq_method = Get, hq_host = ''api.upbit.com'', hq_port = ''443'', hq_target = ''/v1/accounts'', hq_headers = [],
     hq_body = [], hq_timeout = 5000 \<rparr>"

theorem retries_bounded_witness:
  "length (snd (perform busy_then_ok ping default_retry)) + 1 \<le> 2 \<and>
   fst (perform busy_then_ok ping default_retry) = busy_then_ok 2 ping"
proof -
  define p where "p = perform busy_then_ok ping default_retry"
  have r: "fst p = busy_then_ok (length (snd p) + 1) ping" "length (snd p) + 1 \<le> 2"
    "retryable default_retry (fst p) \<longrightarrow> 2 \<le> length (snd p) + 1"
    using retries_bounded [of ping default_retry busy_then_ok "fst p" "snd p"]
    by (auto simp: ping_def default_retry_def p_def)
  have "length (snd p) + 1 = 2"
  proof (rule ccontr)
    assume "length (snd p) + 1 \<noteq> 2"
    then have "length (snd p) = 0" using r(2) by linarith
    then have "retryable default_retry (fst p)"
      using r(1) by (simp add: busy_then_ok_def retryable_def shouldRetryStatus_def default_retry_def)
    then show False using r(3) \<open>length (snd p) = 0\<close> by simp
  qed
  then show ?thesis using r(1,2) unfolding p_def by (simp only: simp_thms)
qed

end
