(* ===== verification/UrlCodec.thy ===== *)
theory UrlCodec
  imports NumberText
begin

text \<open>
  The text encodings of the program: percent-encoding of \<open>src/src/util/UrlCodec.h\<close>, and the base64url encoding and the token
  of \<open>src/src/api/auth/UpbitJwtSigner.cpp\<close>. A \<open>char\<close> is a byte. The hash functions (OpenSSL), the JSON writer and the random
  nonce are arguments of the token.
\<close>

section \<open>Percent-encoding\<close>

definition hex_digit :: "nat \<Rightarrow> char" where
  "hex_digit n = (if n < 10 then char_of (48 + n) else char_of (55 + n))"

definition unreserved :: "char \<Rightarrow> bool" where
  "unreserved c \<longleftrightarrow> 65 \<le> code c \<and> code c \<le> 90 \<or> 97 \<le> code c \<and> code c \<le> 122 \<or> 48 \<le> code c \<and> code c \<le> 57 \<or>
     c = CHR ''-'' \<or> c = CHR ''_'' \<or> c = CHR ''.'' \<or> c = CHR ''~''"

definition encode_char :: "char \<Rightarrow> string" where
  "encode_char c = (if unreserved c then [c] else [CHR ''%'', hex_digit (code c div 16), hex_digit (code c mod 16)])"

definition encodeComponent :: "string \<Rightarrow> string" where
  "encodeComponent s = concat (map encode_char s)"

fun decodePercent :: "string \<Rightarrow> string" where
  "decodePercent (c # h # l # s) =
     (if c = CHR ''%'' \<and> 0 \<le> fromHex h \<and> 0 \<le> fromHex l then char_of (nat (fromHex h) * 16 + nat (fromHex l)) # decodePercent s
      else c # decodePercent (h # l # s))"
| "decodePercent s = s"

lemma fromHex_hex_digit: "n < 16 \<Longrightarrow> fromHex (hex_digit n) = int n"
  by (auto simp: fromHex_def hex_digit_def)

lemma unreserved_not_percent: "unreserved c \<Longrightarrow> c \<noteq> CHR ''%''"
  by (auto simp: unreserved_def)

lemma decode_plain: "c \<noteq> CHR ''%'' \<Longrightarrow> decodePercent (c # s) = c # decodePercent s"
  by (cases s; cases "tl s") auto

lemma decode_encoded: "decodePercent (encode_char c @ s) = c # decodePercent s"
proof (cases "unreserved c")
  case True
  then show ?thesis using decode_plain unreserved_not_percent by (simp add: encode_char_def)
next
  case False
  have "code c div 16 < 16" "code c mod 16 < 16"
    using less_mult_imp_div_less [of "code c" 16 16] nat_of_char_less_256 [of c] by simp_all
  then have "fromHex (hex_digit (code c div 16)) = int (code c div 16)" "fromHex (hex_digit (code c mod 16)) = int (code c mod 16)"
    by (auto intro: fromHex_hex_digit)
  then show ?thesis using False by (simp add: encode_char_def)
qed

lemma decode_encode_append: "decodePercent (encodeComponent s @ t) = s @ decodePercent t"
  by (induction s) (simp_all add: encodeComponent_def decode_encoded)

lemma decode_encode: "decodePercent (encodeComponent s) = s"
  using decode_encode_append [of s "[]"] by simp

lemma encode_chars: "c \<in> set (encodeComponent s) \<Longrightarrow> unreserved c \<or> c = CHR ''%''"
proof -
  have h: "unreserved (hex_digit n)" if "n < 16" for n using that by (auto simp: unreserved_def hex_digit_def)
  have "code x div 16 < 16" "code x mod 16 < 16" for x
    using less_mult_imp_div_less [of "code x" 16 16] nat_of_char_less_256 [of x] by simp_all
  then show "c \<in> set (encodeComponent s) \<Longrightarrow> unreserved c \<or> c = CHR ''%''"
    using h by (auto simp: encodeComponent_def encode_char_def split: if_splits)
qed

section \<open>base64url\<close>

definition b64 :: string where
  "b64 = ''ABCDEFGHIJKLMNOPQRSTUVWXYZabcdefghijklmnopqrstuvwxyz0123456789+/''"

text \<open>The bytes of a group occupy disjoint bits, so their combination by shift and \<open>or\<close> is a sum; a character takes six
  bits of it.\<close>

definition sextet :: "nat \<Rightarrow> nat \<Rightarrow> char" where
  "sextet v shift = b64 ! ((v div 2 ^ shift) mod 64)"

fun b64_groups :: "nat list \<Rightarrow> string" where
  "b64_groups (x # y # z # r) =
     (let v = x * 2 ^ 16 + y * 2 ^ 8 + z in [sextet v 18, sextet v 12, sextet v 6, sextet v 0] @ b64_groups r)"
| "b64_groups [x, y] = (let v = x * 2 ^ 16 + y * 2 ^ 8 in [sextet v 18, sextet v 12, sextet v 6, CHR ''=''])"
| "b64_groups [x] = (let v = x * 2 ^ 16 in [sextet v 18, sextet v 12, CHR ''='', CHR ''=''])"
| "b64_groups [] = []"

definition url_safe :: "char \<Rightarrow> char" where
  "url_safe c = (if c = CHR ''+'' then CHR ''-'' else if c = CHR ''/'' then CHR ''_'' else c)"

definition base64UrlEncode :: "string \<Rightarrow> string" where
  "base64UrlEncode data =
     (let out = map url_safe (b64_groups (map code data))
      in rev (dropWhile (\<lambda>c. c = CHR ''='') (rev out)))"

section \<open>The token\<close>

definition hex_lower :: "nat \<Rightarrow> char" where
  "hex_lower n = (if n < 10 then char_of (48 + n) else char_of (87 + n))"

definition sha512Hex :: "(string \<Rightarrow> string) \<Rightarrow> string \<Rightarrow> string" where
  "sha512Hex SHA512 s = concat (map (\<lambda>c. [hex_lower (code c div 16), hex_lower (code c mod 16)]) (SHA512 s))"

text \<open>Arguments: the two hash functions, the writer of a flat JSON object, the random nonce; then the members of the signer.\<close>

definition token_payload :: "(string \<Rightarrow> string) \<Rightarrow> string \<Rightarrow> string \<Rightarrow> string option \<Rightarrow> (string \<times> string) list" where
  "token_payload SHA512 nonce access query_string =
     [(''access_key'', access), (''nonce'', nonce)] @
     (case query_string of
        Some q \<Rightarrow> if q \<noteq> [] then [(''query_hash'', sha512Hex SHA512 q), (''query_hash_alg'', ''SHA512'')] else []
      | None \<Rightarrow> [])"

definition makeBearerToken ::
    "(string \<Rightarrow> string) \<Rightarrow> (string \<Rightarrow> string \<Rightarrow> string) \<Rightarrow> ((string \<times> string) list \<Rightarrow> string) \<Rightarrow> string \<Rightarrow> string \<Rightarrow> string \<Rightarrow>
     string option \<Rightarrow> string" where
  "makeBearerToken SHA512 hmac dump nonce access secret query_string =
     (let encHeader = base64UrlEncode (dump [(''alg'', ''HS512''), (''typ'', ''JWT'')]);
          encPayload = base64UrlEncode (dump (token_payload SHA512 nonce access query_string));
          signingInput = encHeader @ ''.'' @ encPayload;
          encSig = base64UrlEncode (hmac secret signingInput)
      in ''Bearer '' @ signingInput @ ''.'' @ encSig)"

section \<open>Properties\<close>

text \<open>
  C30: Percent-encoding is lossless and safe in a query: for every byte string decoding the encoded text gives it back,
  also in front of any other text; and the encoded text consists of unreserved characters and percent signs only, so it
  contains no \<open>&\<close>, \<open>=\<close>, \<open>+\<close>, \<open>?\<close> or space.
\<close>

theorem percent_encoding_roundtrip:
  "decodePercent (encodeComponent s @ t) = s @ decodePercent t \<and>
   set (encodeComponent s) \<subseteq> {c. unreserved c} \<union> {CHR ''%''}"
  using decode_encode_append encode_chars by blast

text \<open>The reference decoder of RFC 4648 for the URL-safe alphabet without padding.\<close>

definition sextet_value :: "char \<Rightarrow> nat" where
  "sextet_value c =
     (if 65 \<le> code c \<and> code c \<le> 90 then code c - 65
      else if 97 \<le> code c \<and> code c \<le> 122 then code c - 71
      else if 48 \<le> code c \<and> code c \<le> 57 then code c + 4
      else if c = CHR ''-'' then 62 else 63)"

fun b64url_decode :: "string \<Rightarrow> nat list" where
  "b64url_decode (a # b # c # d # r) =
     (let v = sextet_value a * 2 ^ 18 + sextet_value b * 2 ^ 12 + sextet_value c * 2 ^ 6 + sextet_value d
      in [v div 2 ^ 16, (v div 2 ^ 8) mod 2 ^ 8, v mod 2 ^ 8] @ b64url_decode r)"
| "b64url_decode [a, b, c] =
     (let v = sextet_value a * 2 ^ 18 + sextet_value b * 2 ^ 12 + sextet_value c * 2 ^ 6
      in [v div 2 ^ 16, (v div 2 ^ 8) mod 2 ^ 8])"
| "b64url_decode [a, b] = (let v = sextet_value a * 2 ^ 18 + sextet_value b * 2 ^ 12 in [v div 2 ^ 16])"
| "b64url_decode _ = []"

definition url_alphabet :: "char set" where
  "url_alphabet = {c. unreserved c} - {CHR ''.'', CHR ''~''}"

lemma alphabet_values: "map (\<lambda>c. sextet_value (url_safe c)) b64 = [0..<64]"
  by (simp add: b64_def url_safe_def sextet_value_def upt_conv_Cons)

lemma alphabet_safe: "list_all (\<lambda>c. url_safe c \<in> url_alphabet) b64"
  by (simp add: b64_def url_safe_def url_alphabet_def unreserved_def)

lemma length_b64 [simp]: "length b64 = 64"
  by (simp add: b64_def)

lemma alphabet_nth: "n < 64 \<Longrightarrow> sextet_value (url_safe (b64 ! n)) = n \<and> url_safe (b64 ! n) \<in> url_alphabet"
proof -
  assume n: "n < 64"
  then have "map (\<lambda>c. sextet_value (url_safe c)) b64 ! n = [0..<64] ! n" by (simp only: alphabet_values)
  then show ?thesis using n alphabet_safe by (simp add: list_all_length)
qed

lemma sextet_table [simp]:
  "sextet_value (url_safe (sextet v k)) = (v div 2 ^ k) mod 64"
  "url_safe (sextet v k) \<in> url_alphabet"
  using alphabet_nth [of "(v div 2 ^ k) mod 64"] by (simp_all add: sextet_def)

lemma alphabet_no_pad [simp]: "CHR ''='' \<notin> url_alphabet" "CHR ''.'' \<notin> url_alphabet"
  by (simp_all add: url_alphabet_def unreserved_def)

text \<open>Without the padding: what remains of the groups.\<close>

fun b64_bare :: "nat list \<Rightarrow> string" where
  "b64_bare (x # y # z # r) =
     (let v = x * 2 ^ 16 + y * 2 ^ 8 + z in map url_safe [sextet v 18, sextet v 12, sextet v 6, sextet v 0] @ b64_bare r)"
| "b64_bare [x, y] = (let v = x * 2 ^ 16 + y * 2 ^ 8 in map url_safe [sextet v 18, sextet v 12, sextet v 6])"
| "b64_bare [x] = (let v = x * 2 ^ 16 in map url_safe [sextet v 18, sextet v 12])"
| "b64_bare [] = []"

lemma bare_alphabet: "set (b64_bare xs) \<subseteq> url_alphabet"
  by (induction xs rule: b64_bare.induct) (auto simp: Let_def)

lemma groups_bare: "\<exists>n. map url_safe (b64_groups xs) = b64_bare xs @ replicate n (CHR ''='')"
proof (induction xs rule: b64_bare.induct)
  case (2 x y)
  have "map url_safe (b64_groups [x, y]) = b64_bare [x, y] @ replicate 1 (CHR ''='')" by (simp add: Let_def url_safe_def [of "CHR ''=''"])
  then show ?case by blast
next
  case (3 x)
  have "map url_safe (b64_groups [x]) = b64_bare [x] @ replicate 2 (CHR ''='')"
    by (simp add: Let_def url_safe_def [of "CHR ''=''"] numeral_2_eq_2)
  then show ?case by blast
qed (auto simp: Let_def)

lemma strip_pad: "CHR ''='' \<notin> set s \<Longrightarrow> rev (dropWhile (\<lambda>c. c = CHR ''='') (rev (s @ replicate n (CHR ''='')))) = s"
proof -
  assume s: "CHR ''='' \<notin> set s"
  have "dropWhile (\<lambda>c. c = CHR ''='') (replicate n (CHR ''='') @ rev s) = dropWhile (\<lambda>c. c = CHR ''='') (rev s)"
    by (induction n) auto
  also have "\<dots> = rev s" using s by (cases "rev s") (auto simp: rev_swap)
  finally show ?thesis by simp
qed

lemma encode_bare: "base64UrlEncode data = b64_bare (map code data)"
proof -
  obtain n where "map url_safe (b64_groups (map code data)) = b64_bare (map code data) @ replicate n (CHR ''='')"
    using groups_bare by blast
  moreover have "CHR ''='' \<notin> set (b64_bare (map code data))" using bare_alphabet alphabet_no_pad(1) by blast
  ultimately show ?thesis using strip_pad by (simp add: base64UrlEncode_def)
qed

text \<open>Six bits at a time and back.\<close>

lemma split24: "v < 2 ^ 24 \<Longrightarrow>
   (v div 2 ^ 18) mod 64 * 2 ^ 18 + (v div 2 ^ 12) mod 64 * 2 ^ 12 + (v div 2 ^ 6) mod 64 * 2 ^ 6 + (v div 2 ^ 0) mod 64 = (v :: nat)"
proof -
  assume v: "v < 2 ^ 24"
  have d: "v div 2 ^ (k + 6) = v div 2 ^ k div 64" for k by (simp add: div_mult2_eq power_add)
  have m: "x div 64 * 64 + x mod 64 = x" for x :: nat by (rule div_mult_mod_eq)
  define a b c where "a = v div 64" and "b = a div 64" and "c = b div 64"
  have "c < 64" using v by (simp add: a_def b_def c_def less_mult_imp_div_less)
  moreover have "v div 2 ^ 6 = a" "v div 2 ^ 12 = b" "v div 2 ^ 18 = c" "v div 2 ^ 0 = v"
    using d [of 0] d [of 6] d [of 12] by (simp_all add: a_def b_def c_def)
  moreover have "a * 64 + v mod 64 = v" "b * 64 + a mod 64 = a" "c * 64 + b mod 64 = b"
    using m by (simp_all add: a_def b_def c_def)
  ultimately show ?thesis by simp
qed

lemma bytes_of: "y < 256 \<Longrightarrow> z < 256 \<Longrightarrow> (x * 2 ^ 16 + y * 2 ^ 8 + z) div 2 ^ 16 = x \<and>
    (x * 2 ^ 16 + y * 2 ^ 8 + z) div 2 ^ 8 mod 2 ^ 8 = y \<and> (x * 2 ^ 16 + y * 2 ^ 8 + z) mod 2 ^ 8 = (z :: nat)"
proof -
  assume b: "y < 256" "z < 256"
  have e: "x * 2 ^ 16 + y * 2 ^ 8 + z = (x * 256 + y) * 256 + z" by simp
  have "((x * 256 + y) * 256 + z) div 256 = x * 256 + y" "((x * 256 + y) * 256 + z) mod 256 = z"
    using b by (simp_all only: div_mult_self3 mod_mult_self3 div_less mod_less)
  moreover from this have "((x * 256 + y) * 256 + z) div 2 ^ 16 = x"
    using b div_mult2_eq [of "(x * 256 + y) * 256 + z" 256 256] by simp
  ultimately show ?thesis using b unfolding e by simp
qed

lemma decode_group:
  "v < 2 ^ 24 \<Longrightarrow> b64url_decode (map url_safe [sextet v 18, sextet v 12, sextet v 6, sextet v 0] @ r) =
     [v div 2 ^ 16, (v div 2 ^ 8) mod 2 ^ 8, v mod 2 ^ 8] @ b64url_decode r"
  by (simp only: list.map append.simps b64url_decode.simps Let_def sextet_table split24)

lemma decode_two: "v < 2 ^ 24 \<Longrightarrow> v mod 64 = 0 \<Longrightarrow>
   b64url_decode (map url_safe [sextet v 18, sextet v 12, sextet v 6]) = [v div 2 ^ 16, (v div 2 ^ 8) mod 2 ^ 8]"
  using split24 [of v] by (simp only: list.map b64url_decode.simps Let_def sextet_table power_0 div_by_1 add_0_right)

lemma decode_one: "v < 2 ^ 24 \<Longrightarrow> v mod 64 = 0 \<Longrightarrow> (v div 2 ^ 6) mod 64 = 0 \<Longrightarrow>
   b64url_decode (map url_safe [sextet v 18, sextet v 12]) = [v div 2 ^ 16]"
  using split24 [of v] by (simp only: list.map b64url_decode.simps Let_def sextet_table power_0 div_by_1 add_0_right mult_0)

lemma decode_bare: "\<forall>x \<in> set xs. x < 256 \<Longrightarrow> b64url_decode (b64_bare xs) = xs"
proof (induction xs rule: b64_bare.induct)
  case (1 x y z r)
  define v where "v = x * 2 ^ 16 + y * 2 ^ 8 + z"
  have b: "x < 256" "y < 256" "z < 256" using 1 by auto
  then have "v < 2 ^ 24" by (simp add: v_def)
  moreover have "v div 2 ^ 16 = x" "(v div 2 ^ 8) mod 2 ^ 8 = y" "v mod 2 ^ 8 = z"
    using bytes_of [OF b(2,3), of x] by (simp_all only: v_def)
  moreover have "b64url_decode (b64_bare r) = r" using 1 by simp
  ultimately show ?case by (simp only: b64_bare.simps Let_def v_def [symmetric] decode_group append.simps)
next
  case (2 x y)
  define v where "v = x * 2 ^ 16 + y * 2 ^ 8"
  have b: "x < 256" "y < 256" using 2 by auto
  have "v < 2 ^ 24" "v mod 64 = 0" using b by (simp_all add: v_def)
  moreover have "v div 2 ^ 16 = x" "(v div 2 ^ 8) mod 2 ^ 8 = y"
    using bytes_of [OF b(2), of 0 x] by (simp_all only: v_def add_0_right)
  ultimately show ?case by (simp only: b64_bare.simps Let_def v_def [symmetric] decode_two)
next
  case (3 x)
  define v where "v = x * 2 ^ 16"
  have "v < 2 ^ 24" "v mod 64 = 0" "(v div 2 ^ 6) mod 64 = 0" "v div 2 ^ 16 = x" using 3 by (simp_all add: v_def)
  then show ?case by (simp only: b64_bare.simps Let_def v_def [symmetric] decode_one)
qed simp

lemma base64_roundtrip: "b64url_decode (base64UrlEncode data) = map code data" "set (base64UrlEncode data) \<subseteq> url_alphabet"
  using decode_bare [of "map code data"] bare_alphabet by (auto simp: encode_bare nat_of_char_less_256)

text \<open>
  The token is a well-formed JWT that carries what was signed. For any keys, nonce, query and hash functions the
  bearer token is three dot-separated texts without dots inside, over the URL-safe alphabet without padding, which decode (RFC 4648)
  to the header, to the payload, and to the keyed hash of the first two texts joined by a dot; and the payload names the
  hash of the query exactly when there is a nonempty query.
\<close>

theorem bearer_token_decodes:
  "\<exists>h p g. makeBearerToken SHA512 hmac dump nonce access secret query = ''Bearer '' @ h @ ''.'' @ p @ ''.'' @ g \<and>
     CHR ''.'' \<notin> set (h @ p @ g) \<and> set (h @ p @ g) \<subseteq> url_alphabet \<and>
     b64url_decode h = map code (dump [(''alg'', ''HS512''), (''typ'', ''JWT'')]) \<and>
     b64url_decode p = map code (dump (token_payload SHA512 nonce access query)) \<and>
     b64url_decode g = map code (hmac secret (h @ ''.'' @ p)) \<and>
     map_of (token_payload SHA512 nonce access query) ''query_hash'' =
       (case query of None \<Rightarrow> None | Some q \<Rightarrow> if q = [] then None else Some (sha512Hex SHA512 q))"
proof -
  define h where "h = base64UrlEncode (dump [(''alg'', ''HS512''), (''typ'', ''JWT'')])"
  define p where "p = base64UrlEncode (dump (token_payload SHA512 nonce access query))"
  define g where "g = base64UrlEncode (hmac secret (h @ ''.'' @ p))"
  have "makeBearerToken SHA512 hmac dump nonce access secret query = ''Bearer '' @ h @ ''.'' @ p @ ''.'' @ g"
    by (simp add: makeBearerToken_def Let_def h_def p_def g_def)
  moreover have sub: "set (h @ p @ g) \<subseteq> url_alphabet"
    using base64_roundtrip(2) by (simp add: h_def p_def g_def)
  moreover from this have "CHR ''.'' \<notin> set (h @ p @ g)" using alphabet_no_pad(2) by blast
  moreover have "map_of (token_payload SHA512 nonce access query) ''query_hash'' =
       (case query of None \<Rightarrow> None | Some q \<Rightarrow> if q = [] then None else Some (sha512Hex SHA512 q))"
    by (auto simp: token_payload_def split: option.split)
  ultimately show ?thesis using base64_roundtrip(1) h_def p_def g_def by blast
qed

end
