(* ===== verification/ExchangeClient.thy ===== *)
theory ExchangeClient
  imports Rest UrlCodec UpbitMappers "HOL-Library.List_Lexorder" "HOL-Library.Char_ord"
begin

text \<open>
  The private REST client, \<open>src/src/api/upbit/UpbitExchangeRestClient.cpp\<close>: how requests are built, signed and checked, and how
  answers become domain values or errors. Arguments are what the file only calls: \<open>rest\<close> (\<open>RestClient::perform\<close> with the
  default policy, see \<open>Rest\<close>), \<open>sign\<close> (\<open>UpbitJwtSigner::makeBearerToken\<close>, see \<open>UrlCodec\<close>), and the JSON library:
  \<open>parse\<close> of a text into a value of its type (an exception is its message), \<open>read\<close> of a value into a transfer object,
  \<open>dump\<close> of a flat object. Logging is left out.
\<close>

section \<open>Errors and queries\<close>

definition isSuccessStatus :: "int \<Rightarrow> bool" where
  "isSuccessStatus status \<longleftrightarrow> 200 \<le> status \<and> status \<le> 299"

definition bodySnippet :: "string \<Rightarrow> string" where
  "bodySnippet body = take 256 body"

definition makeHttpStatusError :: "int \<Rightarrow> string \<Rightarrow> string \<Rightarrow> RestError" where
  "makeHttpStatusError status loc body =
     \<lparr> re_code = BadStatus, re_message = loc @ '' failed, http = '' @ int_str status @ '', body = '' @ bodySnippet body,
       re_http_status = status \<rparr>"

definition makeParseError :: "int \<Rightarrow> string \<Rightarrow> string \<Rightarrow> string \<Rightarrow> RestError" where
  "makeParseError status loc what body =
     \<lparr> re_code = ParseError, re_message = loc @ '' parse failed: '' @ what @ '', body = '' @ bodySnippet body,
       re_http_status = status \<rparr>"

definition makeInvalidArgumentError :: "string \<Rightarrow> RestError" where
  "makeInvalidArgumentError message = \<lparr> re_code = RestInvalidArgument, re_message = message, re_http_status = 0 \<rparr>"

record QueryStrings =
  qs_encoded :: string
  qs_hash :: string

definition appendQueryParam :: "string \<times> string \<Rightarrow> string \<Rightarrow> string" where
  "appendQueryParam kv q = (if q = [] then q else q @ ''&'') @ fst kv @ ''='' @ encodeComponent (snd kv)"

definition makeQueryStrings :: "(string \<times> string) list \<Rightarrow> QueryStrings" where
  "makeQueryStrings items =
     (let encoded = fold appendQueryParam items [] in \<lparr> qs_encoded = encoded, qs_hash = decodePercent encoded \<rparr>)"

section \<open>Order payloads\<close>

definition toUpbitSide :: "OrderPosition \<Rightarrow> string" where
  "toUpbitSide p = (if p = BID then ''bid'' else ''ask'')"

definition toUpbitOrdType :: "OrderRequest \<Rightarrow> string" where
  "toUpbitOrdType req =
     (if rq_type req = Limit then ''limit''
      else case rq_size req of AmountSize _ \<Rightarrow> ''price'' | VolumeSize _ \<Rightarrow> ''market'')"

definition strip_zeros :: "string \<Rightarrow> string" where
  "strip_zeros s =
     (if CHR ''.'' \<in> set s then
        (let t = rev (dropWhile (\<lambda>c. c = CHR ''0'') (rev s))
         in if t \<noteq> [] \<and> last t = CHR ''.'' then butlast t else t)
      else s)"

definition formatDecimalFloor :: "double \<Rightarrow> int \<Rightarrow> string" where
  "formatDecimalFloor v decimals =
     (let decimals = (if decimals < 0 then 0 else decimals);
          scale = D (10 ^ nat decimals);
          floored = dfloor (v * scale) / scale;
          s = strip_zeros (fixed_str (nat decimals) floored)
      in if s = [] then ''0'' else s)"

record OrderPayloadFields =
  pf_price_field :: "string option"
  pf_volume_field :: "string option"

definition buildOrderPayloadFields :: "OrderRequest \<Rightarrow> string \<Rightarrow> RestError + OrderPayloadFields" where
  "buildOrderPayloadFields request ord_type =
     (if ord_type = ''limit'' then
        (case rq_price request of
           None \<Rightarrow> Inl (makeInvalidArgumentError ''postOrder: limit order requires price'')
         | Some price \<Rightarrow>
             (case rq_size request of
                AmountSize _ \<Rightarrow> Inl (makeInvalidArgumentError ''postOrder: limit order requires VolumeSize'')
              | VolumeSize volume \<Rightarrow>
                  if volume \<le> 0 then Inl (makeInvalidArgumentError ''postOrder: limit volume must be > 0'')
                  else Inr \<lparr> pf_price_field = Some (formatDecimalFloor price 0),
                             pf_volume_field = Some (formatDecimalFloor volume 8) \<rparr>))
      else if ord_type = ''price'' then
        (case rq_size request of
           VolumeSize _ \<Rightarrow> Inl (makeInvalidArgumentError ''postOrder: ord_type=price requires AmountSize'')
         | AmountSize amount \<Rightarrow>
             if amount \<le> 0 then Inl (makeInvalidArgumentError ''postOrder: amount must be > 0'')
             else Inr \<lparr> pf_price_field = Some (formatDecimalFloor amount 0), pf_volume_field = None \<rparr>)
      else
        (case rq_size request of
           AmountSize _ \<Rightarrow> Inl (makeInvalidArgumentError ''postOrder: ord_type=market requires VolumeSize'')
         | VolumeSize volume \<Rightarrow>
             if volume \<le> 0 then Inl (makeInvalidArgumentError ''postOrder: volume must be > 0'')
             else Inr \<lparr> pf_price_field = None, pf_volume_field = Some (formatDecimalFloor volume 8) \<rparr>))"

section \<open>Requests\<close>

definition upbit_request :: "HttpMethod \<Rightarrow> string \<Rightarrow> (string \<times> string) list \<Rightarrow> string \<Rightarrow> HttpRequest" where
  "upbit_request method target headers body =
     \<lparr> hq_method = method, hq_host = ''api.upbit.com'', hq_port = ''443'', hq_target = target, hq_headers = headers,
       hq_body = body, hq_timeout = 5000 \<rparr>"

definition signed_headers :: "(string option \<Rightarrow> string) \<Rightarrow> string option \<Rightarrow> (string \<times> string) list" where
  "signed_headers sign query = [(''Accept'', ''application/json''), (''Authorization'', sign query)]"

text \<open>What every reading call does with an answer: transport error, status, JSON, transfer object.\<close>

definition read_answer ::
    "(string \<Rightarrow> string + 'j) \<Rightarrow> ('j \<Rightarrow> string + 'd) \<Rightarrow> string \<Rightarrow> RestError + HttpResponse \<Rightarrow> RestError + 'd" where
  "read_answer parse read loc r =
     (case r of
        Inl e \<Rightarrow> Inl e
      | Inr resp \<Rightarrow>
          if \<not> isSuccessStatus (hr_status resp) then Inl (makeHttpStatusError (hr_status resp) loc (hr_body resp))
          else (case parse (hr_body resp) of
                  Inl what \<Rightarrow> Inl (makeParseError (hr_status resp) loc what (hr_body resp))
                | Inr j \<Rightarrow>
                    (case read j of
                       Inl what \<Rightarrow> Inl (makeParseError (hr_status resp) (loc @ '' (DTO)'') what (hr_body resp))
                     | Inr dto \<Rightarrow> Inr dto)))"

definition getMyAccount ::
    "(HttpRequest \<Rightarrow> RestError + HttpResponse) \<Rightarrow> (string option \<Rightarrow> string) \<Rightarrow> (string \<Rightarrow> string + 'j) \<Rightarrow>
     ('j \<Rightarrow> string + AccountDto list) \<Rightarrow> RestError + Account" where
  "getMyAccount rest sign parse read =
     (case read_answer parse read ''Upbit GET /v1/accounts''
             (rest (upbit_request Get ''/v1/accounts'' (signed_headers sign None) [])) of
        Inl e \<Rightarrow> Inl e
      | Inr dto \<Rightarrow> Inr (toDomain_account dto))"

definition getOpenOrders ::
    "(HttpRequest \<Rightarrow> RestError + HttpResponse) \<Rightarrow> (string option \<Rightarrow> string) \<Rightarrow> (string \<Rightarrow> string + 'j) \<Rightarrow>
     ('j \<Rightarrow> string + WaitOrderResponseDto list) \<Rightarrow> string \<Rightarrow> RestError + Order list" where
  "getOpenOrders rest sign parse read market =
     (let qs = makeQueryStrings [(''market'', market)]
      in case read_answer parse read ''Upbit GET /v1/orders/open''
                (rest (upbit_request Get (''/v1/orders/open?'' @ qs_encoded qs) (signed_headers sign (Some (qs_hash qs))) [])) of
           Inl e \<Rightarrow> Inl e
         | Inr dtoList \<Rightarrow> Inr (toDomain_wait_list dtoList))"

definition getOrder ::
    "(HttpRequest \<Rightarrow> RestError + HttpResponse) \<Rightarrow> (string option \<Rightarrow> string) \<Rightarrow> (string \<Rightarrow> string + 'j) \<Rightarrow>
     ('j \<Rightarrow> string + OrderResponseDto) \<Rightarrow> string \<Rightarrow> RestError + Order" where
  "getOrder rest sign parse read order_uuid =
     (let qs = makeQueryStrings [(''uuid'', order_uuid)]
      in case read_answer parse read ''Upbit GET /v1/order''
                (rest (upbit_request Get (''/v1/order?'' @ qs_encoded qs) (signed_headers sign (Some (qs_hash qs))) [])) of
           Inl e \<Rightarrow> Inl e
         | Inr dto \<Rightarrow> Inr (toDomain_order dto))"

definition cancelOrder ::
    "(HttpRequest \<Rightarrow> RestError + HttpResponse) \<Rightarrow> (string option \<Rightarrow> string) \<Rightarrow> string option \<Rightarrow> string option \<Rightarrow> RestError + bool" where
  "cancelOrder rest sign order_uuid identifier =
     (case (case order_uuid of
              Some u \<Rightarrow> Some (makeQueryStrings [(''uuid'', u)])
            | None \<Rightarrow> map_option (\<lambda>i. makeQueryStrings [(''identifier'', i)]) identifier) of
        None \<Rightarrow> Inl (makeInvalidArgumentError ''cancelOrder requires order_uuid or identifier'')
      | Some qs \<Rightarrow>
          (case rest (upbit_request Delete (''/v1/order?'' @ qs_encoded qs) (signed_headers sign (Some (qs_hash qs))) []) of
             Inl e \<Rightarrow> Inl e
           | Inr resp \<Rightarrow>
               if \<not> isSuccessStatus (hr_status resp)
               then Inl (makeHttpStatusError (hr_status resp) ''Upbit DELETE /v1/order'' (hr_body resp))
               else Inr True))"

text \<open>The parameters of an order, in the order of the source; the same list makes the body and, sorted, the query that is
  hashed.\<close>

definition order_params :: "OrderRequest \<Rightarrow> OrderPayloadFields \<Rightarrow> (string \<times> string) list" where
  "order_params reqIn f =
     [(''market'', rq_market reqIn), (''side'', toUpbitSide (rq_position reqIn)), (''ord_type'', toUpbitOrdType reqIn)] @
     (if rq_identifier reqIn \<noteq> [] then [(''identifier'', rq_identifier reqIn)] else []) @
     (case pf_price_field f of Some p \<Rightarrow> [(''price'', p)] | None \<Rightarrow> []) @
     (case pf_volume_field f of Some v \<Rightarrow> [(''volume'', v)] | None \<Rightarrow> [])"

definition order_request :: "(string option \<Rightarrow> string) \<Rightarrow> ((string \<times> string) list \<Rightarrow> string) \<Rightarrow> OrderRequest \<Rightarrow> RestError + HttpRequest" where
  "order_request sign dump reqIn =
     (if rq_market reqIn = [] then Inl (makeInvalidArgumentError ''postOrder: market is empty'')
      else case buildOrderPayloadFields reqIn (toUpbitOrdType reqIn) of
        Inl e \<Rightarrow> Inl e
      | Inr f \<Rightarrow>
          (let params = order_params reqIn f;
               qs = makeQueryStrings (sort_key fst params)
           in Inr (upbit_request Post ''/v1/orders''
                [(''Accept'', ''application/json''), (''Content-Type'', ''application/json; charset=utf-8''),
                 (''Authorization'', sign (Some (qs_hash qs)))]
                (dump params))))"

text \<open>\<open>read_uuid\<close> is \<open>j.value("uuid", "")\<close>.\<close>

definition postOrder ::
    "(HttpRequest \<Rightarrow> RestError + HttpResponse) \<Rightarrow> (string option \<Rightarrow> string) \<Rightarrow> ((string \<times> string) list \<Rightarrow> string) \<Rightarrow>
     (string \<Rightarrow> string + 'j) \<Rightarrow> ('j \<Rightarrow> string + string) \<Rightarrow> OrderRequest \<Rightarrow> RestError + string" where
  "postOrder rest sign dump parse read_uuid reqIn =
     (case order_request sign dump reqIn of
        Inl e \<Rightarrow> Inl e
      | Inr http \<Rightarrow>
          (case rest http of
             Inl e \<Rightarrow> Inl e
           | Inr resp \<Rightarrow>
               if \<not> isSuccessStatus (hr_status resp)
               then Inl (makeHttpStatusError (hr_status resp) ''Upbit POST /v1/orders'' (hr_body resp))
               else (case parse (hr_body resp) of
                       Inl what \<Rightarrow> Inl (makeParseError (hr_status resp) ''Upbit POST /v1/orders'' what (hr_body resp))
                     | Inr j \<Rightarrow>
                         (case read_uuid j of
                            Inl what \<Rightarrow> Inl (makeParseError (hr_status resp) ''Upbit POST /v1/orders (map order_uuid)'' what (hr_body resp))
                          | Inr order_uuid \<Rightarrow>
                              if order_uuid = [] then
                                Inl (makeParseError (hr_status resp) ''Upbit POST /v1/orders (missing order_uuid)''
                                       ''order_uuid is empty'' (hr_body resp))
                              else Inr order_uuid))))"

section \<open>Properties\<close>

text \<open>A query as the exchange sees it: without encoding.\<close>

definition plain_param :: "string \<times> string \<Rightarrow> string \<Rightarrow> string" where
  "plain_param kv q = (if q = [] then q else q @ ''&'') @ fst kv @ ''='' @ snd kv"

definition plain_query :: "(string \<times> string) list \<Rightarrow> string" where
  "plain_query items = fold plain_param items []"

lemma decode_literal: "CHR ''%'' \<notin> set k \<Longrightarrow> decodePercent (k @ t) = k @ decodePercent t"
proof (induction k)
  case (Cons a k)
  then have "a \<noteq> CHR ''%''" by auto
  then show ?case using Cons decode_plain [of a "k @ t"] by simp
qed simp

lemma decode_params:
  "\<forall>kv \<in> set items. CHR ''%'' \<notin> set (fst kv) \<Longrightarrow> (\<forall>t. decodePercent (q @ t) = p @ decodePercent t) \<Longrightarrow> (q = [] \<longleftrightarrow> p = []) \<Longrightarrow>
   decodePercent (fold appendQueryParam items q @ t) = fold plain_param items p @ decodePercent t"
proof (induction items arbitrary: p q)
  case (Cons kv items)
  have k: "CHR ''%'' \<notin> set (fst kv)" using Cons.prems(1) by simp
  have "decodePercent (appendQueryParam kv q @ t) = plain_param kv p @ decodePercent t" for t
    using Cons.prems(2,3) decode_literal [OF k]
    by (auto simp: appendQueryParam_def plain_param_def decode_plain decode_encode_append)
  moreover have "appendQueryParam kv q = [] \<longleftrightarrow> plain_param kv p = []"
    by (simp add: appendQueryParam_def plain_param_def)
  ultimately show ?case using Cons.IH [of "appendQueryParam kv q" "plain_param kv p"] Cons.prems(1) by simp
qed simp

lemma hash_is_plain: "\<forall>kv \<in> set items. CHR ''%'' \<notin> set (fst kv) \<Longrightarrow> qs_hash (makeQueryStrings items) = plain_query items"
  using decode_params [of items "[]" "[]" "[]"] by (simp add: makeQueryStrings_def plain_query_def Let_def)

lemma order_params_keys:
  "set (map fst (order_params req f)) \<subseteq> {''market'', ''side'', ''ord_type'', ''identifier'', ''price'', ''volume''}"
  "distinct (map fst (order_params req f))"
  by (auto simp: order_params_def split: option.split if_splits)

text \<open>
  C31: The signature of an order covers exactly its body. Every order request that is sent goes to \<open>POST /v1/orders\<close>; its
  body is the object of some parameters with distinct names; and the token in its header signs the query made of the same
  parameters, sorted by name and written without any percent-encoding, whatever characters the identifier
  or the market contain.
\<close>

theorem order_signature_covers_body:
  assumes "order_request sign dump req = Inr http"
  shows "\<exists>params. hq_body http = dump params \<and> distinct (map fst params) \<and>
     map_of params ''market'' = Some (rq_market req) \<and>
     map_of params ''identifier'' = (if rq_identifier req = [] then None else Some (rq_identifier req)) \<and>
     map_of (hq_headers http) ''Authorization'' = Some (sign (Some (plain_query (sort_key fst params)))) \<and>
     hq_method http = Post \<and> hq_target http = ''/v1/orders''"
proof -
  obtain f where f: "http = upbit_request Post ''/v1/orders''
                [(''Accept'', ''application/json''), (''Content-Type'', ''application/json; charset=utf-8''),
                 (''Authorization'', sign (Some (qs_hash (makeQueryStrings (sort_key fst (order_params req f))))))]
                (dump (order_params req f))"
    using assms by (auto simp: order_request_def Let_def split: if_splits sum.splits)
  define params where "params = order_params req f"
  have "\<forall>kv \<in> set (sort_key fst params). CHR ''%'' \<notin> set (fst kv)"
    using order_params_keys(1) [of req f] by (auto simp: params_def)
  then have h: "qs_hash (makeQueryStrings (sort_key fst params)) = plain_query (sort_key fst params)" by (rule hash_is_plain)
  have "map_of params ''market'' = Some (rq_market req)"
    "map_of params ''identifier'' = (if rq_identifier req = [] then None else Some (rq_identifier req))"
    by (simp_all add: params_def order_params_def split: option.split)
  moreover have "distinct (map fst params)" using order_params_keys(2) by (simp add: params_def)
  ultimately show ?thesis using f h by (auto simp: params_def [symmetric] upbit_request_def)
qed

text \<open>The amount of an order: with no decimals the text is the integer part.\<close>

lemma floor_double: "fin v \<Longrightarrow> dfloor v = D (of_int \<lfloor>val v\<rfloor>)"
  by transfer (auto split: raw.splits simp: floor_rep rnd_rep)

lemma rep_floor: "rep (of_int \<lfloor>val v\<rfloor>)"
  using floor_rep rep_val by blast

lemma format_integer_part:
  assumes "fin v" "0 \<le> val v"
  shows "formatDecimalFloor v 0 = nat_str (nat \<lfloor>val v\<rfloor>)"
proof -
  have "CHR ''.'' \<notin> set (nat_str (nat \<lfloor>val v\<rfloor>))"
    using nat_str_digits [of "nat \<lfloor>val v\<rfloor>"] by (auto simp: list_all_iff is_digit_def)
  then show ?thesis using assms rep_floor [of v]
    by (simp add: formatDecimalFloor_def Let_def floor_double fixed_str_def fixed_rat_def strip_zeros_def)
qed

lemma amount_order_request:
  assumes "rq_market req \<noteq> []" "rq_type req = Market" "rq_size req = AmountSize a" "fin a" "0 < val a"
  shows "order_request sign dump req = Inr (upbit_request Post ''/v1/orders''
           [(''Accept'', ''application/json''), (''Content-Type'', ''application/json; charset=utf-8''),
            (''Authorization'', sign (Some (qs_hash (makeQueryStrings (sort_key fst (order_params req
                \<lparr> pf_price_field = Some (nat_str (nat \<lfloor>val a\<rfloor>)), pf_volume_field = None \<rparr>))))))]
           (dump (order_params req \<lparr> pf_price_field = Some (nat_str (nat \<lfloor>val a\<rfloor>)), pf_volume_field = None \<rparr>)))"
proof -
  have "\<not> a \<le> 0" using assms(4,5) by (simp add: fin_val_le)
  then show ?thesis using assms format_integer_part [of a]
    by (simp add: order_request_def buildOrderPayloadFields_def toUpbitOrdType_def Let_def)
qed

text \<open>
  A market buy is sent for the whole won of its amount, rounded down and written exactly: for every positive finite amount
  the request is made, and its price parameter is the decimal text of the integer part; the request has no volume.
\<close>

theorem buy_amount_truncated:
  assumes "rq_market req \<noteq> []" "rq_type req = Market" "rq_size req = AmountSize a" "fin a" "0 < val a"
  shows "\<exists>http params. order_request sign dump req = Inr http \<and> hq_body http = dump params \<and>
     map_of params ''ord_type'' = Some ''price'' \<and> map_of params ''volume'' = None \<and>
     map_of params ''price'' = Some (nat_str (nat \<lfloor>val a\<rfloor>))"
proof -
  let ?p = "order_params req \<lparr> pf_price_field = Some (nat_str (nat \<lfloor>val a\<rfloor>)), pf_volume_field = None \<rparr>"
  have "map_of ?p ''ord_type'' = Some ''price'' \<and> map_of ?p ''volume'' = None \<and>
      map_of ?p ''price'' = Some (nat_str (nat \<lfloor>val a\<rfloor>))"
    using assms by (simp add: order_params_def toUpbitOrdType_def)
  then show ?thesis using amount_order_request [OF assms, of sign dump] by (auto simp: upbit_request_def)
qed

text \<open>A market buy of 10000.5 won, a signer that shows what it signs and a printer that joins the parameters.\<close>

definition sample_request :: OrderRequest where
  "sample_request = \<lparr> rq_market = ''KRW-BTC'', rq_position = BID, rq_type = Market,
     rq_size = AmountSize (D (20001 / 2)), rq_price = None, rq_strategy_id = '''', rq_identifier = ''bot:1%'', rq_client_tag = '''' \<rparr>"

definition show_sign :: "string option \<Rightarrow> string" where
  "show_sign q = (case q of None \<Rightarrow> '''' | Some s \<Rightarrow> s)"

definition join_params :: "(string \<times> string) list \<Rightarrow> string" where
  "join_params ps = concat (map (\<lambda>kv. fst kv @ ''='' @ snd kv @ '';'') ps)"

lemma sample_amount: "fin (D (20001 / 2))" "0 < val (D (20001 / 2))" "nat \<lfloor>val (D (20001 / 2))\<rfloor> = 10000"
proof -
  have "rep (20001 / 2)" "\<lfloor>20001 / (2::rat)\<rfloor> = 10000" using rep_half by (simp_all add: floor_eq_iff)
  then show "fin (D (20001 / 2))" "0 < val (D (20001 / 2))" "nat \<lfloor>val (D (20001 / 2))\<rfloor> = 10000" by simp_all
qed

lemma sample_sent: "\<exists>http. order_request show_sign join_params sample_request = Inr http"
  using amount_order_request [of sample_request] sample_amount by (auto simp: sample_request_def)

theorem buy_amount_truncated_witness:
  "\<exists>http params. order_request show_sign join_params sample_request = Inr http \<and> hq_body http = join_params params \<and>
     map_of params ''ord_type'' = Some ''price'' \<and> map_of params ''volume'' = None \<and>
     map_of params ''price'' = Some (nat_str 10000)"
  using buy_amount_truncated [of sample_request "D (20001 / 2)" show_sign join_params] sample_amount
  by (simp add: sample_request_def)

theorem order_signature_covers_body_witness:
  "\<exists>http params. order_request show_sign join_params sample_request = Inr http \<and>
     hq_body http = join_params params \<and> map_of params ''identifier'' = Some ''bot:1%'' \<and>
     map_of (hq_headers http) ''Authorization'' = Some (plain_query (sort_key fst params))"
proof -
  obtain http where "order_request show_sign join_params sample_request = Inr http" using sample_sent by blast
  then show ?thesis using order_signature_covers_body [of show_sign join_params sample_request http]
    by (auto simp: sample_request_def show_sign_def)
qed

lemma pad_digits_numeral:
  "pad_digits (numeral n) k = pad_digits (pred_numeral n) (k div 10) @ [digit (k mod 10)]"
  by (subst numeral_eq_Suc) (rule pad_digits.simps(2))

lemma digit_chars:
  "digit 0 = CHR ''0''" "digit (Suc 0) = CHR ''1''" "digit 2 = CHR ''2''" "digit 3 = CHR ''3''" "digit 4 = CHR ''4''"
  "digit 5 = CHR ''5''" "digit 6 = CHR ''6''" "digit 7 = CHR ''7''" "digit 8 = CHR ''8''" "digit 9 = CHR ''9''"
  by code_simp+

text \<open>
  C32: A market sell can name more coin than its volume: the comment of \<open>formatDecimalFloor\<close> says the text is rounded down so
  that it cannot exceed the balance, but the product with \<open>10^8\<close> is rounded first. The volume 0.9211153799999999 is sent as
  0.92111538.
\<close>

theorem sell_volume_can_exceed:
  "formatDecimalFloor (D (8296669764266465 / 2 ^ 53)) 8 = ''0.92111538'' \<and>
   scan_decimal ''0.92111538'' = Some (92111538 / 10 ^ 8, []) \<and>
   val (D (8296669764266465 / 2 ^ 53)) < 92111538 / 10 ^ 8"
proof -
  have t: "nat_str (92111538 div 10 ^ 8) @ ''.'' @ pad_digits 8 92111538 = ''0.92111538''"
    by (simp add: nat_str.simps pad_digits_numeral digit_chars)
  have "rhe (8296669764266466 / 2 ^ 53 * 10 ^ 8) = 92111538" by (rule rhe_near) (simp add: abs_if)
  then have fr: "fixed_rat 8 (8296669764266466 / 2 ^ 53) = ''0.92111538''"
    unfolding fixed_rat_def Let_def using t by simp
  have r: "rep (8296669764266465 / 2 ^ 53)" using rep_dyadic [of 8296669764266465 53] by simp
  have s: "rep (10 ^ 8)" using rep_int [of "10 ^ 8"] by simp
  have m: "D (8296669764266465 / 2 ^ 53 * 10 ^ 8) = D 92111538 \<and> rep (92111538 :: rat)"
    using D_near [of 26 "8296669764266465 / 2 ^ 53 * 10 ^ 8" 6181500676472832] by simp
  have q: "D (92111538 / 10 ^ 8) = D (8296669764266466 / 2 ^ 53) \<and> rep (8296669764266466 / 2 ^ 53)"
    using D_near [of 53 "92111538 / 10 ^ 8" 8296669764266466] by simp
  have "dfloor (D (8296669764266465 / 2 ^ 53) * D (10 ^ 8)) div D (10 ^ 8) = D (8296669764266466 / 2 ^ 53)"
    using r s m q by (simp add: D_arith floor_double)
  moreover have "fixed_str 8 (D (8296669764266466 / 2 ^ 53)) = ''0.92111538''"
    using q fr by (simp add: fixed_str_def)
  ultimately have "formatDecimalFloor (D (8296669764266465 / 2 ^ 53)) 8 = ''0.92111538''"
    by (simp add: formatDecimalFloor_def Let_def strip_zeros_def)
  moreover have "scan_decimal ''0.92111538'' = Some (92111538 / 10 ^ 8, [])"
    using scan_fixed [of 8 92111538] t by simp
  ultimately show ?thesis using r by simp
qed

end
