(* ===== verification/EventRouter.thy ===== *)
theory EventRouter
  imports BlockingQueue NumberText
begin

text \<open>
  The router between the web socket and the markets, \<open>src/src/app/EventRouter.cpp\<close>: it finds the market a message names
  and appends the message to the queue of that market. Queues are objects the router only points to, so the state is the
  router with its pointers and a store of queues by address. Both routes run in the thread of their web socket; every access to a
  queue or a counter is atomic. The regular parse of a message (third-party JSON library) is the
  argument \<open>parse\<close>: no object, or the string members of the object.
\<close>

section \<open>Inputs of the engines\<close>

text \<open>\<open>src/src/engine/input/EngineInput.h\<close>.\<close>

datatype EngineInput = MyOrderRaw string | MarketDataRaw string | AccountSyncRequest

section \<open>State\<close>

record RouterStats =
  rs_fast_path_success :: "64 word"
  rs_fallback_used :: "64 word"
  rs_parse_failures :: "64 word"
  rs_conflict_detected :: "64 word"
  rs_unknown_market :: "64 word"
  rs_total_routed :: "64 word"

record EventRouter =
  er_routes :: "string \<rightharpoonup> nat"
  er_accepting :: bool
  er_stats :: RouterStats

type_synonym queues = "nat \<Rightarrow> EngineInput BlockingQueue"

definition er_new :: EventRouter where
  "er_new = \<lparr> er_routes = Map.empty, er_accepting = True,
     er_stats = \<lparr> rs_fast_path_success = 0, rs_fallback_used = 0, rs_parse_failures = 0, rs_conflict_detected = 0,
       rs_unknown_market = 0, rs_total_routed = 0 \<rparr> \<rparr>"

definition registerMarket :: "string \<Rightarrow> nat \<Rightarrow> EventRouter \<Rightarrow> EventRouter" where
  "registerMarket market queue r = r \<lparr> er_routes := (er_routes r)(market \<mapsto> queue) \<rparr>"

definition er_count :: "(RouterStats \<Rightarrow> RouterStats) \<Rightarrow> EventRouter \<Rightarrow> EventRouter" where
  "er_count f r = r \<lparr> er_stats := f (er_stats r) \<rparr>"

section \<open>The market of a message\<close>

text \<open>\<open>json.find(key)\<close>, as the text after the first occurrence of the key.\<close>

fun find_after :: "string \<Rightarrow> string \<Rightarrow> string option" where
  "find_after key [] = (if key = [] then Some [] else None)"
| "find_after key (c # s) =
     (if starts_with (c # s) key then Some (drop (length key) (c # s)) else find_after key s)"

abbreviation quote :: char where
  "quote \<equiv> CHR 0x22"

abbreviation backslash :: char where
  "backslash \<equiv> CHR 0x5C"

definition plain_char :: "char \<Rightarrow> bool" where
  "plain_char c \<longleftrightarrow> c \<noteq> backslash \<and> c \<noteq> quote"

text \<open>Skip white space, then the character \<open>c\<close> must follow; the rest after it.\<close>

definition expect :: "char \<Rightarrow> string \<Rightarrow> string option" where
  "expect c s = (case dropWhile is_space s of [] \<Rightarrow> None | d # t \<Rightarrow> if d \<noteq> c then None else Some t)"

text \<open>The value up to the closing quote; none if it has an escape, no end or an unusual length.\<close>

definition read_quoted :: "string \<Rightarrow> string option" where
  "read_quoted s =
     (let v = takeWhile plain_char s
      in case dropWhile plain_char s of
           [] \<Rightarrow> None
         | e # _ \<Rightarrow> if e = backslash then None else if v = [] \<or> 20 < length v then None else Some v)"

definition extractStringValue :: "string \<Rightarrow> string \<Rightarrow> string option" where
  "extractStringValue json key =
     Option.bind (find_after key json) (\<lambda>s. Option.bind (expect (CHR '':'') s) (\<lambda>s1.
       Option.bind (expect quote s1) read_quoted))"

definition code_key :: string where
  "code_key = [quote] @ ''code'' @ [quote]"

definition market_key :: string where
  "market_key = [quote] @ ''market'' @ [quote]"

text \<open>The result: the market, and whether the two keys contradict each other.\<close>

definition extractMarketFast :: "string \<Rightarrow> string option \<times> bool" where
  "extractMarketFast json =
     (case (extractStringValue json code_key, extractStringValue json market_key) of
        (Some c, Some m) \<Rightarrow> if c = m then (Some c, False) else (None, True)
      | (Some c, None) \<Rightarrow> (Some c, False)
      | (None, Some m) \<Rightarrow> (Some m, False)
      | (None, None) \<Rightarrow> (None, False))"

definition extractMarketSlow :: "(string \<Rightarrow> (string \<Rightarrow> string option) option) \<Rightarrow> string \<Rightarrow> string option" where
  "extractMarketSlow parse json =
     (case parse json of
        None \<Rightarrow> None
      | Some member \<Rightarrow>
          (let code_val = (case member ''code'' of Some v \<Rightarrow> v | None \<Rightarrow> []);
               market_val = (case member ''market'' of Some v \<Rightarrow> v | None \<Rightarrow> [])
           in if code_val \<noteq> [] \<and> market_val \<noteq> [] then (if code_val = market_val then Some code_val else None)
              else if code_val \<noteq> [] then Some code_val
              else if market_val \<noteq> [] then Some market_val
              else None))"

section \<open>Routing\<close>

text \<open>The body both routes share; \<open>mk\<close> wraps the text.\<close>

definition route ::
    "(string \<Rightarrow> EngineInput) \<Rightarrow> (string \<Rightarrow> (string \<Rightarrow> string option) option) \<Rightarrow> string \<Rightarrow> EventRouter \<times> queues \<Rightarrow>
     bool \<times> EventRouter \<times> queues" where
  "route mk parse json s =
     (let r = fst s; qs = snd s
      in if \<not> er_accepting r then (False, s)
         else
           let (fast, conflict) = extractMarketFast json
           in if conflict then (False, er_count (\<lambda>t. t \<lparr> rs_conflict_detected := rs_conflict_detected t + 1 \<rparr>) r, qs)
              else
                (case (case fast of Some m \<Rightarrow> Some (m, True)
                                  | None \<Rightarrow> map_option (\<lambda>m. (m, False)) (extractMarketSlow parse json)) of
                   None \<Rightarrow> (False, er_count (\<lambda>t. t \<lparr> rs_parse_failures := rs_parse_failures t + 1 \<rparr>) r, qs)
                 | Some (key, used_fast) \<Rightarrow>
                     (case er_routes r key of
                        None \<Rightarrow> (False, er_count (\<lambda>t. t \<lparr> rs_unknown_market := rs_unknown_market t + 1 \<rparr>) r, qs)
                      | Some a \<Rightarrow>
                          let r1 = (if used_fast then er_count (\<lambda>t. t \<lparr> rs_fast_path_success := rs_fast_path_success t + 1 \<rparr>) r
                                    else er_count (\<lambda>t. t \<lparr> rs_fallback_used := rs_fallback_used t + 1 \<rparr>) r)
                          in (True, er_count (\<lambda>t. t \<lparr> rs_total_routed := rs_total_routed t + 1 \<rparr>) r1,
                              qs(a := bq_push (mk json) (qs a))))))"

definition routeMarketData ::
    "(string \<Rightarrow> (string \<Rightarrow> string option) option) \<Rightarrow> string \<Rightarrow> EventRouter \<times> queues \<Rightarrow> bool \<times> EventRouter \<times> queues" where
  "routeMarketData parse json s = route MarketDataRaw parse json s"

definition routeMyOrder ::
    "(string \<Rightarrow> (string \<Rightarrow> string option) option) \<Rightarrow> string \<Rightarrow> EventRouter \<times> queues \<Rightarrow> bool \<times> EventRouter \<times> queues" where
  "routeMyOrder parse json s = route MyOrderRaw parse json s"

section \<open>Properties\<close>

definition first_at :: "string \<Rightarrow> string \<Rightarrow> string \<Rightarrow> bool" where
  "first_at key pre s \<longleftrightarrow> (\<forall>p q. s = p @ key @ q \<longrightarrow> length pre \<le> length p)"

lemma first_at_Cons: "\<not> starts_with (c # s) key \<Longrightarrow> first_at key (c # pre) (c # s) \<longleftrightarrow> first_at key pre s"
proof
  assume n: "\<not> starts_with (c # s) key"
  show "first_at key (c # pre) (c # s) \<Longrightarrow> first_at key pre s" unfolding first_at_def by (metis Suc_le_mono append_Cons length_Cons)
  assume f: "first_at key pre s"
  show "first_at key (c # pre) (c # s)" unfolding first_at_def
  proof (intro allI impI)
    fix p q assume e: "c # s = p @ key @ q"
    then have "p \<noteq> []" using n by (auto simp: starts_with_iff)
    then obtain p' where "p = c # p'" "s = p' @ key @ q" using e by (cases p) auto
    then show "length (c # pre) \<le> length p" using f by (simp add: first_at_def)
  qed
qed

lemma find_after_found: "find_after key s = Some t \<Longrightarrow> \<exists>pre. s = pre @ key @ t \<and> first_at key pre s"
proof (induction s)
  case (Cons c s)
  show ?case
  proof (cases "starts_with (c # s) key")
    case True
    then obtain r where r: "c # s = key @ r" by (auto simp: starts_with_iff)
    then have "drop (length key) (c # s) = r" by simp
    then have "t = r" using True Cons.prems by simp
    then show ?thesis using r by (intro exI [of _ "[]"]) (simp add: first_at_def)
  next
    case False
    then obtain pre where "s = pre @ key @ t" "first_at key pre s" using Cons by auto
    then show ?thesis using first_at_Cons [OF False] by (intro exI [of _ "c # pre"]) simp
  qed
qed (auto simp: first_at_def split: if_splits)

lemma find_after_first: "s = pre @ key @ t \<Longrightarrow> first_at key pre s \<Longrightarrow> find_after key s = Some t"
proof (induction pre arbitrary: s)
  case Nil
  then have w: "starts_with s key" "drop (length key) s = t" by simp_all
  show ?case
  proof (cases s)
    case Nil
    with w have "key = []" by (cases key) simp_all
    with w Nil show ?thesis by simp
  next
    case (Cons a list)
    show ?thesis using w unfolding Cons by simp
  qed
next
  case (Cons c pre)
  then obtain s' where s: "s = c # s'" "s' = pre @ key @ t" by simp
  have "\<not> starts_with s key" using Cons.prems(2) by (auto simp: starts_with_iff first_at_def dest: spec [of _ "[]"])
  then show ?case using Cons s first_at_Cons [of c s' key pre] by simp
qed

lemma find_after_Some: "find_after key s = Some t \<longleftrightarrow> (\<exists>pre. s = pre @ key @ t \<and> first_at key pre s)"
  using find_after_found find_after_first by blast

lemma span_iff: "takeWhile P s = v \<and> dropWhile P s = r \<longleftrightarrow> s = v @ r \<and> list_all P v \<and> (r = [] \<or> \<not> P (hd r))"
proof
  show "takeWhile P s = v \<and> dropWhile P s = r \<Longrightarrow> s = v @ r \<and> list_all P v \<and> (r = [] \<or> \<not> P (hd r))"
    using hd_dropWhile [of P s] by (auto simp: list_all_iff dest: set_takeWhileD)
  show "s = v @ r \<and> list_all P v \<and> (r = [] \<or> \<not> P (hd r)) \<Longrightarrow> takeWhile P s = v \<and> dropWhile P s = r"
    by (cases r) (auto simp: list_all_iff takeWhile_append dropWhile_append)
qed

lemma dropWhile_Cons_iff:
  "dropWhile P s = e # post \<longleftrightarrow> (\<exists>w. list_all P w \<and> \<not> P e \<and> s = w @ e # post \<and> takeWhile P s = w)"
  using span_iff [of P s _ "e # post"] by (metis list.discI list.sel(1))

lemma expect_Some:
  assumes "\<not> is_space c"
  shows "expect c s = Some t \<longleftrightarrow> (\<exists>w. list_all is_space w \<and> s = w @ c # t)"
proof -
  have "expect c s = Some t \<longleftrightarrow> dropWhile is_space s = c # t"
    by (cases "dropWhile is_space s") (auto simp: expect_def simp del: dropWhile_eq_Nil_conv)
  also have "\<dots> \<longleftrightarrow> (\<exists>w. list_all is_space w \<and> s = w @ c # t)"
    using assms span_iff [of is_space s _ "c # t"] by (metis list.sel(1))
  finally show ?thesis .
qed

lemma not_space [simp]: "\<not> is_space (CHR '':'')" "\<not> is_space quote"
  by (simp_all add: is_space_def)

lemma read_quoted_Some:
  "read_quoted s = Some v \<longleftrightarrow>
     (\<exists>post. s = v @ quote # post \<and> list_all plain_char v \<and> 1 \<le> length v \<and> length v \<le> 20)"
proof
  assume r: "read_quoted s = Some v"
  then obtain e post where d: "dropWhile plain_char s = e # post" "e \<noteq> backslash" "takeWhile plain_char s = v"
    "v \<noteq> []" "length v \<le> 20"
    by (cases "dropWhile plain_char s") (auto simp: read_quoted_def Let_def split: if_splits)
  then have "s = v @ e # post" "list_all plain_char v" "\<not> plain_char e" using dropWhile_Cons_iff [of plain_char s e post] by metis+
  with d show "\<exists>post. s = v @ quote # post \<and> list_all plain_char v \<and> 1 \<le> length v \<and> length v \<le> 20"
    by (auto simp: plain_char_def Suc_le_eq)
next
  assume "\<exists>post. s = v @ quote # post \<and> list_all plain_char v \<and> 1 \<le> length v \<and> length v \<le> 20"
  then obtain post where s: "s = v @ quote # post" "list_all plain_char v" "v \<noteq> []" "length v \<le> 20" by (metis list.size(3) not_one_le_zero)
  have "\<not> plain_char quote" by (simp add: plain_char_def)
  then have "takeWhile plain_char s = v" "dropWhile plain_char s = quote # post"
    using s span_iff [of plain_char s v "quote # post"] by (metis list.sel(1))+
  with s show "read_quoted s = Some v" by (simp add: read_quoted_def)
qed

text \<open>
  The fast path reads a value exactly where it says: it finds \<open>v\<close> for a key if and only if at the first occurrence
  of the key in the text the key is followed by a colon and a string \<open>v\<close> in quotes, white space aside, and the string has
  1 to 20 characters, none of them a quote or a backslash.
\<close>

theorem fast_path_reads_value:
  "extractStringValue json key = Some v \<longleftrightarrow>
     (\<exists>pre w1 w2 post. json = pre @ key @ w1 @ '':'' @ w2 @ [quote] @ v @ [quote] @ post \<and>
        first_at key pre json \<and>
        list_all is_space w1 \<and> list_all is_space w2 \<and> list_all plain_char v \<and> 1 \<le> length v \<and> length v \<le> 20)"
  unfolding extractStringValue_def bind_eq_Some_conv
  by (auto simp: find_after_Some expect_Some read_quoted_Some)

text \<open>The market a message names, and the queue it goes to; the two kinds of message as one input.\<close>

definition named_market :: "(string \<Rightarrow> (string \<Rightarrow> string option) option) \<Rightarrow> string \<Rightarrow> string option" where
  "named_market parse json =
     (case extractMarketFast json of
        (_, True) \<Rightarrow> None
      | (Some m, False) \<Rightarrow> Some m
      | (None, False) \<Rightarrow> extractMarketSlow parse json)"

definition target :: "(string \<Rightarrow> (string \<Rightarrow> string option) option) \<Rightarrow> (string \<rightharpoonup> nat) \<Rightarrow> string \<Rightarrow> nat option" where
  "target parse routes json = Option.bind (named_market parse json) routes"

fun route_input :: "(string \<Rightarrow> (string \<Rightarrow> string option) option) \<Rightarrow> EngineInput \<Rightarrow> EventRouter \<times> queues \<Rightarrow> EventRouter \<times> queues" where
  "route_input parse (MyOrderRaw json) s = snd (routeMyOrder parse json s)"
| "route_input parse (MarketDataRaw json) s = snd (routeMarketData parse json s)"
| "route_input parse AccountSyncRequest s = s"

fun input_target :: "(string \<Rightarrow> (string \<Rightarrow> string option) option) \<Rightarrow> (string \<rightharpoonup> nat) \<Rightarrow> EngineInput \<Rightarrow> nat option" where
  "input_target parse routes (MyOrderRaw json) = target parse routes json"
| "input_target parse routes (MarketDataRaw json) = target parse routes json"
| "input_target parse routes AccountSyncRequest = None"

lemma er_count_routes [simp]: "er_routes (er_count f r) = er_routes r" "er_accepting (er_count f r) = er_accepting r"
  by (simp_all add: er_count_def)

lemma route_spec:
  assumes "er_accepting r"
  shows "\<exists>r'. route mk parse json (r, qs) =
     (case target parse (er_routes r) json of None \<Rightarrow> (False, r', qs) | Some a \<Rightarrow> (True, r', qs(a := bq_push (mk json) (qs a)))) \<and>
     er_routes r' = er_routes r \<and> er_accepting r'"
  using assms
  by (cases "extractMarketFast json"; cases "snd (extractMarketFast json)"; cases "fst (extractMarketFast json)")
    (auto simp: route_def Let_def target_def named_market_def split: option.split)

lemma route_closed: "\<not> er_accepting r \<Longrightarrow> route mk parse json (r, qs) = (False, r, qs)"
  by (simp add: route_def)

text \<open>
  C15: The router is exact, for candles and for order messages alike: a message is accepted if and only if the router is open and the message
  names one registered market, and then it is appended, as the input its handler expects, to the queue of that market and no other queue changes; a
  message whose keys contradict each other, that names no market or an unknown one changes no queue at all, and a closed
  router changes nothing. The routes themselves never change.
\<close>

theorem routing_is_exact:
  assumes "routeMyOrder parse json (r, qs) = (ok, r', qs') \<and> i = MyOrderRaw json \<or>
     routeMarketData parse json (r, qs) = (ok, r', qs') \<and> i = MarketDataRaw json"
  shows "ok = (er_accepting r \<and> target parse (er_routes r) json \<noteq> None) \<and> er_routes r' = er_routes r \<and>
     (\<forall>a. qs' a = (if ok \<and> target parse (er_routes r) json = Some a then bq_push i (qs a) else qs a)) \<and>
     (\<forall>c m. extractStringValue json code_key = Some c \<and> extractStringValue json market_key = Some m \<and> c \<noteq> m \<longrightarrow> qs' = qs) \<and>
     (\<not> er_accepting r \<longrightarrow> r' = r)"
proof -
  have conflict: "target parse (er_routes r) json = None"
    if "extractStringValue json code_key = Some c" "extractStringValue json market_key = Some m" "c \<noteq> m" for c m
    using that by (simp add: target_def named_market_def extractMarketFast_def)
  obtain mk where mk: "route mk parse json (r, qs) = (ok, r', qs')" "i = mk json"
    using assms by (auto simp: routeMyOrder_def routeMarketData_def)
  show ?thesis
  proof (cases "er_accepting r")
    case True
    then show ?thesis using mk conflict route_spec [OF True, of mk parse json qs]
      by (cases "target parse (er_routes r) json") auto
  next
    case False
    then show ?thesis using mk route_closed [OF False, of mk parse json qs] by simp
  qed
qed

lemma route_input_spec:
  assumes "er_accepting r"
  shows "\<exists>r'. route_input parse i (r, qs) =
     (r', case input_target parse (er_routes r) i of None \<Rightarrow> qs | Some a \<Rightarrow> qs(a := bq_push i (qs a))) \<and>
     er_routes r' = er_routes r \<and> er_accepting r'"
proof (cases i)
  case (MyOrderRaw json)
  then show ?thesis using route_spec [OF assms, of MyOrderRaw parse json qs]
    by (cases "target parse (er_routes r) json") (auto simp: routeMyOrder_def)
next
  case (MarketDataRaw json)
  then show ?thesis using route_spec [OF assms, of MarketDataRaw parse json qs]
    by (cases "target parse (er_routes r) json") (auto simp: routeMarketData_def)
qed (use assms in simp)

lemma routed_queue:
  assumes "er_accepting r"
  shows "snd (fold (route_input parse) is (r, qs)) a = fold bq_push (filter (\<lambda>i. input_target parse (er_routes r) i = Some a) is) (qs a)"
  using assms
proof (induction "is" arbitrary: r qs)
  case (Cons i "is")
  obtain r' where r: "route_input parse i (r, qs) =
     (r', case input_target parse (er_routes r) i of None \<Rightarrow> qs | Some a \<Rightarrow> qs(a := bq_push i (qs a)))"
    "er_routes r' = er_routes r" "er_accepting r'"
    using route_input_spec [OF Cons.prems] by blast
  then show ?case using Cons.IH [of r'] by (auto split: option.split)
qed simp

text \<open>
  What a market's worker finds in its queue: whatever messages of both sockets are routed, and in whatever order, the queue of
  a market holds exactly the latest messages that name it, in their order of arrival, as many as its capacity allows;
  nothing is duplicated, reordered or taken from another market.
\<close>

theorem queue_holds_last_messages:
  assumes "er_accepting r" "bq_ok (qs a)" "0 < bq_max_size (qs a)"
  shows "bq_q (snd (fold (route_input parse) is (r, qs)) a) =
     last_n (bq_max_size (qs a)) (bq_q (qs a) @ filter (\<lambda>i. input_target parse (er_routes r) i = Some a) is)"
  using routed_queue [OF assms(1), of parse "is" qs a] bqf.fold_push_contents [OF assms(2,3)] by simp

text \<open>The number of messages handled, as the counters see it.\<close>

definition handled :: "RouterStats \<Rightarrow> 64 word" where
  "handled t = rs_total_routed t + rs_parse_failures t + rs_conflict_detected t + rs_unknown_market t"

lemma route_counts:
  assumes "er_accepting r" "route mk parse json (r, qs) = (ok, r', qs')"
  shows "handled (er_stats r') = handled (er_stats r) + 1 \<and>
     rs_total_routed (er_stats r') - rs_fast_path_success (er_stats r') - rs_fallback_used (er_stats r') =
       rs_total_routed (er_stats r) - rs_fast_path_success (er_stats r) - rs_fallback_used (er_stats r)"
  using assms
  by (cases "extractMarketFast json")
    (auto simp: route_def Let_def handled_def er_count_def split: if_splits option.splits)

text \<open>
  The counters of the router account for every message: over any sequence of messages from a new router, modulo
  \<open>2^64\<close>, the routed ones, the unreadable ones, the contradictory ones and the ones of unknown markets add up to the number of
  messages, and the routed ones are those of the fast path and of the fallback.
\<close>

theorem router_accounts:
  assumes "\<forall>i \<in> set is. i \<noteq> AccountSyncRequest"
  shows "handled (er_stats (fst (fold (route_input parse) is (er_new \<lparr> er_routes := routes \<rparr>, qs)))) = of_nat (length is) \<and>
     rs_total_routed (er_stats (fst (fold (route_input parse) is (er_new \<lparr> er_routes := routes \<rparr>, qs)))) =
       rs_fast_path_success (er_stats (fst (fold (route_input parse) is (er_new \<lparr> er_routes := routes \<rparr>, qs)))) +
       rs_fallback_used (er_stats (fst (fold (route_input parse) is (er_new \<lparr> er_routes := routes \<rparr>, qs))))"
proof -
  let ?d = "\<lambda>t. rs_total_routed t - rs_fast_path_success t - rs_fallback_used t"
  have step: "handled (er_stats (fst (route_input parse i s))) = handled (er_stats (fst s)) + 1 \<and>
      ?d (er_stats (fst (route_input parse i s))) = ?d (er_stats (fst s)) \<and> er_accepting (fst (route_input parse i s))"
    if "er_accepting (fst s)" "i \<noteq> AccountSyncRequest" for i s
  proof -
    obtain r qs where s: "s = (r, qs)" by (cases s)
    have a: "er_accepting (fst (route_input parse i s))" using that route_input_spec [of r parse i qs] s by auto
    show ?thesis
    proof (cases i)
      case (MyOrderRaw json)
      then show ?thesis using a that s route_counts [of r MyOrderRaw parse json qs]
        by (cases "route MyOrderRaw parse json (r, qs)") (simp add: routeMyOrder_def)
    next
      case (MarketDataRaw json)
      then show ?thesis using a that s route_counts [of r MarketDataRaw parse json qs]
        by (cases "route MarketDataRaw parse json (r, qs)") (simp add: routeMarketData_def)
    qed (use that in simp)
  qed
  have "handled (er_stats (fst (fold (route_input parse) is s))) = handled (er_stats (fst s)) + of_nat (length is) \<and>
      ?d (er_stats (fst (fold (route_input parse) is s))) = ?d (er_stats (fst s))" if "er_accepting (fst s)" for s
    using assms that
  proof (induction "is" arbitrary: s)
    case (Cons i "is")
    then show ?case using step [of s i] Cons.IH [of "route_input parse i s"] by (simp add: ac_simps)
  qed simp
  moreover have "er_accepting (er_new \<lparr> er_routes := routes \<rparr>)" "handled (er_stats (er_new \<lparr> er_routes := routes \<rparr>)) = 0"
    "?d (er_stats (er_new \<lparr> er_routes := routes \<rparr>)) = 0"
    by (simp_all add: er_new_def handled_def)
  ultimately have "handled (er_stats (fst (fold (route_input parse) is (er_new \<lparr> er_routes := routes \<rparr>, qs)))) = of_nat (length is)"
    "?d (er_stats (fst (fold (route_input parse) is (er_new \<lparr> er_routes := routes \<rparr>, qs)))) = 0"
    by simp_all
  then show ?thesis by (simp only: diff_diff_eq right_minus_eq)
qed

text \<open>
  An order message can be lost before its market reads it: candles and order messages share one bounded queue, so the
  order message routed first is gone once as many candles as the capacity have followed it, although the comment of
  \<open>routeMyOrder\<close> says order messages cannot be lost.
\<close>

definition named_text :: "string \<Rightarrow> string" where
  "named_text m = ''{'' @ code_key @ '':'' @ [quote] @ m @ [quote] @ ''}''"

lemma bq_new_fields [simp]: "bq_q (bq_new n) = []" "bq_max_size (bq_new n) = n"
  by (simp_all add: bq_new_def)

lemma named_text_target: "extractMarketFast (named_text ''KRW-BTC'') = (Some ''KRW-BTC'', False)"
  by code_simp

theorem order_message_evicted:
  "\<exists>order candle. \<forall>n. 0 < n \<longrightarrow>
     MyOrderRaw order \<notin> set (bq_q (snd (fold (route_input (\<lambda>_. None)) (MyOrderRaw order # replicate n (MarketDataRaw candle))
       (registerMarket ''KRW-BTC'' 0 er_new, \<lambda>_. bq_new n)) 0))"
proof (intro exI allI impI)
  fix n :: nat assume n: "0 < n"
  let ?t = "named_text ''KRW-BTC''"
  let ?msgs = "MyOrderRaw ?t # replicate n (MarketDataRaw ?t)"
  have t: "target (\<lambda>_. None) (er_routes (registerMarket ''KRW-BTC'' 0 er_new)) ?t = Some 0"
    by (simp add: target_def named_market_def named_text_target registerMarket_def er_new_def)
  then have "filter (\<lambda>i. input_target (\<lambda>_. None) (er_routes (registerMarket ''KRW-BTC'' 0 er_new)) i = Some 0) ?msgs = ?msgs"
    by simp
  moreover have "er_accepting (registerMarket ''KRW-BTC'' 0 er_new)" by (simp add: registerMarket_def er_new_def)
  note routed_queue [OF this, of "\<lambda>_. None" ?msgs "\<lambda>_. bq_new n" 0]
  moreover have "bq_q (fold bq_push ?msgs (bq_new n)) = last_n n ?msgs"
    using bqf.fold_push_contents [OF bq_new_ok, of n ?msgs] n by (simp only: bq_new_fields append_Nil)
  ultimately have "bq_q (snd (fold (route_input (\<lambda>_. None)) ?msgs (registerMarket ''KRW-BTC'' 0 er_new, \<lambda>_. bq_new n)) 0)
      = last_n n ?msgs" by metis
  then show "MyOrderRaw ?t \<notin> set (bq_q (snd (fold (route_input (\<lambda>_. None)) ?msgs
       (registerMarket ''KRW-BTC'' 0 er_new, \<lambda>_. bq_new n)) 0))"
    by (simp add: last_n_def)
qed

lemma sample_router: "er_accepting (registerMarket ''KRW-BTC'' 0 er_new)" "bq_ok (bq_new 1)" "0 < bq_max_size (bq_new 1)"
  "input_target (\<lambda>_. None) (er_routes (registerMarket ''KRW-BTC'' 0 er_new)) (MyOrderRaw (named_text ''KRW-BTC'')) = Some 0"
  by (simp_all add: registerMarket_def er_new_def target_def named_market_def named_text_target)

theorem routing_is_exact_witness:
  "\<exists>ok r' qs'. routeMarketData (\<lambda>_. None) (named_text ''KRW-BTC'') (registerMarket ''KRW-BTC'' 0 er_new, \<lambda>_. bq_new 1) = (ok, r', qs') \<and>
     ok \<and> (\<forall>a. qs' a = (if a = 0 then bq_push (MarketDataRaw (named_text ''KRW-BTC'')) (bq_new 1) else bq_new 1))"
proof -
  obtain ok r' qs' where h: "routeMarketData (\<lambda>_. None) (named_text ''KRW-BTC'') (registerMarket ''KRW-BTC'' 0 er_new, \<lambda>_. bq_new 1) = (ok, r', qs')"
    by (metis surj_pair)
  then have "routeMyOrder (\<lambda>_. None) (named_text ''KRW-BTC'') (registerMarket ''KRW-BTC'' 0 er_new, \<lambda>_. bq_new 1) = (ok, r', qs') \<and>
      MarketDataRaw (named_text ''KRW-BTC'') = MyOrderRaw (named_text ''KRW-BTC'') \<or>
      routeMarketData (\<lambda>_. None) (named_text ''KRW-BTC'') (registerMarket ''KRW-BTC'' 0 er_new, \<lambda>_. bq_new 1) = (ok, r', qs') \<and>
      MarketDataRaw (named_text ''KRW-BTC'') = MarketDataRaw (named_text ''KRW-BTC'')" by simp
  from routing_is_exact [OF this] h sample_router show ?thesis by auto
qed

theorem queue_holds_last_messages_witness:
  "bq_q (snd (fold (route_input (\<lambda>_. None)) [MyOrderRaw (named_text ''KRW-BTC'')]
     (registerMarket ''KRW-BTC'' 0 er_new, \<lambda>_. bq_new 1)) 0) = [MyOrderRaw (named_text ''KRW-BTC'')]"
  using queue_holds_last_messages [of "registerMarket ''KRW-BTC'' 0 er_new" "\<lambda>_. bq_new 1" 0 "\<lambda>_. None"
      "[MyOrderRaw (named_text ''KRW-BTC'')]"] sample_router
  by simp

theorem router_accounts_witness:
  "handled (er_stats (fst (fold (route_input (\<lambda>_. None)) [MyOrderRaw ''x'', MarketDataRaw (named_text ''KRW-BTC'')]
     (er_new \<lparr> er_routes := [''KRW-BTC'' \<mapsto> 0] \<rparr>, \<lambda>_. bq_new 1)))) = 2"
  using router_accounts [of "[MyOrderRaw ''x'', MarketDataRaw (named_text ''KRW-BTC'')]" "\<lambda>_. None" "[''KRW-BTC'' \<mapsto> 0]" "\<lambda>_. bq_new 1"]
  by simp

end
