(* ===== verification/StartupRecovery.thy ===== *)
theory StartupRecovery
  imports Rest StrategyExamples MarketEngine
begin

text \<open>
  What happens for each market before trading starts, \<open>src/src/app/StartupRecovery.cpp\<close>: open orders the program left behind are
  cancelled, and the strategy starts from the position the account holds. The calls of the exchange interface are
  arguments: \<open>getOpenOrders\<close> and \<open>getMyAccount\<close> answer their call with a given number, \<open>cancelOrder\<close> its attempt with a given
  number for an order. The result of the cancellation lists the calls that were made. Logging is left out.
\<close>

section \<open>Cancelling open orders\<close>

record StartupOptions =
  so_bot_identifier_prefix :: string
  so_cancel_retry :: int
  so_verify_retry :: int

definition default_startup :: "string \<Rightarrow> StartupOptions" where
  "default_startup pfx = \<lparr> so_bot_identifier_prefix = pfx, so_cancel_retry = 1, so_verify_retry = 1 \<rparr>"

type_synonym order_ref = "string option \<times> string option"

definition unitCurrency :: "string \<Rightarrow> string" where
  "unitCurrency market = (case find_char (CHR ''-'') market of None \<Rightarrow> [] | Some p \<Rightarrow> take p market)"

definition baseCurrency :: "string \<Rightarrow> string" where
  "baseCurrency market = (case find_char (CHR ''-'') market of None \<Rightarrow> [] | Some p \<Rightarrow> drop (p + 1) market)"

definition bot_order :: "string \<Rightarrow> Order \<Rightarrow> bool" where
  "bot_order pfx ord = (case o_identifier ord of None \<Rightarrow> False | Some i \<Rightarrow> starts_with i pfx)"

definition order_ref :: "Order \<Rightarrow> order_ref" where
  "order_ref ord = (if o_id ord = [] then None else Some (o_id ord), o_identifier ord)"

text \<open>At most \<open>n\<close> attempts, from attempt \<open>i\<close>: how many were made, and whether the last one succeeded.\<close>

fun cancel_attempts :: "(nat \<Rightarrow> RestError + bool) \<Rightarrow> nat \<Rightarrow> nat \<Rightarrow> nat \<times> bool" where
  "cancel_attempts answer i 0 = (0, False)"
| "cancel_attempts answer i (Suc n) =
     (case answer i of
        Inr True \<Rightarrow> (1, True)
      | _ \<Rightarrow> (let (calls, ok) = cancel_attempts answer (i + 1) n in (calls + 1, ok)))"

text \<open>The loop over the open orders: the calls made and the number of orders cancelled.\<close>

fun cancel_orders ::
    "(order_ref \<Rightarrow> nat \<Rightarrow> RestError + bool) \<Rightarrow> StartupOptions \<Rightarrow> Order list \<Rightarrow> order_ref list \<times> nat" where
  "cancel_orders cancelOrder opt [] = ([], 0)"
| "cancel_orders cancelOrder opt (ord # ords) =
     (if \<not> bot_order (so_bot_identifier_prefix opt) ord then cancel_orders cancelOrder opt ords
      else
        let (calls, ok) = cancel_attempts (cancelOrder (order_ref ord)) 0 (nat (so_cancel_retry opt));
            (rest, count) = cancel_orders cancelOrder opt ords
        in (replicate calls (order_ref ord) @ rest, (if ok then count + 1 else count)))"

text \<open>The loop that looks at the open orders again: how often it asks.\<close>

fun verify_orders :: "(nat \<Rightarrow> RestError + Order list) \<Rightarrow> string \<Rightarrow> nat \<Rightarrow> nat \<Rightarrow> nat" where
  "verify_orders getOpenOrders pfx i 0 = 0"
| "verify_orders getOpenOrders pfx i (Suc n) =
     (case getOpenOrders i of
        Inl e \<Rightarrow> 1
      | Inr remain \<Rightarrow>
          if \<not> list_ex (bot_order pfx) remain then 1
          else 1 + verify_orders getOpenOrders pfx (i + 1) n)"

record CancelResult =
  cr_calls :: "order_ref list"
  cr_cancel_count :: nat
  cr_verifications :: nat

definition cancelBotOpenOrders ::
    "(string \<Rightarrow> nat \<Rightarrow> RestError + Order list) \<Rightarrow> (order_ref \<Rightarrow> nat \<Rightarrow> RestError + bool) \<Rightarrow> string \<Rightarrow> StartupOptions \<Rightarrow> CancelResult" where
  "cancelBotOpenOrders getOpenOrders cancelOrder market opt =
     (let nothing = \<lparr> cr_calls = [], cr_cancel_count = 0, cr_verifications = 0 \<rparr>
      in if so_bot_identifier_prefix opt = [] then nothing
         else case getOpenOrders market 0 of
           Inl e \<Rightarrow> nothing
         | Inr open_orders \<Rightarrow>
             (let (calls, count) = cancel_orders cancelOrder opt open_orders
              in \<lparr> cr_calls = calls, cr_cancel_count = count,
                   cr_verifications =
                     verify_orders (getOpenOrders market) (so_bot_identifier_prefix opt) 1 (nat (so_verify_retry opt)) \<rparr>))"

section \<open>The position\<close>

definition no_position :: PositionSnapshot where
  "no_position = \<lparr> ps_coin = 0, ps_avg_entry_price = 0 \<rparr>"

definition buildPositionSnapshot :: "RestError + Account \<Rightarrow> string \<Rightarrow> PositionSnapshot" where
  "buildPositionSnapshot getMyAccount market =
     (case getMyAccount of
        Inl e \<Rightarrow> no_position
      | Inr acc \<Rightarrow>
          (let base = baseCurrency market; unit = unitCurrency market
           in if base = [] \<or> unit = [] then no_position
              else case find (\<lambda>p. p_currency p = base \<and> p_unit_currency p = unit) (a_positions acc) of
                None \<Rightarrow> no_position
              | Some p \<Rightarrow> \<lparr> ps_coin = p_free p, ps_avg_entry_price = p_avg_buy_price p \<rparr>))"

text \<open>\<open>StartupRecovery::run\<close>; \<open>bot_prefix\<close> is the pfx its caller makes (\<open>MarketEngineManager::recoverMarketState_\<close>).\<close>

definition startup_run ::
    "(string \<Rightarrow> nat \<Rightarrow> RestError + Order list) \<Rightarrow> (order_ref \<Rightarrow> nat \<Rightarrow> RestError + bool) \<Rightarrow> RestError + Account \<Rightarrow>
     string \<Rightarrow> StartupOptions \<Rightarrow> Strategy \<Rightarrow> CancelResult \<times> Strategy" where
  "startup_run getOpenOrders cancelOrder getMyAccount market opt strategy =
     (cancelBotOpenOrders getOpenOrders cancelOrder market opt,
      syncOnStart (buildPositionSnapshot getMyAccount market) strategy)"

definition bot_prefix :: "string \<Rightarrow> string" where
  "bot_prefix market = strategy_id @ '':'' @ market @ '':''"

section \<open>Properties\<close>

lemma cancel_attempts_spec:
  "cancel_attempts answer i n = (c, ok) \<Longrightarrow> c \<le> n \<and> (0 < n \<longrightarrow> 0 < c) \<and> (\<forall>k. Suc k < c \<longrightarrow> answer (i + k) \<noteq> Inr True) \<and>
     (if ok then 0 < c \<and> answer (i + (c - 1)) = Inr True else c = n \<and> (\<forall>k<n. answer (i + k) \<noteq> Inr True))"
proof (induction n arbitrary: i c ok)
  case (Suc n)
  obtain c' ok' where r: "cancel_attempts answer (i + 1) n = (c', ok')" by (cases "cancel_attempts answer (i + 1) n")
  note ih = Suc.IH [OF r]
  show ?case
  proof (cases "answer i = Inr True")
    case False
    then have c: "c = Suc c'" "ok = ok'"
      using Suc.prems r by (auto split: sum.splits bool.splits)
    have sh: "(\<forall>k<Suc m. P k) \<longleftrightarrow> P 0 \<and> (\<forall>k<m. P (Suc k))" for m and P :: "nat \<Rightarrow> bool"
      by (metis less_Suc_eq_0_disj)
    have "answer (i + k) \<noteq> Inr True" if "Suc k < c" for k
      using that ih False c by (cases k) auto
    moreover have "answer (i + k) \<noteq> Inr True" if "\<not> ok" "k < Suc n" for k
      using that ih False c by (cases k) (auto split: if_splits)
    moreover have "answer (i + (c - 1)) = Inr True" if ok
      using that ih c by (auto split: if_splits)
    ultimately show ?thesis using ih c by (auto split: if_splits)
  qed (use Suc.prems in auto)
qed auto

lemma own_order_iff: "(\<lambda>ord. \<exists>i. o_identifier ord = Some (pfx @ i)) = bot_order pfx"
  by (auto simp: bot_order_def starts_with_iff fun_eq_iff split: option.split)

text \<open>
  C16: Only the program's own orders are cancelled, and all of them are tried: the cancel calls made are, in the order of the
  exchange's list, for each open order whose identifier starts with the prefix at least one and at most \<open>cancel_retry\<close>
  calls for that very order, fewer only if the last one succeeded, and the count is the number of orders whose last call succeeded.
  Without a prefix or without an answer nothing is cancelled.
\<close>

theorem only_own_orders_cancelled:
  assumes "1 \<le> so_cancel_retry opt" "r = cancelBotOpenOrders getOpenOrders cancelOrder market opt"
  shows "if so_bot_identifier_prefix opt = [] \<or> (\<exists>e. getOpenOrders market 0 = Inl e) then cr_calls r = [] \<and> cr_cancel_count r = 0
     else \<exists>n own. own = filter (\<lambda>ord. \<exists>i. o_identifier ord = Some (so_bot_identifier_prefix opt @ i)) (projr (getOpenOrders market 0)) \<and>
            cr_calls r = concat (map (\<lambda>ord. replicate (n ord) (if o_id ord = [] then None else Some (o_id ord), o_identifier ord)) own) \<and>
            (\<forall>ord. 1 \<le> n ord \<and> n ord \<le> nat (so_cancel_retry opt) \<and>
               (n ord < nat (so_cancel_retry opt) \<longrightarrow> cancelOrder (order_ref ord) (n ord - 1) = Inr True)) \<and>
            cr_cancel_count r = length (filter (\<lambda>ord. cancelOrder (order_ref ord) (n ord - 1) = Inr True) own)"
proof -
  define N where "N = nat (so_cancel_retry opt)"
  define n where "n = (\<lambda>ord. fst (cancel_attempts (cancelOrder (order_ref ord)) 0 N))"
  have N: "0 < N" using assms(1) by (simp add: N_def)
  have a: "1 \<le> n ord \<and> n ord \<le> N \<and> (n ord < N \<longrightarrow> cancelOrder (order_ref ord) (n ord - 1) = Inr True) \<and>
      (snd (cancel_attempts (cancelOrder (order_ref ord)) 0 N) \<longleftrightarrow> cancelOrder (order_ref ord) (n ord - 1) = Inr True)" for ord
  proof -
    obtain c ok where r: "cancel_attempts (cancelOrder (order_ref ord)) 0 N = (c, ok)"
      by (cases "cancel_attempts (cancelOrder (order_ref ord)) 0 N")
    show ?thesis using cancel_attempts_spec [OF r] N r by (cases ok) (auto simp: n_def)
  qed
  have "cancel_orders cancelOrder opt ords =
      (concat (map (\<lambda>ord. replicate (n ord) (order_ref ord)) (filter (bot_order (so_bot_identifier_prefix opt)) ords)),
       length (filter (\<lambda>ord. cancelOrder (order_ref ord) (n ord - 1) = Inr True)
         (filter (bot_order (so_bot_identifier_prefix opt)) ords)))" for ords
    by (induction ords) (use a in \<open>auto simp: Let_def split_beta N_def n_def\<close>)
  then show ?thesis using a unfolding own_order_iff order_ref_def [symmetric]
    by (cases "getOpenOrders market 0")
      (auto simp: assms(2) cancelBotOpenOrders_def Let_def N_def intro!: exI [of _ n])
qed

lemma next_id_prefix: "next_id s tag uuid = bot_prefix (st_market s) @ tag @ '':'' @ uuid"
  by (simp add: next_id_def bot_prefix_def)

lemma split_at_eq: "c \<notin> set m \<Longrightarrow> c \<notin> set m' \<Longrightarrow> m @ c # t = m' @ c # r \<longleftrightarrow> m = m' \<and> t = r"
proof (induction m arbitrary: m')
  case Nil
  then show ?case by (cases m') auto
next
  case (Cons d m)
  then show ?case by (cases m') auto
qed

lemma bot_prefix_market:
  "CHR '':'' \<notin> set m \<Longrightarrow> CHR '':'' \<notin> set m' \<Longrightarrow> starts_with (bot_prefix m @ t) (bot_prefix m') \<longleftrightarrow> m = m'"
  using split_at_eq [of "CHR '':''" m m' t] by (auto simp: bot_prefix_def starts_with_iff)

text \<open>
  At a restart every order is recognised by its own market only: an order a strategy decided on, as it is submitted to the
  exchange, counts as a bot order in the start of market \<open>m'\<close> if and only if it is an order of the strategy of
  \<open>m'\<close> (market codes have no colon).
\<close>

theorem own_orders_recognised:
  assumes "dn_order (fst (onCandle cfg uuid c a s)) = Some req \<or> dn_order (fst (onIntrabarCandle cfg uuid close a s)) = Some req"
    "CHR '':'' \<notin> set (st_market s)" "CHR '':'' \<notin> set m'"
  shows "bot_order (bot_prefix m') (submitted_order req order_uuid) \<longleftrightarrow> rq_market req = m'"
proof -
  obtain tag where "rq_identifier req = next_id s tag uuid" "rq_market req = st_market s"
    using assms(1) candle_order intrabar_order by blast
  then show ?thesis using bot_prefix_market [OF assms(2,3)]
    by (simp add: bot_order_def submitted_order_def next_id_prefix)
qed

text \<open>
  C17: A restarted strategy is where the account is: for the market \<open>unit-base\<close> it waits for no order, and it holds the position the
  account lists for exactly this pair, at the account's average price, if both are positive; otherwise it is out of
  the market with no prices set. Nothing of an earlier life is left.
\<close>

theorem startup_follows_account:
  assumes "CHR ''-'' \<notin> set unit" "unit \<noteq> []" "base \<noteq> []"
    "s' = snd (startup_run open_orders cancel (Inr acc) (unit @ ''-'' @ base) opt s)"
  shows "st_pending_client_id s' = None \<and>
     (case find (\<lambda>p. p_currency p = base \<and> p_unit_currency p = unit) (a_positions acc) of
        Some p \<Rightarrow>
          if 0 < p_free p \<and> 0 < p_avg_buy_price p
          then st_state s' = InPosition \<and> st_entry_price s' = Some (p_avg_buy_price p)
          else st_state s' = Flat \<and> st_entry_price s' = None \<and> st_stop_price s' = None
      | None \<Rightarrow> st_state s' = Flat \<and> st_entry_price s' = None \<and> st_stop_price s' = None)"
proof -
  have "find_char (CHR ''-'') (unit @ ''-'' @ base) = Some (length unit)"
    using assms(1) by (induction unit) auto
  then have "unitCurrency (unit @ ''-'' @ base) = unit" "baseCurrency (unit @ ''-'' @ base) = base"
    by (simp_all add: unitCurrency_def baseCurrency_def)
  then show ?thesis using assms(2,3)
    by (auto simp: assms(4) startup_run_def buildPositionSnapshot_def Let_def no_position_def syncOnStart_def hasPosition_def
        clearPendingState_def clear_prices_def set_entry_def setStopsFromEntry_def split: option.split)
qed

section \<open>Examples\<close>

lemma selling_order:
  obtains req where "dn_order (fst (onIntrabarCandle default_config ''u1'' (D 100) sold_account holding_strategy)) = Some req"
    "rq_market req = ''KRW-ADA''"
  using example_sell by (auto simp: holding_facts)

theorem own_orders_recognised_witness:
  "\<exists>req. bot_order (bot_prefix ''KRW-ADA'') (submitted_order req ''uuid'') \<and>
     \<not> bot_order (bot_prefix ''KRW-BTC'') (submitted_order req ''uuid'')"
proof -
  obtain req where r: "dn_order (fst (onIntrabarCandle default_config ''u1'' (D 100) sold_account holding_strategy)) = Some req"
    "rq_market req = ''KRW-ADA''"
    by (rule selling_order)
  have "bot_order (bot_prefix m) (submitted_order req ''uuid'') \<longleftrightarrow> rq_market req = m" if "CHR '':'' \<notin> set m" for m
    by (rule own_orders_recognised [OF disjI2 [OF r(1)] _ that]) (simp add: holding_facts)
  from this [of "''KRW-ADA''"] this [of "''KRW-BTC''"] r(2) show ?thesis by auto
qed

definition plain_request :: "string \<Rightarrow> OrderRequest" where
  "plain_request i = \<lparr> rq_market = ''KRW-ADA'', rq_position = BID, rq_type = Market, rq_size = AmountSize 1, rq_price = None,
     rq_strategy_id = [], rq_identifier = i, rq_client_tag = [] \<rparr>"

text \<open>An order placed by hand and one of the program.\<close>

definition hand_order :: Order where
  "hand_order = submitted_order (plain_request ''mine'') ''a''"

definition left_order :: Order where
  "left_order = submitted_order (plain_request ''rsi_mean_reversion:KRW-ADA:x:1'') ''b''"

lemma left_orders:
  "filter (\<lambda>ord. \<exists>i. o_identifier ord = Some (bot_prefix ''KRW-ADA'' @ i)) [hand_order, left_order] = [left_order]"
  "o_id left_order = ''b''" "o_identifier left_order = Some ''rsi_mean_reversion:KRW-ADA:x:1''"
  unfolding own_order_iff
  by (simp_all add: bot_order_def hand_order_def left_order_def submitted_order_def plain_request_def bot_prefix_def strategy_id_def)

theorem only_own_orders_cancelled_witness:
  "cr_calls (cancelBotOpenOrders (\<lambda>_ _. Inr [hand_order, left_order]) (\<lambda>_ _. Inr True) ''KRW-ADA''
     (default_startup (bot_prefix ''KRW-ADA''))) = [(Some ''b'', Some ''rsi_mean_reversion:KRW-ADA:x:1'')]"
proof -
  have o: "so_bot_identifier_prefix (default_startup (bot_prefix ''KRW-ADA'')) = bot_prefix ''KRW-ADA''"
    "so_cancel_retry (default_startup (bot_prefix ''KRW-ADA'')) = 1" "bot_prefix ''KRW-ADA'' \<noteq> []"
    by (simp_all add: default_startup_def bot_prefix_def)
  define r where "r = cancelBotOpenOrders (\<lambda>_ _. Inr [hand_order, left_order]) (\<lambda>_ _. Inr True) ''KRW-ADA''
     (default_startup (bot_prefix ''KRW-ADA''))"
  obtain n where n: "cr_calls r = replicate (n left_order) (Some ''b'', Some ''rsi_mean_reversion:KRW-ADA:x:1'')"
    "\<forall>ord. Suc 0 \<le> n ord \<and> n ord \<le> Suc 0"
    using only_own_orders_cancelled [OF _ r_def] o left_orders(2,3) by (auto simp: left_orders(1) simp del: filter.simps)
  then have "n left_order = Suc 0" by (metis le_antisym)
  then show ?thesis using n(1) by (simp add: r_def)
qed

theorem startup_follows_account_witness:
  "st_state (snd (startup_run (\<lambda>_ _. Inr []) (\<lambda>_ _. Inr True)
      (Inr \<lparr> a_id = [], a_krw_free = 0, a_krw_locked = 0,
             a_positions = [\<lparr> p_currency = ''ADA'', p_free = D 100, p_avg_buy_price = D 200, p_unit_currency = ''KRW'' \<rparr>],
             a_totalAssetValue = 0 \<rparr>)
      (''KRW'' @ ''-'' @ ''ADA'') (default_startup (bot_prefix ''KRW-ADA'')) (strategy_new ''KRW-ADA'' default_params))) = InPosition"
  using startup_follows_account [of "''KRW''" "''ADA''", OF _ _ _ refl,
      of "\<lambda>_ _. Inr []" "\<lambda>_ _. Inr True"
        "\<lparr> a_id = [], a_krw_free = 0, a_krw_locked = 0,
             a_positions = [\<lparr> p_currency = ''ADA'', p_free = D 100, p_avg_buy_price = D 200, p_unit_currency = ''KRW'' \<rparr>],
             a_totalAssetValue = 0 \<rparr>" "default_startup (bot_prefix ''KRW-ADA'')" "strategy_new ''KRW-ADA'' default_params"]
  by simp

end
