(* ===== verification/MarketWorker.thy ===== *)
theory MarketWorker
  imports EventRouter StartupRecovery UpbitMappers
begin

text \<open>
  The worker of one market, \<open>src/src/app/MarketEngineManager.cpp\<close>: the context of a market and every handler of
  its event loop, from a raw message to the engine, from the engine's events to the strategy, from the strategy's decision back
  to the engine, with recovery and the pending timeout. A worker owns its context; the account manager and the order
  store (\<open>Env\<close>) are shared. What comes from outside during one iteration is the argument \<open>io\<close>: answers of the
  exchange, identifiers drawn, times read, messages that arrive; \<open>su\<close> holds what never changes. Writes to
  the database are listed in the state; logging is left out.
\<close>

section \<open>State\<close>

record MarketManagerConfig =
  mc_strategy_params :: Params
  mc_queue_capacity :: nat
  mc_sync_retry :: int
  mc_pending_timeout :: int \<comment> \<open>seconds\<close>

definition default_manager_config :: MarketManagerConfig where
  "default_manager_config = \<lparr> mc_strategy_params = default_params, mc_queue_capacity = 5000, mc_sync_retry = 3,
     mc_pending_timeout = 120 \<rparr>"

record MarketContext =
  cx_market :: string
  cx_engine :: MarketEngine
  cx_strategy :: Strategy
  cx_event_queue :: "EngineInput BlockingQueue"
  cx_worker :: bool
  cx_pending_candle :: "Candle option"
  cx_intrabar_fail_ts :: "string option"
  cx_tracking_pending :: bool
  cx_pending_entered_at :: int
  cx_pending_timeout_fired :: bool
  cx_recovery_requested :: bool
  cx_has_active_pending :: bool
  cx_exited_abnormally :: bool

datatype DbWrite = DbOrder Order | DbCandle string Candle int | DbSignal SignalRecord

record Worker =
  wk_ctx :: MarketContext
  wk_env :: Env
  wk_db :: "DbWrite list"

record Setup =
  su_cfg :: AppConfig
  su_manager :: MarketManagerConfig
  su_db :: bool
  su_read_order :: "string \<Rightarrow> UpbitMyOrderDto option"
  su_read_type :: "string \<Rightarrow> exn + string option"
  su_read_candle :: "string \<Rightarrow> CandleDto_Minute option"

text \<open>\<open>getOrder\<close> answers by the recovery it belongs to (at the start of the iteration, for a message, for a timeout),
  the order and the attempt; the two identifiers serve a candle and an intrabar check; times are nanoseconds.\<close>

record Outside =
  io_postOrder :: "OrderRequest \<Rightarrow> RestError + string"
  io_getOrder :: "nat \<Rightarrow> string \<Rightarrow> nat \<Rightarrow> RestError + Order"
  io_uuid1 :: string
  io_uuid2 :: string
  io_now_ms :: int64
  io_clock1 :: int
  io_clock2 :: int
  io_arrived :: "EngineInput list"

definition upd_ctx :: "(MarketContext \<Rightarrow> MarketContext) \<Rightarrow> Worker \<Rightarrow> Worker" where
  "upd_ctx f w = w \<lparr> wk_ctx := f (wk_ctx w) \<rparr>"

definition eng :: "Worker \<Rightarrow> MarketEngine \<times> Env" where
  "eng w = (cx_engine (wk_ctx w), wk_env w)"

definition set_eng :: "MarketEngine \<times> Env \<Rightarrow> Worker \<Rightarrow> Worker" where
  "set_eng s w = w \<lparr> wk_ctx := (wk_ctx w) \<lparr> cx_engine := fst s \<rparr>, wk_env := snd s \<rparr>"

definition strat :: "Worker \<Rightarrow> Strategy" where
  "strat w = cx_strategy (wk_ctx w)"

definition set_strat :: "Strategy \<Rightarrow> Worker \<Rightarrow> Worker" where
  "set_strat s w = upd_ctx (\<lambda>c. c \<lparr> cx_strategy := s \<rparr>) w"

definition db_write :: "Setup \<Rightarrow> DbWrite list \<Rightarrow> Worker \<Rightarrow> Worker" where
  "db_write su ws w = (if su_db su then w \<lparr> wk_db := wk_db w @ ws \<rparr> else w)"

definition buildAccountSnapshot :: "string \<Rightarrow> Env \<Rightarrow> AccountSnapshot" where
  "buildAccountSnapshot market env =
     (case getBudget (env_am env) market of
        Some b \<Rightarrow> \<lparr> as_krw_available = mb_available_krw b, as_coin_available = mb_coin_balance b \<rparr>
      | None \<Rightarrow> \<lparr> as_krw_available = 0, as_coin_available = 0 \<rparr>)"

section \<open>Order messages\<close>

fun is_fill :: "MyOrderEvent \<Rightarrow> bool" where
  "is_fill (TradeEv t) = True"
| "is_fill (OrderEv ord) = False"

fun handle_order_event :: "Setup \<Rightarrow> bool \<Rightarrow> MyOrderEvent \<Rightarrow> Worker \<Rightarrow> Worker" where
  "handle_order_event su has_trade (TradeEv t) w = set_eng (onMyTrade (su_cfg su) t (eng w)) w"
| "handle_order_event su has_trade (OrderEv ord) w =
     (let isTerminal = (o_status ord = Filled \<or> o_status ord = Canceled \<or> o_status ord = Rejected);
          (reconcile_ok, w1) =
            (if \<not> has_trade \<and> isTerminal then
               (let (ok, s) = reconcileFromSnapshot (su_cfg su) ord (eng w);
                    w1 = set_eng s w
                in (ok, (if ok then w1 else upd_ctx (\<lambda>c. c \<lparr> cx_recovery_requested := True \<rparr>) w1)))
             else (True, set_eng (onOrderSnapshot (su_cfg su) ord (eng w)) w))
      in if isTerminal \<and> reconcile_ok then db_write su [DbOrder ord] w1 else w1)"

definition handleMyOrder :: "Setup \<Rightarrow> string \<Rightarrow> Worker \<Rightarrow> Worker" where
  "handleMyOrder su json w =
     (let events = parseMyOrder (su_read_order su) (su_cfg su) json
      in if events = [] then w else fold (handle_order_event su (list_ex is_fill events)) events w)"

section \<open>Market data\<close>

text \<open>The message of an error of \<open>postOrder\<close> is what the engine keeps of it.\<close>

definition post_answer :: "(OrderRequest \<Rightarrow> RestError + string) \<Rightarrow> OrderRequest \<Rightarrow> string + string" where
  "post_answer post req = (case post req of Inl e \<Rightarrow> Inl (re_message e) | Inr order_uuid \<Rightarrow> Inr order_uuid)"

definition submit_order :: "Setup \<Rightarrow> Outside \<Rightarrow> OrderRequest \<Rightarrow> Worker \<Rightarrow> bool \<times> Worker" where
  "submit_order su io req w =
     (let (r, s) = submit (su_cfg su) (post_answer (io_postOrder io)) req (eng w)
      in (er_success r, set_eng s w))"

text \<open>The lambda of \<open>handleMarketData_\<close>.\<close>

definition doIntrabarCheck :: "Setup \<Rightarrow> Outside \<Rightarrow> double \<Rightarrow> Worker \<Rightarrow> Worker" where
  "doIntrabarCheck su io intrabar_close w =
     (let w1 = set_eng (setMarkPrice intrabar_close (fst (eng w)), snd (eng w)) w;
          ctx = wk_ctx w1
      in if cx_pending_candle ctx \<noteq> None \<and> cx_intrabar_fail_ts ctx \<noteq> None \<and>
            c_start_timestamp (the (cx_pending_candle ctx)) = the (cx_intrabar_fail_ts ctx) then w1
         else if st_state (strat w1) \<noteq> InPosition then w1
         else
           let account = buildAccountSnapshot (cx_market ctx) (wk_env w1);
               (d, s) = onIntrabarCandle (su_cfg su) (io_uuid2 io) intrabar_close account (strat w1);
               w2 = set_strat s w1
           in case dn_order d of
                None \<Rightarrow> w2
              | Some req \<Rightarrow>
                  (let (ok, w3) = submit_order su io req w2
                   in if ok then w3
                      else
                        let w4 = set_strat (onSubmitFailed (strat w3)) w3
                        in case cx_pending_candle (wk_ctx w4) of
                             None \<Rightarrow> w4
                           | Some c \<Rightarrow> upd_ctx (\<lambda>x. x \<lparr> cx_intrabar_fail_ts := Some (c_start_timestamp c) \<rparr>) w4))"

text \<open>A candle that is complete: recorded, priced, decided on.\<close>

definition confirm_candle :: "Setup \<Rightarrow> Outside \<Rightarrow> Candle \<Rightarrow> int \<Rightarrow> Worker \<Rightarrow> Worker" where
  "confirm_candle su io candle live_unit w =
     (let w1 = db_write su [DbCandle (cx_market (wk_ctx w)) candle live_unit] w;
          w2 = set_eng (setMarkPrice (c_close_price candle) (fst (eng w1)), snd (eng w1)) w1;
          account = buildAccountSnapshot (cx_market (wk_ctx w2)) (wk_env w2);
          (d, s) = onCandle (su_cfg su) (io_uuid1 io) candle account (strat w2);
          w3 = set_strat s w2
      in case dn_order d of
           None \<Rightarrow> w3
         | Some req \<Rightarrow>
             (let (ok, w4) = submit_order su io req w3
              in if ok then w4 else set_strat (onSubmitFailed (strat w4)) w4))"

definition handleMarketData :: "Setup \<Rightarrow> Outside \<Rightarrow> string \<Rightarrow> Worker \<Rightarrow> exn + Worker" where
  "handleMarketData su io json w =
     (case parseCandle (su_read_type su) (su_read_candle su) json (live_candle_unit_minutes (su_cfg su)) of
        Inl e \<Rightarrow> Inl e
      | Inr None \<Rightarrow> Inr w
      | Inr (Some result) \<Rightarrow>
          (let incoming = wc_candle result;
               w1 = upd_ctx (\<lambda>c. c \<lparr> cx_pending_candle := Some incoming \<rparr>) w
           in case cx_pending_candle (wk_ctx w) of
                None \<Rightarrow> Inr (doIntrabarCheck su io (c_close_price incoming) w1)
              | Some candle \<Rightarrow>
                  if c_start_timestamp candle = c_start_timestamp incoming
                  then Inr (doIntrabarCheck su io (c_close_price incoming) w1)
                  else Inr (doIntrabarCheck su io (c_close_price incoming)
                         (confirm_candle su io candle (wc_unit_minutes result) w1))))"

section \<open>Engine events\<close>

fun handle_engine_event :: "Setup \<Rightarrow> Outside \<Rightarrow> EngineEvent \<Rightarrow> Worker \<Rightarrow> Worker" where
  "handle_engine_event su io (FillEv e) w =
     set_strat (onFill \<lparr> fv_identifier = ef_identifier e, fv_position = ef_position e, fv_fill_price = ef_fill_price e,
       fv_filled_volume = ef_filled_volume e \<rparr> (strat w)) w"
| "handle_engine_event su io (StatusEv e) w =
     (let (sigs, s) = onOrderUpdate (io_now_ms io)
            \<lparr> ou_identifier = es_identifier e, ou_status = es_status e, ou_position = es_position e,
              ou_executed_volume = es_executed_volume e, ou_remaining_volume = es_remaining_volume e,
              ou_executed_funds = es_executed_funds e, ou_position_effect = es_position_effect e \<rparr> (strat w)
      in db_write su (map DbSignal sigs) (set_strat s w))"

definition handleEngineEvents :: "Setup \<Rightarrow> Outside \<Rightarrow> EngineEvent list \<Rightarrow> Worker \<Rightarrow> Worker" where
  "handleEngineEvents su io evs w = fold (handle_engine_event su io) evs w"

section \<open>Recovery\<close>

text \<open>At most \<open>n\<close> more attempts, from attempt \<open>i\<close>.\<close>

fun queryOrderWithRetry :: "(nat \<Rightarrow> RestError + Order) \<Rightarrow> nat \<Rightarrow> nat \<Rightarrow> Order option" where
  "queryOrderWithRetry getOrder i 0 = None"
| "queryOrderWithRetry getOrder i (Suc n) =
     (case getOrder i of Inr ord \<Rightarrow> Some ord | Inl e \<Rightarrow> queryOrderWithRetry getOrder (i + 1) n)"

text \<open>The body of the loop over the buy and the sell order.\<close>

definition recover_order :: "Setup \<Rightarrow> (string \<Rightarrow> nat \<Rightarrow> RestError + Order) \<Rightarrow> string \<Rightarrow> Worker \<Rightarrow> Worker" where
  "recover_order su getOrder order_uuid w =
     (if order_uuid = [] then w
      else case queryOrderWithRetry (getOrder order_uuid) 1 3 of
        None \<Rightarrow> w
      | Some ord \<Rightarrow>
          (let (reconciled, s) = reconcileFromSnapshot (su_cfg su) ord (eng w);
               w1 = set_eng s w;
               isTerminal = (o_status ord = Filled \<or> o_status ord = Canceled \<or> o_status ord = Rejected)
           in if isTerminal \<and> reconciled then db_write su [DbOrder ord] w1 else w1))"

definition stop_tracking :: "MarketContext \<Rightarrow> MarketContext" where
  "stop_tracking c = c \<lparr> cx_tracking_pending := False, cx_pending_timeout_fired := False \<rparr>"

definition runRecovery :: "Setup \<Rightarrow> (string \<Rightarrow> nat \<Rightarrow> RestError + Order) \<Rightarrow> Worker \<Rightarrow> Worker" where
  "runRecovery su getOrder w =
     (let (buy_order_uuid, sell_order_uuid) = activePendingIds (cx_engine (wk_ctx w))
      in if buy_order_uuid = [] \<and> sell_order_uuid = [] then upd_ctx stop_tracking w
         else upd_ctx stop_tracking
           (recover_order su getOrder sell_order_uuid (recover_order su getOrder buy_order_uuid w)))"

definition checkPendingTimeout :: "Setup \<Rightarrow> Outside \<Rightarrow> Worker \<Rightarrow> Worker" where
  "checkPendingTimeout su io w =
     (let (buy_id, sell_id) = activePendingIds (cx_engine (wk_ctx w));
          is_pending = (buy_id \<noteq> [] \<or> sell_id \<noteq> []);
          w1 = upd_ctx (\<lambda>c. c \<lparr> cx_has_active_pending := is_pending \<rparr>) w;
          w2 = (if is_pending \<and> \<not> cx_tracking_pending (wk_ctx w1)
                then upd_ctx (\<lambda>c. c \<lparr> cx_tracking_pending := True, cx_pending_entered_at := io_clock1 io,
                                       cx_pending_timeout_fired := False \<rparr>) w1
                else w1)
      in if \<not> is_pending then upd_ctx stop_tracking w2
         else if cx_pending_timeout_fired (wk_ctx w2) then w2
         else if mc_pending_timeout (su_manager su) * 1000000000 \<le> io_clock2 io - cx_pending_entered_at (wk_ctx w2)
              then runRecovery su (io_getOrder io 2) (upd_ctx (\<lambda>c. c \<lparr> cx_pending_timeout_fired := True \<rparr>) w2)
              else w2)"

section \<open>The loop\<close>

fun handleOne :: "Setup \<Rightarrow> Outside \<Rightarrow> EngineInput \<Rightarrow> Worker \<Rightarrow> exn + Worker" where
  "handleOne su io (MyOrderRaw json) w = Inr (handleMyOrder su json w)"
| "handleOne su io (MarketDataRaw json) w = handleMarketData su io json w"
| "handleOne su io AccountSyncRequest w = Inr (runRecovery su (io_getOrder io 1) w)"

text \<open>One iteration. An exception leaves what was done before it and skips the rest.\<close>

definition start_recovery :: "Setup \<Rightarrow> Outside \<Rightarrow> Worker \<Rightarrow> Worker" where
  "start_recovery su io w =
     (if cx_recovery_requested (wk_ctx w)
      then runRecovery su (io_getOrder io 0) (upd_ctx (\<lambda>c. c \<lparr> cx_recovery_requested := False \<rparr>) w)
      else w)"

definition deliver_events :: "Setup \<Rightarrow> Outside \<Rightarrow> Worker \<Rightarrow> Worker" where
  "deliver_events su io w =
     (let (evs, e) = pollEvents (cx_engine (wk_ctx w))
      in handleEngineEvents su io evs (upd_ctx (\<lambda>c. c \<lparr> cx_engine := e \<rparr>) w))"

definition worker_iteration :: "Setup \<Rightarrow> Outside \<Rightarrow> Worker \<Rightarrow> Worker" where
  "worker_iteration su io w =
     (let w1 = start_recovery su io w;
          (maybe, q) = bq_pop_for (io_arrived io) (cx_event_queue (wk_ctx w1));
          w2 = upd_ctx (\<lambda>c. c \<lparr> cx_event_queue := q \<rparr>) w1
      in case (case maybe of None \<Rightarrow> Inr w2 | Some inp \<Rightarrow> handleOne su io inp w2) of
           Inl e \<Rightarrow> w2
         | Inr w3 \<Rightarrow> checkPendingTimeout su io (deliver_events su io w3))"

text \<open>The whole loop: one iteration for each member of the list, then the stop request; if the engine could not be bound
  to the thread, the worker gives up.\<close>

definition workerLoop :: "Setup \<Rightarrow> bool \<Rightarrow> Outside list \<Rightarrow> Worker \<Rightarrow> Worker" where
  "workerLoop su bound ios w =
     (if \<not> bound then upd_ctx (\<lambda>c. c \<lparr> cx_exited_abnormally := True \<rparr>) w
      else fold (worker_iteration su) ios w)"

end
