(* ===== verification/WorkerMachine.thy ===== *)
theory WorkerMachine
  imports MarketWorker
begin

text \<open>
  The market as a state machine above the worker: the pair of engine and strategy with the transitions the program means
  them to make together, and the invariant of that machine: an order the strategy waits for is an order the engine tracks.
\<close>

section \<open>The abstract machine\<close>

type_synonym mkt = "(MarketEngine \<times> Env) \<times> Strategy"

text \<open>\<open>ledger\<close> is the exchange's own record of which market an order belongs to. What is assumed of the exchange is that
  it reports an order with its market, and that it answers an accepted order with an identifier of the order's market.\<close>

type_synonym ledger = "string \<Rightarrow> string"

definition honest_order :: "ledger \<Rightarrow> Order \<Rightarrow> bool" where
  "honest_order L ord \<longleftrightarrow> o_market ord \<noteq> [] \<and> L (o_id ord) = o_market ord"

fun honest_answer :: "ledger \<Rightarrow> OrderRequest \<Rightarrow> string + string \<Rightarrow> bool" where
  "honest_answer L req (Inl msg) = True"
| "honest_answer L req (Inr u) = (u \<noteq> [] \<and> L u = rq_market req)"

fun is_input :: "ledger \<Rightarrow> engine_in \<Rightarrow> bool" where
  "is_input L (InTrade t) = True"
| "is_input L (InSnapshot ord) = honest_order L ord"
| "is_input L (InReconcile ord) = honest_order L ord"
| "is_input L (InMark p) = True"
| "is_input L _ = False"

text \<open>What the strategy is told of an engine event.\<close>

fun told :: "int64 \<Rightarrow> EngineEvent \<Rightarrow> strat_in" where
  "told now (FillEv e) = InFill \<lparr> fv_identifier = ef_identifier e, fv_position = ef_position e,
     fv_fill_price = ef_fill_price e, fv_filled_volume = ef_filled_volume e \<rparr>"
| "told now (StatusEv e) = InStatus now \<lparr> ou_identifier = es_identifier e, ou_status = es_status e, ou_position = es_position e,
     ou_executed_volume = es_executed_volume e, ou_remaining_volume = es_remaining_volume e,
     ou_executed_funds = es_executed_funds e, ou_position_effect = es_position_effect e \<rparr>"

fun told_account :: "strat_in \<Rightarrow> AccountSnapshot option" where
  "told_account (InCandle uuid c a) = Some a"
| "told_account (InIntrabar uuid close a) = Some a"
| "told_account _ = None"

text \<open>The engine takes a message or a price; the strategy decides on a price with the account of its market, and an order it
  decides on is submitted at once, and given up at once if the submission fails; the engine's events are told to the strategy,
  all of them, in order.\<close>

inductive market_step :: "AppConfig \<Rightarrow> ledger \<Rightarrow> string \<Rightarrow> mkt \<Rightarrow> mkt \<Rightarrow> bool" for cfg L m where
  ms_input: "is_input L inp \<Longrightarrow> market_step cfg L m (s, st) (engine_step cfg inp s, st)"
| ms_watch: "told_account i = Some (buildAccountSnapshot m (snd s)) \<Longrightarrow> strat_step cfg i st = ([], st') \<Longrightarrow>
     market_step cfg L m (s, st) (s, st')"
| ms_order: "told_account i = Some (buildAccountSnapshot m (snd s)) \<Longrightarrow> strat_step cfg i st = ([OutOrder req], st') \<Longrightarrow>
     honest_answer L req (post req) \<Longrightarrow> submit cfg post req s = (r, s') \<Longrightarrow>
     market_step cfg L m (s, st) (s', if er_success r then st' else onSubmitFailed st')"
| ms_deliver: "market_step cfg L m (s, st)
     (engine_step cfg InPoll s, fold (\<lambda>ev st. snd (strat_step cfg (told now ev) st)) (me_events (fst s)) st)"

abbreviation market_steps :: "AppConfig \<Rightarrow> ledger \<Rightarrow> string \<Rightarrow> mkt \<Rightarrow> mkt \<Rightarrow> bool" where
  "market_steps cfg L m \<equiv> (market_step cfg L m)\<^sup>*\<^sup>*"

section \<open>The invariant\<close>

definition orders_ok :: "Env \<Rightarrow> bool" where
  "orders_ok env \<longleftrightarrow> store_ok (env_store env) \<and> (\<forall>k ord. os_get (env_store env) k = Some ord \<longrightarrow> isOpen ord)"

definition exclusive :: "MarketEngine \<Rightarrow> bool" where
  "exclusive e \<longleftrightarrow> (me_buy_token e \<noteq> None \<longrightarrow> me_sell_uuid e = []) \<and> (me_buy_uuid e \<noteq> [] \<longrightarrow> me_buy_token e \<noteq> None)"

definition in_flight :: "ledger \<Rightarrow> string \<Rightarrow> MarketEngine \<times> Env \<Rightarrow> bool" where
  "in_flight L cid s \<longleftrightarrow> (\<exists>u ord. u \<noteq> [] \<and> L u = me_market (fst s) \<and> (u = me_buy_uuid (fst s) \<or> u = me_sell_uuid (fst s)) \<and>
     os_get (env_store (snd s)) u = Some ord \<and> o_identifier ord = Some cid)"

definition closing :: "string \<Rightarrow> MarketEngine \<Rightarrow> bool" where
  "closing cid e \<longleftrightarrow> (\<exists>se. StatusEv se \<in> set (me_events e) \<and> es_identifier se = cid \<and> status_done (es_status se))"

definition tracked :: "ledger \<Rightarrow> string \<Rightarrow> MarketEngine \<times> Env \<Rightarrow> bool" where
  "tracked L cid s \<longleftrightarrow> in_flight L cid s \<or> closing cid (fst s)"

definition market_ok :: "ledger \<Rightarrow> string \<Rightarrow> Params \<Rightarrow> mkt \<Rightarrow> bool" where
  "market_ok L m p ms \<longleftrightarrow> orders_ok (snd (fst ms)) \<and> exclusive (fst (fst ms)) \<and> me_market (fst (fst ms)) = m \<and> strat_ok m p (snd ms) \<and>
     (\<forall>cid. st_pending_client_id (snd ms) = Some cid \<longrightarrow> cid \<noteq> [] \<and> tracked L cid (fst ms))"

subsection \<open>Engine operations that leave the orders alone\<close>

definition quiet :: "MarketEngine \<times> Env \<Rightarrow> MarketEngine \<times> Env \<Rightarrow> bool" where
  "quiet s s' \<longleftrightarrow> env_store (snd s') = env_store (snd s) \<and> me_buy_uuid (fst s') = me_buy_uuid (fst s) \<and>
     me_sell_uuid (fst s') = me_sell_uuid (fst s) \<and> (me_buy_token (fst s') = None \<longleftrightarrow> me_buy_token (fst s) = None) \<and>
     set (me_events (fst s)) \<subseteq> set (me_events (fst s')) \<and> me_market (fst s') = me_market (fst s)"

lemma quiet_ok:
  assumes "quiet s s'"
  shows "orders_ok (snd s') \<longleftrightarrow> orders_ok (snd s)" "exclusive (fst s') \<longleftrightarrow> exclusive (fst s)" "in_flight L cid s' \<longleftrightarrow> in_flight L cid s"
    "closing cid (fst s) \<Longrightarrow> closing cid (fst s')" "tracked L cid s \<Longrightarrow> tracked L cid s'"
  using assms by (auto simp: quiet_def orders_ok_def exclusive_def in_flight_def closing_def tracked_def)

lemma quiet_market: "quiet s s' \<Longrightarrow> me_market (fst s') = me_market (fst s)"
  by (simp add: quiet_def)

lemma quiet_mark: "quiet s (setMarkPrice p (fst s), snd s)"
  by (simp add: quiet_def setMarkPrice_def)

lemma quiet_mark_once: "quiet s (snd (markTradeOnce cfg k (fst s)), snd s)"
  by (auto simp: quiet_def markTradeOnce_def split_beta)

lemma quiet_trans: "quiet a b \<Longrightarrow> quiet b c \<Longrightarrow> quiet a c"
  by (auto simp: quiet_def)

lemma quiet_refl [simp]: "quiet s s"
  by (simp add: quiet_def)

lemma quiet_settle: "quiet s (settle_trade t s)"
  by (auto simp: quiet_def settle_trade_def Let_def split_beta split: option.split)

lemma quiet_push: "quiet s (pushEvent ev (fst s), snd s)"
  by (auto simp: quiet_def pushEvent_def)

lemma quiet_trade: "quiet s (onMyTrade cfg t s)"
proof -
  obtain new e1 where m: "markTradeOnce cfg (makeTradeDedupeKey t) (fst s) = (new, e1)"
    by (cases "markTradeOnce cfg (makeTradeDedupeKey t) (fst s)")
  have q: "quiet s (e1, snd s)" using quiet_mark_once [of s cfg "makeTradeDedupeKey t"] m by simp
  have "quiet (e1, snd s) (settle_trade t (case ev of None \<Rightarrow> e1 | Some x \<Rightarrow> pushEvent x e1, snd s))" for ev
    using quiet_settle quiet_trans quiet_push [of "(e1, snd s)"] by (cases ev) (simp, fastforce)
  then show ?thesis using q quiet_trans
    unfolding onMyTrade_def m by (auto split: bool.split option.split)
qed

subsection \<open>Snapshots\<close>

lemma merge_id [simp]: "o_id (merge_snapshot snap ord) = o_id ord" "o_status (merge_snapshot snap ord) = o_status snap"
  by (simp_all add: merge_snapshot_def Let_def)

lemma merge_identifier [simp]: "o_identifier ord = Some i \<Longrightarrow> o_identifier (merge_snapshot snap ord) = Some i"
  by (simp add: merge_snapshot_def Let_def)

lemma close_store [simp]: "env_store (snd (close_order cfg ord s)) = env_store (snd s)"
  by (auto simp: close_order_def finalizeBuyToken_def Let_def split_beta split: option.split)

lemma close_events: "set (me_events (fst s)) \<subseteq> set (me_events (fst (close_order cfg ord s)))"
  by (auto simp: close_order_def finalizeBuyToken_def pushEvent_def Let_def split_beta split: option.split)

lemma close_uuids:
  "u \<noteq> o_id ord \<Longrightarrow> u = me_buy_uuid (fst s) \<Longrightarrow> me_buy_uuid (fst (close_order cfg ord s)) = u"
  "u \<noteq> o_id ord \<Longrightarrow> u = me_sell_uuid (fst s) \<Longrightarrow> me_sell_uuid (fst (close_order cfg ord s)) = u"
  by (auto simp: close_order_def finalizeBuyToken_def pushEvent_def Let_def split_beta split: option.split)

lemma close_closing:
  assumes "o_identifier ord = Some cid" "cid \<noteq> []" "isDone ord"
  shows "closing cid (fst (close_order cfg ord s))"
proof -
  have "\<exists>s2. close_order cfg ord s = (pushEvent (status_event cfg ord s2) (fst s2), snd s2)"
  proof -
    have c: "(case o_identifier ord of None \<Rightarrow> False | Some i \<Rightarrow> i \<noteq> []) = True" using assms(1,2) by simp
    show ?thesis unfolding close_order_def Let_def c if_True by (intro exI) (rule refl)
  qed
  then obtain s2 where "fst (close_order cfg ord s) = pushEvent (status_event cfg ord s2) (fst s2)" by fastforce
  then have "status_event cfg ord s2 \<in> set (me_events (fst (close_order cfg ord s)))" by (simp add: pushEvent_def)
  then show ?thesis unfolding closing_def status_event_def using assms by (fastforce simp: isDone_def)
qed

lemma close_market [simp]: "me_market (fst (close_order cfg ord s)) = me_market (fst s)"
  by (auto simp: close_order_def finalizeBuyToken_def pushEvent_def Let_def split_beta split: option.split)

lemma snapshot_market [simp]: "me_market (fst (onOrderSnapshot cfg snap s)) = me_market (fst s)"
  by (auto simp: onOrderSnapshot_def Let_def split_beta split: option.split)

lemma close_exclusive: "exclusive (fst s) \<Longrightarrow> exclusive (fst (close_order cfg ord s))"
  by (auto simp: close_order_def finalizeBuyToken_def pushEvent_def exclusive_def Let_def split_beta split: option.split)

lemma snapshot_cases:
  assumes "orders_ok (snd s)"
  obtains "onOrderSnapshot cfg snap s = s"
  | old where "os_get (env_store (snd s)) (o_id snap) = Some old" "\<not> isDone snap"
      "onOrderSnapshot cfg snap s =
         (fst s, snd s \<lparr> env_store := snd (os_update (merge_snapshot snap old) (env_store (snd s))) \<rparr>)"
  | old s2 where "os_get (env_store (snd s)) (o_id snap) = Some old" "isDone snap"
      "s2 = close_order cfg (merge_snapshot snap old)
         (fst s, snd s \<lparr> env_store := snd (os_update (merge_snapshot snap old) (env_store (snd s))) \<rparr>)"
      "onOrderSnapshot cfg snap s = (fst s2, snd s2 \<lparr> env_store := snd (os_erase (o_id snap) (env_store (snd s2))) \<rparr>)"
proof (cases "onOrderSnapshot cfg snap s = s")
  case False
  then obtain old where old: "os_get (env_store (snd s)) (o_id snap) = Some old"
    "\<not> (o_market snap \<noteq> [] \<and> o_market snap \<noteq> me_market (fst s))"
    by (auto simp: onOrderSnapshot_def split: option.splits if_splits)
  then have id: "o_id old = o_id snap" and "isOpen old" using assms store_ok_get by (auto simp: orders_ok_def)
  then have st: "isDone snap \<Longrightarrow> o_status snap \<noteq> o_status old" using isOpen_not_isDone [of old] by (auto simp: isDone_def)
  obtain upd store1 where u: "os_update (merge_snapshot snap old) (env_store (snd s)) = (upd, store1)"
    by (cases "os_update (merge_snapshot snap old) (env_store (snd s))")
  have "upd" using os_update_success [of "merge_snapshot snap old" "env_store (snd s)"] old(1) id u by simp
  then show ?thesis
    using that(2) [OF old(1)] that(3) [OF old(1)] old u st id
    by (cases "isDone snap") (auto simp: onOrderSnapshot_def isDone_def Let_def)
qed (rule that(1))

lemma snapshot_tracked:
  assumes "orders_ok (snd s)" "cid \<noteq> []" "tracked L cid s"
  shows "tracked L cid (onOrderSnapshot cfg snap s)"
  using assms(1)
proof (cases rule: snapshot_cases [of s cfg snap])
  case 1
  then show ?thesis using assms(3) by simp
next
  case (2 old)
  then have id: "o_id old = o_id snap" using assms(1) store_ok_get by (auto simp: orders_ok_def)
  have "in_flight L cid (onOrderSnapshot cfg snap s)" if "in_flight L cid s"
  proof -
    from that obtain u ord where u: "u \<noteq> []" "L u = me_market (fst s)" "u = me_buy_uuid (fst s) \<or> u = me_sell_uuid (fst s)"
      "os_get (env_store (snd s)) u = Some ord" "o_identifier ord = Some cid" by (auto simp: in_flight_def)
    then show ?thesis unfolding in_flight_def 2(3)
      by (intro exI [of _ u] exI [of _ "if u = o_id snap then merge_snapshot snap old else ord"]) (use 2(1) id in auto)
  qed
  moreover have "fst (onOrderSnapshot cfg snap s) = fst s" by (simp add: 2(3))
  ultimately show ?thesis using assms(3) by (auto simp: tracked_def)
next
  case (3 old s2)
  then have id: "o_id old = o_id snap" using assms(1) store_ok_get by (auto simp: orders_ok_def)
  let ?s1 = "(fst s, snd s \<lparr> env_store := snd (os_update (merge_snapshot snap old) (env_store (snd s))) \<rparr>)"
  have c: "closing cid (fst s) \<Longrightarrow> closing cid (fst s2)"
    using close_events [of ?s1 cfg "merge_snapshot snap old"] 3(3) by (auto simp: closing_def)
  have "tracked L cid (fst s2, snd s2 \<lparr> env_store := snd (os_erase (o_id snap) (env_store (snd s2))) \<rparr>)" if "in_flight L cid s"
  proof -
    from that obtain u ord where u: "u \<noteq> []" "L u = me_market (fst s)" "u = me_buy_uuid (fst s) \<or> u = me_sell_uuid (fst s)"
      "os_get (env_store (snd s)) u = Some ord" "o_identifier ord = Some cid" by (auto simp: in_flight_def)
    show ?thesis
    proof (cases "u = o_id snap")
      case True
      then have "closing cid (fst s2)" unfolding 3(3)
        using u 3(1,2) assms(2) by (intro close_closing) (auto simp: isDone_def)
      then show ?thesis by (simp add: tracked_def)
    next
      case False
      then have "u = me_buy_uuid (fst s2) \<or> u = me_sell_uuid (fst s2)"
        using u(3) close_uuids [of u "merge_snapshot snap old" ?s1 cfg] id 3(3) by auto
      then show ?thesis using u False 3(3) id by (auto simp: tracked_def in_flight_def)
    qed
  qed
  then show ?thesis using assms(3) c 3(4) by (auto simp: tracked_def)
qed

lemma snapshot_orders_ok:
  assumes "orders_ok (snd s)" "exclusive (fst s)"
  shows "orders_ok (snd (onOrderSnapshot cfg snap s)) \<and> exclusive (fst (onOrderSnapshot cfg snap s))"
  using assms(1)
proof (cases rule: snapshot_cases [of s cfg snap])
  case (2 old)
  have "isOpen (merge_snapshot snap old)" using 2(2) isOpen_not_isDone by (auto simp: isDone_def)
  then show ?thesis using assms 2 by (auto simp: orders_ok_def split: if_splits)
next
  case (3 old s2)
  then have id: "o_id old = o_id snap" using assms(1) store_ok_get by (auto simp: orders_ok_def)
  show ?thesis using assms 3 id close_exclusive by (auto simp: orders_ok_def split: if_splits)
qed (use assms in simp)

subsection \<open>Reconciliation and submission\<close>

lemma reconcile_result:
  obtains "reconcileFromSnapshot cfg snap s = (False, s)"
  | s0 where "quiet s s0" "reconcileFromSnapshot cfg snap s = (True, onOrderSnapshot cfg snap s0)"
proof -
  define Q where "Q r \<longleftrightarrow> r = (False, s) \<or> (\<exists>s0. quiet s s0 \<and> r = (True, onOrderSnapshot cfg snap s0))" for r
  have q: "Q (False, s)" "\<And>s0. quiet s s0 \<Longrightarrow> Q (True, onOrderSnapshot cfg snap s0)" by (auto simp: Q_def)
  have "Q (reconcileFromSnapshot cfg snap s)"
    unfolding reconcileFromSnapshot_def Let_def
    by (auto split: option.split prod.split intro!: q) (auto simp: quiet_def)
  then show ?thesis using that unfolding Q_def by blast
qed

lemma reconcile_market [simp]: "me_market (fst (snd (reconcileFromSnapshot cfg snap s))) = me_market (fst s)"
  by (rule reconcile_result [of cfg snap s]) (use quiet_market in auto)

lemma reconcile_tracked:
  assumes "orders_ok (snd s)" "cid \<noteq> []" "tracked L cid s"
  shows "tracked L cid (snd (reconcileFromSnapshot cfg snap s))"
  by (rule reconcile_result [of cfg snap s]) (use assms quiet_ok snapshot_tracked in auto)

lemma reconcile_orders_ok:
  assumes "orders_ok (snd s)" "exclusive (fst s)"
  shows "orders_ok (snd (snd (reconcileFromSnapshot cfg snap s))) \<and> exclusive (fst (snd (reconcileFromSnapshot cfg snap s)))"
  by (rule reconcile_result [of cfg snap s]) (use assms quiet_ok snapshot_orders_ok in auto)

lemma input_ok:
  assumes "is_input L inp" "orders_ok (snd s)" "exclusive (fst s)"
  shows "orders_ok (snd (engine_step cfg inp s)) \<and> exclusive (fst (engine_step cfg inp s)) \<and>
     me_market (fst (engine_step cfg inp s)) = me_market (fst s) \<and>
     (cid \<noteq> [] \<and> tracked L cid s \<longrightarrow> tracked L cid (engine_step cfg inp s))"
  using assms quiet_ok [OF quiet_trade] quiet_ok [OF quiet_mark] snapshot_orders_ok snapshot_tracked
    reconcile_orders_ok reconcile_tracked quiet_market [OF quiet_trade] quiet_market [OF quiet_mark]
  by (cases inp) auto

lemma reserve_market [simp]: "me_market (fst (snd (submit_reserve cfg req s))) = me_market (fst s)"
  by (auto simp: submit_reserve_def Let_def emplace_token_def token_move_def split: prod.split option.split)

lemma finish_market [simp]: "me_market (fst (snd (submit_finish req answer s))) = me_market (fst s)"
  by (auto simp: submit_finish_def Let_def split_beta split: sum.split option.split)

lemma submit_market [simp]: "me_market (fst (snd (submit cfg post req s))) = me_market (fst s)"
proof -
  obtain r s1 where r: "submit_reserve cfg req s = (r, s1)" by (cases "submit_reserve cfg req s")
  then have "me_market (fst s1) = me_market (fst s)" using reserve_market [of cfg req s] by simp
  then show ?thesis using r by (auto simp: submit_def split: option.split)
qed

lemma reserve_exclusive:
  "exclusive (fst s) \<Longrightarrow> exclusive (fst (snd (submit_reserve cfg req s)))"
  by (auto simp: submit_reserve_def Let_def emplace_token_def token_move_def exclusive_def split: prod.split option.split)

lemma result_success [simp]: "er_success (Success ord)" "\<not> er_success (Fail c msg)"
  by (simp_all add: Success_def Fail_def)

lemma reserve_failure: "fst (submit_reserve cfg req s) = Some r \<Longrightarrow> \<not> er_success r"
  by (auto simp: submit_reserve_def Let_def split: prod.splits option.splits if_splits)

lemma submitted_fields [simp]:
  "o_id (submitted_order req u) = u" "isOpen (submitted_order req u)"
  "rq_identifier req \<noteq> [] \<Longrightarrow> o_identifier (submitted_order req u) = Some (rq_identifier req)"
  by (simp_all add: submitted_order_def isOpen_def status_open_def)

lemma orders_ok_upsert:
  assumes "orders_ok env" "isOpen ord" "env_store env' = os_upsert ord (env_store env)"
  shows "orders_ok env'"
proof (cases "o_id ord = []")
  case True
  then show ?thesis using assms by (simp add: orders_ok_def os_upsert_def)
qed (use assms in \<open>auto simp: orders_ok_def split: if_splits\<close>)

lemma finish_effect:
  assumes "exclusive (fst s)" "orders_ok (snd s)" "honest_answer L req answer" "rq_market req = me_market (fst s)"
    "rq_position req = BID \<Longrightarrow> me_buy_token (fst s) \<noteq> None" "rq_position req = ASK \<Longrightarrow> me_buy_token (fst s) = None"
    "me_sell_uuid (fst s) = []"
  shows "orders_ok (snd (snd (submit_finish req answer s))) \<and> exclusive (fst (snd (submit_finish req answer s))) \<and>
     (er_success (fst (submit_finish req answer s)) \<and> rq_identifier req \<noteq> [] \<longrightarrow>
        in_flight L (rq_identifier req) (snd (submit_finish req answer s)))"
proof (cases answer)
  case (Inl msg)
  then show ?thesis using assms
    by (auto simp: submit_finish_def Let_def split_beta exclusive_def orders_ok_def split: option.split)
next
  case (Inr u)
  then have u: "u \<noteq> []" "L u = me_market (fst s)" using assms(3,4) by simp_all
  have o: "orders_ok (snd (snd (submit_finish req answer s)))"
    using assms(2) by (rule orders_ok_upsert [of _ "submitted_order req u"]) (simp_all add: Inr submit_finish_def Let_def)
  have "in_flight L (rq_identifier req) (snd (submit_finish req answer s))" if "rq_identifier req \<noteq> []"
    unfolding in_flight_def using that u
    by (intro exI [of _ u] exI [of _ "submitted_order req u"]) (cases "rq_position req"; simp add: Inr submit_finish_def Let_def)
  moreover have "exclusive (fst (snd (submit_finish req answer s)))"
    using assms u by (cases "rq_position req") (auto simp: Inr submit_finish_def Let_def exclusive_def)
  ultimately show ?thesis using o by blast
qed

lemma submit_effect:
  assumes "exclusive (fst s)" "orders_ok (snd s)" "honest_answer L req (post req)" "submit cfg post req s = (r, s')"
  shows "orders_ok (snd s') \<and> exclusive (fst s') \<and>
     (er_success r \<and> rq_identifier req \<noteq> [] \<longrightarrow> in_flight L (rq_identifier req) s')"
proof -
  obtain res s1 where rs: "submit_reserve cfg req s = (res, s1)" by (cases "submit_reserve cfg req s")
  have s1: "exclusive (fst s1)" "orders_ok (snd s1)"
    using reserve_exclusive [OF assms(1), of cfg req] assms(2) submit_reserve_store [of cfg req s] rs
    by (auto simp: orders_ok_def)
  show ?thesis
  proof (cases "validateRequest req = None \<and> rq_market req = me_market (fst s)")
    case True
    then show ?thesis
    proof (cases res)
      case None
      then have "submit_finish req (post req) s1 = (r, s')" using True rs assms(4) by (simp add: submit_def)
      moreover have p: "rq_position req = BID \<Longrightarrow> me_buy_token (fst s1) \<noteq> None" "rq_position req = ASK \<Longrightarrow> me_buy_token (fst s1) = None"
        "me_sell_uuid (fst s1) = []"
        using submit_reserve_proceeds [of cfg req s] None rs by simp_all
      moreover have "rq_market req = me_market (fst s1)" using True rs reserve_market [of cfg req s] by simp
      ultimately show ?thesis using finish_effect [where req = req, OF s1 assms(3) _ p] by simp
    next
      case (Some f)
      then show ?thesis using True rs assms(4) s1 reserve_failure [of cfg req s f] by (auto simp: submit_def)
    qed
  next
    case False
    then show ?thesis using assms by (auto simp: submit_def split: option.splits)
  qed
qed

subsection \<open>What the strategy waits for\<close>

lemma fill_pending [simp]: "st_pending_client_id (onFill f s) = st_pending_client_id s"
  by (simp add: onFill_def Let_def)

lemma update_pending:
  "st_pending_client_id (snd (onOrderUpdate now ev s)) =
     (if st_pending_client_id s = Some (ou_identifier ev) \<and> status_done (ou_status ev) then None else st_pending_client_id s)"
  by (auto simp: onOrderUpdate_def clearPendingState_def Let_def split: option.split)

lemma failed_pending [simp]: "st_pending_client_id (onSubmitFailed s) = None"
  by (simp add: onSubmitFailed_def clearPendingState_def)

lemma watch_pending:
  "dn_order (fst (onCandle cfg uuid c a s)) = None \<Longrightarrow> st_pending_client_id (snd (onCandle cfg uuid c a s)) = st_pending_client_id s"
  "dn_order (fst (onIntrabarCandle cfg uuid close a s)) = None \<Longrightarrow> onIntrabarCandle cfg uuid close a s = (noAction, s)"
proof -
  assume n: "dn_order (fst (onCandle cfg uuid c a s)) = None"
  show "st_pending_client_id (snd (onCandle cfg uuid c a s)) = st_pending_client_id s"
  proof (cases "accepts c s")
    case True
    let ?t = "candle_state cfg c a s"
    show ?thesis
    proof (cases "st_state ?t")
      case Flat
      then have on: "onCandle cfg uuid c a s = maybeEnter cfg uuid (candle_sn c s) a ?t" using candle_decided [OF True] by simp
      show ?thesis using n unfolding on
        by (rule_tac enter_result [of cfg uuid "candle_sn c s" a ?t]) (auto simp: on [symmetric])
    next
      case InPosition
      then have on: "onCandle cfg uuid c a s = maybeExit cfg uuid (candle_sn c s) a ?t" using candle_decided [OF True] by simp
      show ?thesis using n unfolding on
        by (rule_tac exit_result [of cfg uuid "candle_sn c s" a ?t]) (auto simp: on [symmetric])
    qed (use candle_decided [OF True] in simp_all)
  qed (simp add: candle_skipped)
next
  show "dn_order (fst (onIntrabarCandle cfg uuid close a s)) = None \<Longrightarrow> onIntrabarCandle cfg uuid close a s = (noAction, s)"
    by (rule intrabar_result [of cfg uuid close a s]) auto
qed

definition closes :: "string \<Rightarrow> EngineEvent \<Rightarrow> bool" where
  "closes cid ev \<longleftrightarrow> (\<exists>se. ev = StatusEv se \<and> es_identifier se = cid \<and> status_done (es_status se))"

lemma closing_iff: "closing cid e \<longleftrightarrow> (\<exists>ev \<in> set (me_events e). closes cid ev)"
  by (auto simp: closing_def closes_def)

lemma told_pending:
  "st_pending_client_id (snd (strat_step cfg (told now ev) st)) =
     (if (\<exists>cid. st_pending_client_id st = Some cid \<and> closes cid ev) then None else st_pending_client_id st)"
  by (cases ev) (auto simp: update_pending closes_def)

lemma deliver_pending:
  "st_pending_client_id (fold (\<lambda>ev st. snd (strat_step cfg (told now ev) st)) evs st) =
     (if (\<exists>cid. st_pending_client_id st = Some cid \<and> (\<exists>ev \<in> set evs. closes cid ev)) then None else st_pending_client_id st)"
proof (induction evs arbitrary: st)
  case (Cons ev evs)
  define st1 where "st1 = snd (strat_step cfg (told now ev) st)"
  have f: "fold (\<lambda>ev st. snd (strat_step cfg (told now ev) st)) (ev # evs) st =
      fold (\<lambda>ev st. snd (strat_step cfg (told now ev) st)) evs st1" by (simp add: st1_def)
  have 1: "st_pending_client_id st1 = (if (\<exists>cid. st_pending_client_id st = Some cid \<and> closes cid ev) then None else st_pending_client_id st)"
    unfolding st1_def by (rule told_pending)
  show ?case
  proof (cases "st_pending_client_id st")
    case None
    then have "st_pending_client_id st1 = None" using 1 by simp
    then show ?thesis unfolding f Cons.IH using None by simp
  next
    case (Some cid)
    then have "st_pending_client_id st1 = (if closes cid ev then None else Some cid)" using 1 by simp
    then show ?thesis unfolding f Cons.IH using Some by (cases "closes cid ev") simp_all
  qed
qed simp

lemma deliver_ok: "strat_ok m p st \<Longrightarrow> strat_ok m p (fold (\<lambda>ev st. snd (strat_step cfg (told now ev) st)) evs st)"
  by (induction evs arbitrary: st) (auto intro: ok_step)

lemma told_account_cases:
  assumes "told_account i = Some a"
  obtains uuid c where "i = InCandle uuid c a" | uuid close where "i = InIntrabar uuid close a"
  using assms by (cases i) auto

lemma price_order:
  assumes "told_account i = Some a" "strat_step cfg i st = ([OutOrder req], st')"
  shows "rq_identifier req \<noteq> [] \<and> rq_market req = st_market st \<and> st_pending_client_id st' = Some (rq_identifier req)"
proof -
  show ?thesis using assms(1)
  proof (cases rule: told_account_cases)
    case (1 uuid c)
    then have "dn_order (fst (onCandle cfg uuid c a st)) = Some req" "st' = snd (onCandle cfg uuid c a st)"
      using assms(2) by (auto simp: order_out_def split: option.splits)
    then show ?thesis using candle_order [of cfg uuid c a st req] by (metis next_id_nonempty)
  next
    case (2 uuid close)
    then have "dn_order (fst (onIntrabarCandle cfg uuid close a st)) = Some req" "st' = snd (onIntrabarCandle cfg uuid close a st)"
      using assms(2) by (auto simp: order_out_def split: option.splits)
    then show ?thesis using intrabar_order [of cfg uuid close a st req] by (metis next_id_nonempty)
  qed
qed

lemma price_watch:
  assumes "told_account i = Some a" "strat_step cfg i st = ([], st')"
  shows "st_pending_client_id st' = st_pending_client_id st"
  using assms(1)
proof (cases rule: told_account_cases)
  case (1 uuid c)
  then have "dn_order (fst (onCandle cfg uuid c a st)) = None" "st' = snd (onCandle cfg uuid c a st)"
    using assms(2) by (auto simp: order_out_def split: option.splits)
  then show ?thesis using watch_pending(1) by simp
next
  case (2 uuid close)
  then have "dn_order (fst (onIntrabarCandle cfg uuid close a st)) = None" "st' = snd (onIntrabarCandle cfg uuid close a st)"
    using assms(2) by (auto simp: order_out_def split: option.splits)
  then show ?thesis using watch_pending(2) [of cfg uuid close a st] by simp
qed

subsection \<open>Every transition keeps the invariant\<close>

lemma step_strat_ok: "strat_ok m p st \<Longrightarrow> strat_step cfg i st = (outs, st') \<Longrightarrow> strat_ok m p st'"
  using ok_step [of m p st cfg i] by simp

lemma submit_keeps_market: "submit cfg post req s = (r, s') \<Longrightarrow> me_market (fst s') = me_market (fst s)"
  using submit_market [of cfg post req s] by simp

lemma market_step_ok:
  assumes "market_step cfg L m ms ms'" "market_ok L m p ms"
  shows "market_ok L m p ms'"
  using assms
proof (induction rule: market_step.induct)
  case (ms_input inp s st)
  then show ?case using input_ok [of L inp s] by (auto simp: market_ok_def)
next
  case (ms_watch i s st st')
  then show ?case using price_watch [of i _ cfg st st'] step_strat_ok [of m p st cfg i] by (auto simp: market_ok_def)
next
  case (ms_order i s st req st' post r s')
  have e: "orders_ok (snd s') \<and> exclusive (fst s') \<and> (er_success r \<and> rq_identifier req \<noteq> [] \<longrightarrow> in_flight L (rq_identifier req) s')"
    using submit_effect [OF _ _ ms_order.hyps(3,4)] ms_order.prems by (simp add: market_ok_def)
  have "strat_ok m p st'" using ms_order.hyps(2) ms_order.prems step_strat_ok by (auto simp: market_ok_def)
  moreover have "me_market (fst s') = m"
    using submit_keeps_market [OF ms_order.hyps(4)] ms_order.prems by (simp add: market_ok_def)
  ultimately show ?case using e price_order [OF ms_order.hyps(1,2)] ok_failed [of m p st']
    by (auto simp: market_ok_def tracked_def)
next
  case (ms_deliver s st now)
  have "in_flight L cid (engine_step cfg InPoll s) \<longleftrightarrow> in_flight L cid s" for cid by (simp add: in_flight_def pollEvents_def)
  moreover have "orders_ok (snd (engine_step cfg InPoll s)) \<and> exclusive (fst (engine_step cfg InPoll s)) \<and>
      me_market (fst (engine_step cfg InPoll s)) = m"
    using ms_deliver by (simp add: market_ok_def exclusive_def pollEvents_def)
  ultimately show ?case using ms_deliver deliver_ok [of m p st cfg now "me_events (fst s)"]
    by (auto simp: market_ok_def deliver_pending tracked_def closing_iff split: if_splits)
qed

lemma market_steps_ok: "market_steps cfg L m ms ms' \<Longrightarrow> market_ok L m p ms \<Longrightarrow> market_ok L m p ms'"
  by (induction rule: rtranclp_induct) (auto intro: market_step_ok)

subsection \<open>Every transition leaves the orders of other markets alone\<close>

definition foreign_kept :: "ledger \<Rightarrow> string \<Rightarrow> Env \<Rightarrow> Env \<Rightarrow> bool" where
  "foreign_kept L m env env' \<longleftrightarrow> (\<forall>u. L u \<noteq> m \<longrightarrow> os_get (env_store env') u = os_get (env_store env) u)"

lemma foreign_refl [simp]: "foreign_kept L m env env"
  by (simp add: foreign_kept_def)

lemma foreign_trans: "foreign_kept L m a b \<Longrightarrow> foreign_kept L m b c \<Longrightarrow> foreign_kept L m a c"
  by (simp add: foreign_kept_def)

lemma foreign_store: "env_store env' = env_store env \<Longrightarrow> foreign_kept L m env env'"
  by (simp add: foreign_kept_def)

lemma foreign_quiet: "quiet s s' \<Longrightarrow> foreign_kept L m (snd s) (snd s')"
  by (simp add: quiet_def foreign_store)

lemma foreign_snapshot:
  assumes "orders_ok (snd s)" "honest_order L snap" "me_market (fst s) = m"
  shows "foreign_kept L m (snd s) (snd (onOrderSnapshot cfg snap s))"
proof (cases "o_market snap = m")
  case True
  then have L: "L (o_id snap) = m" using assms(2) by (simp add: honest_order_def)
  show ?thesis using assms(1)
  proof (cases rule: snapshot_cases [of s cfg snap])
    case (2 old)
    then have "o_id old = o_id snap" using assms(1) store_ok_get by (auto simp: orders_ok_def)
    then show ?thesis using 2 L by (auto simp: foreign_kept_def)
  next
    case (3 old s2)
    then have "o_id old = o_id snap" using assms(1) store_ok_get by (auto simp: orders_ok_def)
    then show ?thesis using 3 L by (auto simp: foreign_kept_def)
  qed simp
next
  case False
  then have "onOrderSnapshot cfg snap s = s" using assms(2,3) by (auto simp: onOrderSnapshot_def honest_order_def)
  then show ?thesis by simp
qed

lemma foreign_submit:
  assumes "honest_answer L req (post req)" "me_market (fst s) = m" "submit cfg post req s = (r, s')"
  shows "foreign_kept L m (snd s) (snd s')"
proof -
  obtain res s1 where rs: "submit_reserve cfg req s = (res, s1)" by (cases "submit_reserve cfg req s")
  have s1: "env_store (snd s1) = env_store (snd s)" using submit_reserve_store [of cfg req s] rs by simp
  have "foreign_kept L m (snd s1) (snd (snd (submit_finish req (post req) s1)))" if "rq_market req = m"
  proof (cases "post req")
    case (Inr u)
    then show ?thesis using assms(1) that by (auto simp: foreign_kept_def submit_finish_def Let_def)
  qed (auto intro!: foreign_store simp: submit_finish_def Let_def split_beta split: option.split)
  then show ?thesis using assms(2,3) rs s1 foreign_trans [OF foreign_store [OF s1]] foreign_store [OF s1]
    by (auto simp: submit_def split: option.splits if_splits)
qed

lemma foreign_input:
  assumes "is_input L inp" "orders_ok (snd s)" "me_market (fst s) = m"
  shows "foreign_kept L m (snd s) (snd (engine_step cfg inp s))"
proof (cases inp)
  case (InReconcile ord)
  show ?thesis
  proof (rule reconcile_result [of cfg ord s])
    fix s0
    assume q: "quiet s s0" and r: "reconcileFromSnapshot cfg ord s = (True, onOrderSnapshot cfg ord s0)"
    have "foreign_kept L m (snd s0) (snd (onOrderSnapshot cfg ord s0))"
      using assms InReconcile quiet_ok(1) [OF q] quiet_market [OF q] by (intro foreign_snapshot) simp_all
    then show ?thesis using InReconcile r foreign_trans [OF foreign_quiet [OF q]] by simp
  qed (use InReconcile in simp)
qed (use assms foreign_snapshot foreign_quiet [OF quiet_trade] in simp_all)

lemma market_step_foreign:
  assumes "market_step cfg L m ms ms'" "orders_ok (snd (fst ms))" "me_market (fst (fst ms)) = m"
  shows "foreign_kept L m (snd (fst ms)) (snd (fst ms'))"
  using assms
proof (induction rule: market_step.induct)
  case (ms_order i s st req st' post r s')
  then show ?case using foreign_submit [where post = post] by simp
qed (simp_all add: foreign_input)

lemma market_steps_foreign:
  "market_steps cfg L m ms ms' \<Longrightarrow> market_ok L m p ms \<Longrightarrow> foreign_kept L m (snd (fst ms)) (snd (fst ms'))"
proof (induction rule: rtranclp_induct)
  case (step y z)
  have y: "market_ok L m p y" by (rule market_steps_ok [OF step.hyps(1) step.prems])
  then have "foreign_kept L m (snd (fst y)) (snd (fst z))"
    using market_step_foreign [OF step.hyps(2)] by (simp add: market_ok_def)
  then show ?case using foreign_trans step by blast
qed simp

text \<open>So the invariant of a market survives what the other markets do.\<close>

lemma market_ok_foreign:
  assumes "market_ok L m p ((e, env), st)" "foreign_kept L m' env env'" "m' \<noteq> m" "orders_ok env'"
  shows "market_ok L m p ((e, env'), st)"
proof -
  have "in_flight L cid (e, env')" if f: "in_flight L cid (e, env)" for cid
  proof -
    from f obtain u ord where u: "u \<noteq> []" "L u = me_market e" "u = me_buy_uuid e \<or> u = me_sell_uuid e"
      "os_get (env_store env) u = Some ord" "o_identifier ord = Some cid" by (auto simp: in_flight_def)
    then have "os_get (env_store env') u = Some ord" using assms by (auto simp: market_ok_def foreign_kept_def)
    then show ?thesis using u unfolding in_flight_def by auto
  qed
  then show ?thesis using assms by (auto simp: market_ok_def tracked_def)
qed

end
