(* ===== verification/WorkerRefinement.thy ===== *)
theory WorkerRefinement
  imports WorkerMachine
begin

text \<open>
  Every iteration of a worker is a sequence of transitions of the abstract market machine, so what holds of the machine
  holds of the worker: the states a worker can reach, their invariant, and what recovery and the pending timeout do.
\<close>

section \<open>The abstraction\<close>

definition absw :: "Worker \<Rightarrow> mkt" where
  "absw w = (eng w, strat w)"

text \<open>What a handler never changes of its context.\<close>

definition same_frame :: "MarketContext \<Rightarrow> MarketContext \<Rightarrow> bool" where
  "same_frame c c' \<longleftrightarrow> cx_market c' = cx_market c \<and> cx_event_queue c' = cx_event_queue c \<and> cx_worker c' = cx_worker c \<and>
     cx_exited_abnormally c' = cx_exited_abnormally c"

definition refines :: "ledger \<Rightarrow> Setup \<Rightarrow> Worker \<Rightarrow> Worker \<Rightarrow> bool" where
  "refines L su w w' \<longleftrightarrow> market_steps (su_cfg su) L (cx_market (wk_ctx w)) (absw w) (absw w') \<and>
     same_frame (wk_ctx w) (wk_ctx w')"

text \<open>What is assumed of the exchange during an iteration: honest answers and honest messages.\<close>

fun honest_message :: "ledger \<Rightarrow> Setup \<Rightarrow> EngineInput \<Rightarrow> bool" where
  "honest_message L su (MyOrderRaw json) =
     (\<forall>ord. OrderEv ord \<in> set (parseMyOrder (su_read_order su) (su_cfg su) json) \<longrightarrow> honest_order L ord)"
| "honest_message L su _ = True"

definition io_ok :: "ledger \<Rightarrow> Setup \<Rightarrow> Outside \<Rightarrow> bool" where
  "io_ok L su io \<longleftrightarrow>
     (\<forall>req u. io_postOrder io req = Inr u \<longrightarrow> u \<noteq> [] \<and> L u = rq_market req) \<and>
     (\<forall>k u i ord. io_getOrder io k u i = Inr ord \<longrightarrow> honest_order L ord) \<and>
     (\<forall>msg \<in> set (io_arrived io). honest_message L su msg)"

definition queue_ok :: "ledger \<Rightarrow> Setup \<Rightarrow> Worker \<Rightarrow> bool" where
  "queue_ok L su w \<longleftrightarrow> (\<forall>msg \<in> set (bq_q (cx_event_queue (wk_ctx w))). honest_message L su msg) \<and>
     bq_ok (cx_event_queue (wk_ctx w)) \<and> bq_max_size (cx_event_queue (wk_ctx w)) = mc_queue_capacity (su_manager su)"

lemma frame_refl [simp]: "same_frame c c"
  by (simp add: same_frame_def)

lemma frame_trans: "same_frame a b \<Longrightarrow> same_frame b c \<Longrightarrow> same_frame a c"
  by (simp add: same_frame_def)

lemma frame_market: "same_frame c c' \<Longrightarrow> cx_market c' = cx_market c"
  by (simp add: same_frame_def)

lemma refines_refl [simp]: "refines L su w w"
  by (simp add: refines_def)

lemma refines_trans: "refines L su a b \<Longrightarrow> refines L su b c \<Longrightarrow> refines L su a c"
  using frame_trans frame_market by (fastforce simp: refines_def)

lemma refines_one:
  "market_step (su_cfg su) L (cx_market (wk_ctx w)) (absw w) (absw w') \<Longrightarrow> same_frame (wk_ctx w) (wk_ctx w') \<Longrightarrow> refines L su w w'"
  by (auto simp: refines_def)

lemma abs_simps [simp]:
  "absw (set_eng s w) = (s, strat w)" "absw (set_strat st w) = (eng w, st)" "absw (db_write su ws w) = absw w"
  "eng (set_eng s w) = s" "eng (set_strat st w) = eng w" "eng (db_write su ws w) = eng w"
  "strat (set_eng s w) = strat w" "strat (set_strat st w) = st" "strat (db_write su ws w) = strat w"
  "wk_ctx (db_write su ws w) = wk_ctx w" "wk_env (set_eng s w) = snd s" "wk_env (db_write su ws w) = wk_env w"
  "wk_env (set_strat st w) = wk_env w" "cx_market (wk_ctx (set_eng s w)) = cx_market (wk_ctx w)"
  "cx_market (wk_ctx (set_strat st w)) = cx_market (wk_ctx w)"
  "cx_pending_candle (wk_ctx (set_eng s w)) = cx_pending_candle (wk_ctx w)"
  by (simp_all add: absw_def set_eng_def set_strat_def upd_ctx_def db_write_def eng_def strat_def)

lemma frame_simps [simp]:
  "same_frame c (wk_ctx (set_eng s w)) \<longleftrightarrow> same_frame c (wk_ctx w)"
  "same_frame c (wk_ctx (set_strat st w)) \<longleftrightarrow> same_frame c (wk_ctx w)"
  by (simp_all add: same_frame_def set_eng_def set_strat_def upd_ctx_def)

lemma upd_refines:
  "(\<And>c. cx_engine (f c) = cx_engine c \<and> cx_strategy (f c) = cx_strategy c \<and> same_frame c (f c)) \<Longrightarrow>
   refines L su w (upd_ctx f w)"
  by (simp add: refines_def absw_def upd_ctx_def eng_def strat_def)

lemma db_refines [simp]: "refines L su w (db_write su' ws w)"
  by (simp add: refines_def)

lemma input_refines: "is_input L inp \<Longrightarrow> refines L su w (set_eng (engine_step (su_cfg su) inp (eng w)) w)"
  by (rule refines_one) (auto simp: absw_def intro: ms_input)

lemmas engine_refines =
  input_refines [of L "InTrade t" for L t, simplified] input_refines [of L "InSnapshot ord" for L ord, simplified]
  input_refines [of L "InReconcile ord" for L ord, simplified] input_refines [of L "InMark p" for L p, simplified]

section \<open>The handlers\<close>

lemma order_event_refines:
  assumes "\<And>ord. ev = OrderEv ord \<Longrightarrow> honest_order L ord"
  shows "refines L su w (handle_order_event su has_trade ev w)"
proof (cases ev)
  case (OrderEv ord)
  obtain ok s where r: "reconcileFromSnapshot (su_cfg su) ord (eng w) = (ok, s)"
    by (cases "reconcileFromSnapshot (su_cfg su) ord (eng w)")
  have h: "honest_order L ord" using assms OrderEv by simp
  have 1: "refines L su w (set_eng s w)" using engine_refines(3) [OF h, of su w] r by simp
  have 2: "refines L su w (upd_ctx (\<lambda>c. c \<lparr> cx_recovery_requested := True \<rparr>) (set_eng s w))"
    by (rule refines_trans [OF 1 upd_refines]) (simp add: same_frame_def)
  note 3 = engine_refines(2) [OF h, of su w]
  show ?thesis using OrderEv r 1 2 3 refines_trans [OF _ db_refines] by (simp add: Let_def)
qed (use engine_refines(1) in simp)

lemma fold_refines: "(\<And>x w. x \<in> set xs \<Longrightarrow> refines L su w (f x w)) \<Longrightarrow> refines L su w (fold f xs w)"
proof (induction xs arbitrary: w)
  case (Cons x xs)
  have "refines L su w (f x w)" by (rule Cons.prems) simp
  moreover have "refines L su (f x w) (fold f xs (f x w))" by (rule Cons.IH) (simp add: Cons.prems)
  ultimately show ?case using refines_trans by simp
qed simp

lemma my_order_refines: "honest_message L su (MyOrderRaw json) \<Longrightarrow> refines L su w (handleMyOrder su json w)"
  by (auto simp: handleMyOrder_def Let_def intro!: fold_refines order_event_refines)

lemma post_answer_ok: "io_ok L su io \<Longrightarrow> honest_answer L req (post_answer (io_postOrder io) req)"
  by (auto simp: io_ok_def post_answer_def split: sum.splits)

text \<open>A decision and what is done with it; \<open>f\<close> is what the caller adds after a failed submission.\<close>

lemma decision_refines:
  assumes "io_ok L su io" "told_account i = Some (buildAccountSnapshot (cx_market (wk_ctx w)) (wk_env w))"
    "strat_step (su_cfg su) i (strat w) = order_out (d, st)"
    "\<And>w. refines L su w (f w)"
  shows "refines L su w (case dn_order d of
      None \<Rightarrow> set_strat st w
    | Some req \<Rightarrow> (let (ok, w3) = submit_order su io req (set_strat st w)
                    in if ok then w3 else f (set_strat (onSubmitFailed (strat w3)) w3)))"
proof (cases "dn_order d")
  case None
  then have "strat_step (su_cfg su) i (strat w) = ([], st)" using assms(3) by (simp add: order_out_def)
  moreover have "told_account i = Some (buildAccountSnapshot (cx_market (wk_ctx w)) (snd (eng w)))"
    using assms(2) by (simp add: eng_def)
  ultimately have "refines L su w (set_strat st w)"
    by (intro refines_one) (auto simp: absw_def intro: ms_watch)
  then show ?thesis using None by simp
next
  case (Some req)
  have s: "strat_step (su_cfg su) i (strat w) = ([OutOrder req], st)" using assms(3) Some by (simp add: order_out_def)
  have t: "told_account i = Some (buildAccountSnapshot (cx_market (wk_ctx w)) (snd (eng w)))" using assms(2) by (simp add: eng_def)
  obtain r s' where r: "submit (su_cfg su) (post_answer (io_postOrder io)) req (eng w) = (r, s')"
    by (cases "submit (su_cfg su) (post_answer (io_postOrder io)) req (eng w)")
  have st: "market_step (su_cfg su) L (cx_market (wk_ctx w)) (absw w) (s', if er_success r then st else onSubmitFailed st)"
    unfolding absw_def by (rule ms_order [OF t s post_answer_ok [OF assms(1)] r])
  have o: "submit_order su io req (set_strat st w) = (er_success r, set_eng s' (set_strat st w))"
    using r by (simp add: submit_order_def)
  show ?thesis
  proof (cases "er_success r")
    case True
    then have "refines L su w (set_eng s' (set_strat st w))" using st by (intro refines_one) auto
    then show ?thesis using Some o True by simp
  next
    case False
    then have "refines L su w (set_strat (onSubmitFailed st) (set_eng s' (set_strat st w)))" using st by (intro refines_one) auto
    then show ?thesis using Some o False refines_trans assms(4) by simp
  qed
qed

lemma intrabar_refines:
  assumes "io_ok L su io"
  shows "refines L su w (doIntrabarCheck su io close w)"
proof -
  define w1 where "w1 = set_eng (setMarkPrice close (fst (eng w)), snd (eng w)) w"
  have 1: "refines L su w w1" using engine_refines(4) by (simp add: w1_def)
  define a where "a = buildAccountSnapshot (cx_market (wk_ctx w1)) (wk_env w1)"
  obtain d st where d: "onIntrabarCandle (su_cfg su) (io_uuid2 io) close a (strat w1) = (d, st)"
    by (cases "onIntrabarCandle (su_cfg su) (io_uuid2 io) close a (strat w1)")
  define f where "f = (\<lambda>w4. case cx_pending_candle (wk_ctx w4) of
         None \<Rightarrow> w4
       | Some c \<Rightarrow> upd_ctx (\<lambda>x. x \<lparr> cx_intrabar_fail_ts := Some (c_start_timestamp c) \<rparr>) w4)"
  have f: "refines L su w4 (f w4)" for w4 by (auto simp: f_def simp: same_frame_def intro: upd_refines split: option.split)
  have "refines L su w1 (case dn_order d of
      None \<Rightarrow> set_strat st w1
    | Some req \<Rightarrow> (let (ok, w3) = submit_order su io req (set_strat st w1)
                    in if ok then w3 else f (set_strat (onSubmitFailed (strat w3)) w3)))"
    by (rule decision_refines [of L su io "InIntrabar (io_uuid2 io) close a", OF assms _ _ f]) (simp_all add: a_def [symmetric] d)
  note F = refines_trans [OF 1 this [unfolded f_def Let_def]]
  show ?thesis unfolding doIntrabarCheck_def Let_def w1_def [symmetric] a_def [symmetric] d prod.case
    using F 1 by simp
qed

lemma confirm_refines:
  assumes "io_ok L su io"
  shows "refines L su w (confirm_candle su io candle unit w)"
proof -
  define w1 where "w1 = db_write su [DbCandle (cx_market (wk_ctx w)) candle unit] w"
  define w2 where "w2 = set_eng (setMarkPrice (c_close_price candle) (fst (eng w1)), snd (eng w1)) w1"
  have "refines L su w w1" by (simp add: w1_def)
  moreover have "refines L su w1 w2" using engine_refines(4) [of L su w1 "c_close_price candle"] by (simp add: w2_def)
  ultimately have 1: "refines L su w w2" by (rule refines_trans)
  define a where "a = buildAccountSnapshot (cx_market (wk_ctx w2)) (wk_env w2)"
  obtain d st where d: "onCandle (su_cfg su) (io_uuid1 io) candle a (strat w2) = (d, st)"
    by (cases "onCandle (su_cfg su) (io_uuid1 io) candle a (strat w2)")
  have "refines L su w2 (case dn_order d of
      None \<Rightarrow> set_strat st w2
    | Some req \<Rightarrow> (let (ok, w3) = submit_order su io req (set_strat st w2)
                    in if ok then w3 else id (set_strat (onSubmitFailed (strat w3)) w3)))"
    by (rule decision_refines [of L su io "InCandle (io_uuid1 io) candle a", OF assms]) (simp_all add: a_def [symmetric] d)
  note F = refines_trans [OF 1 this [unfolded Let_def id_def]]
  show ?thesis unfolding confirm_candle_def Let_def w1_def [symmetric] w2_def [symmetric] a_def [symmetric] d prod.case
    using F by simp
qed

lemma market_data_refines:
  assumes "io_ok L su io" "handleMarketData su io json w = Inr w'"
  shows "refines L su w w'"
proof (cases "parseCandle (su_read_type su) (su_read_candle su) json (live_candle_unit_minutes (su_cfg su))")
  case (Inr result)
  show ?thesis
  proof (cases result)
    case (Some r)
    define w1 where "w1 = upd_ctx (\<lambda>c. c \<lparr> cx_pending_candle := Some (wc_candle r) \<rparr>) w"
    have u: "refines L su w w1" unfolding w1_def by (rule upd_refines) (simp add: same_frame_def)
    note i = intrabar_refines [OF assms(1), of _ "c_close_price (wc_candle r)"]
    have "w' = doIntrabarCheck su io (c_close_price (wc_candle r)) w1 \<or>
        (\<exists>c. w' = doIntrabarCheck su io (c_close_price (wc_candle r)) (confirm_candle su io c (wc_unit_minutes r) w1))"
      using assms(2) by (auto simp: handleMarketData_def Inr Some Let_def w1_def split: option.splits if_splits)
    then show ?thesis using refines_trans [OF u i] refines_trans [OF u refines_trans [OF confirm_refines [OF assms(1)] i]]
      by blast
  qed (use assms(2) Inr in \<open>simp add: handleMarketData_def\<close>)
qed (use assms(2) in \<open>simp add: handleMarketData_def\<close>)

lemma query_answer: "queryOrderWithRetry g i n = Some ord \<Longrightarrow> \<exists>k. g k = Inr ord"
  by (induction n arbitrary: i) (auto split: sum.splits)

lemma recover_refines:
  assumes "\<And>u k ord. getOrder u k = Inr ord \<Longrightarrow> honest_order L ord"
  shows "refines L su w (recover_order su getOrder order_uuid w)"
proof -
  have "refines L su w (let (reconciled, s) = reconcileFromSnapshot (su_cfg su) ord (eng w);
               w1 = set_eng s w;
               isTerminal = (o_status ord = Filled \<or> o_status ord = Canceled \<or> o_status ord = Rejected)
           in if isTerminal \<and> reconciled then db_write su [DbOrder ord] w1 else w1)" if "honest_order L ord" for ord
    using engine_refines(3) [OF that, of su w] refines_trans [OF _ db_refines]
    by (cases "reconcileFromSnapshot (su_cfg su) ord (eng w)") (simp add: Let_def)
  then show ?thesis using assms query_answer by (fastforce simp: recover_order_def split: option.split)
qed

lemma stop_refines: "refines L su w (upd_ctx stop_tracking w)"
  by (rule upd_refines) (simp add: stop_tracking_def same_frame_def)

lemma recovery_refines:
  assumes "\<And>u k ord. getOrder u k = Inr ord \<Longrightarrow> honest_order L ord"
  shows "refines L su w (runRecovery su getOrder w)"
proof -
  note recover = recover_refines [OF assms]
  obtain a b where ids: "activePendingIds (cx_engine (wk_ctx w)) = (a, b)"
    by (cases "activePendingIds (cx_engine (wk_ctx w))")
  have "refines L su w (upd_ctx stop_tracking (recover_order su getOrder b (recover_order su getOrder a w)))"
    by (rule refines_trans [OF refines_trans [OF recover recover] stop_refines])
  then show ?thesis using stop_refines by (simp add: runRecovery_def ids)
qed

lemma io_orders: "io_ok L su io \<Longrightarrow> io_getOrder io n u k = Inr ord \<Longrightarrow> honest_order L ord"
  by (auto simp: io_ok_def)

lemma timeout_refines:
  assumes "io_ok L su io"
  shows "refines L su w (checkPendingTimeout su io w)"
proof -
  obtain a b where ids: "activePendingIds (cx_engine (wk_ctx w)) = (a, b)"
    by (cases "activePendingIds (cx_engine (wk_ctx w))")
  define w1 where "w1 = upd_ctx (\<lambda>c. c \<lparr> cx_has_active_pending := a \<noteq> [] \<or> b \<noteq> [] \<rparr>) w"
  define w2 where "w2 = (if (a \<noteq> [] \<or> b \<noteq> []) \<and> \<not> cx_tracking_pending (wk_ctx w1)
                then upd_ctx (\<lambda>c. c \<lparr> cx_tracking_pending := True, cx_pending_entered_at := io_clock1 io,
                                       cx_pending_timeout_fired := False \<rparr>) w1
                else w1)"
  have 1: "refines L su w w1" unfolding w1_def by (rule upd_refines) (simp add: same_frame_def)
  have 2: "refines L su w1 w2" unfolding w2_def by (auto simp: same_frame_def intro: upd_refines)
  have 3: "refines L su w2 (upd_ctx (\<lambda>c. c \<lparr> cx_pending_timeout_fired := True \<rparr>) w2)" by (rule upd_refines) (simp add: same_frame_def)
  note w2 = refines_trans [OF 1 2]
  note stop = refines_trans [OF w2 stop_refines] and late = refines_trans [OF refines_trans [OF w2 3] recovery_refines [OF io_orders [OF assms]]]
  show ?thesis unfolding checkPendingTimeout_def Let_def ids prod.case w1_def [symmetric] w2_def [symmetric]
    using w2 stop late by (cases "a \<noteq> [] \<or> b \<noteq> []") auto
qed

lemma deliver_refines: "refines L su w (deliver_events su io w)"
proof -
  have ev: "absw (handle_engine_event su io ev w) = (eng w, snd (strat_step (su_cfg su) (told (io_now_ms io) ev) (strat w))) \<and>
      same_frame (wk_ctx w) (wk_ctx (handle_engine_event su io ev w))" for ev w
    by (cases ev) (auto simp: split_beta absw_def)
  have "absw (fold (handle_engine_event su io) evs w) =
      (eng w, fold (\<lambda>ev st. snd (strat_step (su_cfg su) (told (io_now_ms io) ev) st)) evs (strat w)) \<and>
      same_frame (wk_ctx w) (wk_ctx (fold (handle_engine_event su io) evs w))" for evs w
  proof (induction evs arbitrary: w)
    case (Cons x evs)
    then show ?case using ev [of x w] frame_trans by (fastforce simp: absw_def)
  qed (simp add: absw_def)
  moreover have "market_step (su_cfg su) L (cx_market (wk_ctx w)) (absw w)
     (engine_step (su_cfg su) InPoll (eng w),
      fold (\<lambda>ev st. snd (strat_step (su_cfg su) (told (io_now_ms io) ev) st)) (me_events (fst (eng w))) (strat w))"
    unfolding absw_def by (rule ms_deliver)
  ultimately show ?thesis
    by (intro refines_one)
      (auto simp: deliver_events_def handleEngineEvents_def pollEvents_def upd_ctx_def same_frame_def eng_def strat_def)
qed

section \<open>One iteration\<close>

lemma one_refines: "io_ok L su io \<Longrightarrow> honest_message L su inp \<Longrightarrow> handleOne su io inp w = Inr w' \<Longrightarrow> refines L su w w'"
  by (cases inp) (auto intro: my_order_refines market_data_refines recovery_refines io_orders)

lemma start_refines:
  assumes "io_ok L su io"
  shows "refines L su w (start_recovery su io w)"
proof -
  have "refines L su w (upd_ctx (\<lambda>c. c \<lparr> cx_recovery_requested := False \<rparr>) w)" by (rule upd_refines) (simp add: same_frame_def)
  then show ?thesis using refines_trans [OF _ recovery_refines [OF io_orders [OF assms]]] by (simp add: start_recovery_def)
qed

lemma pop_for_members:
  "bq_pop_for arrived q = (maybe, q') \<Longrightarrow> x \<in> set (bq_q q') \<union> set_option maybe \<Longrightarrow> x \<in> set (bq_q q) \<union> set arrived"
proof -
  have "set (bq_q (fold bq_push arrived q)) \<subseteq> set (bq_q q) \<union> set arrived"
  proof (induction arrived arbitrary: q)
    case (Cons a arrived)
    have "set (bq_q (bq_push a q)) \<subseteq> insert a (set (bq_q q))" by (cases "bq_q q") (auto simp: bq_push_def Let_def)
    then show ?case using Cons.IH [of "bq_push a q"] by auto
  qed simp
  then show "bq_pop_for arrived q = (maybe, q') \<Longrightarrow> x \<in> set (bq_q q') \<union> set_option maybe \<Longrightarrow> x \<in> set (bq_q q) \<union> set arrived"
    by (auto split: list.splits)
qed

lemma pop_for_bound:
  assumes "bq_pop_for arrived q = (maybe, q')" "bq_ok q"
  shows "bq_ok q'" "bq_max_size q' = bq_max_size q"
proof -
  have "bq_ok (fold bq_push arrived q) \<and> bq_max_size (fold bq_push arrived q) = bq_max_size q"
    using assms(2) by (induction arrived arbitrary: q) simp_all
  then show "bq_ok q'" "bq_max_size q' = bq_max_size q" using assms by (auto simp: bq_ok_def split: list.splits)
qed

lemma iteration_refines:
  assumes "io_ok L su io" "queue_ok L su w"
  shows "market_steps (su_cfg su) L (cx_market (wk_ctx w)) (absw w) (absw (worker_iteration su io w)) \<and>
     cx_market (wk_ctx (worker_iteration su io w)) = cx_market (wk_ctx w) \<and> queue_ok L su (worker_iteration su io w)"
proof -
  define w1 where "w1 = start_recovery su io w"
  obtain maybe q where p: "bq_pop_for (io_arrived io) (cx_event_queue (wk_ctx w1)) = (maybe, q)"
    by (cases "bq_pop_for (io_arrived io) (cx_event_queue (wk_ctx w1))")
  define w2 where "w2 = upd_ctx (\<lambda>c. c \<lparr> cx_event_queue := q \<rparr>) w1"
  have 1: "refines L su w w1" unfolding w1_def by (rule start_refines [OF assms(1)])
  then have w1: "queue_ok L su w1" using assms(2) by (simp add: refines_def same_frame_def queue_ok_def)
  then have "\<forall>msg \<in> set (bq_q (cx_event_queue (wk_ctx w1))). honest_message L su msg" by (simp add: queue_ok_def)
  then have h: "\<forall>msg \<in> set (bq_q q) \<union> set_option maybe. honest_message L su msg"
    using pop_for_members [OF p] assms(1) by (fastforce simp: io_ok_def)
  have 2: "absw w2 = absw w1" "cx_market (wk_ctx w2) = cx_market (wk_ctx w1)" "queue_ok L su w2"
    using h w1 pop_for_bound [OF p] by (simp_all add: w2_def absw_def upd_ctx_def eng_def strat_def queue_ok_def)
  obtain r where r: "r = (case maybe of None \<Rightarrow> Inr w2 | Some inp \<Rightarrow> handleOne su io inp w2)" by simp
  have it: "worker_iteration su io w = (case r of Inl e \<Rightarrow> w2 | Inr w3 \<Rightarrow> checkPendingTimeout su io (deliver_events su io w3))"
    unfolding worker_iteration_def Let_def w1_def [symmetric] p prod.case w2_def [symmetric] r ..
  have 3: "refines L su w2 (worker_iteration su io w)"
  proof (cases r)
    case (Inr w3)
    then have "refines L su w2 w3" using r one_refines [OF assms(1)] h by (auto split: option.splits)
    then show ?thesis using it Inr refines_trans deliver_refines timeout_refines [OF assms(1)] by (metis sum.case(2))
  qed (use it in simp)
  show ?thesis using 1 2 3 by (auto simp: refines_def same_frame_def queue_ok_def)
qed

section \<open>The timeout flag\<close>

text \<open>No handler but the two that watch a pending order touches \<open>pending_timeout_fired\<close>, and these leave it cleared.\<close>

abbreviation fired :: "Worker \<Rightarrow> bool" where
  "fired w \<equiv> cx_pending_timeout_fired (wk_ctx w)"

lemma fired_simps [simp]:
  "fired (set_eng s w) = fired w" "fired (set_strat st w) = fired w"
  "fired (upd_ctx f w) = cx_pending_timeout_fired (f (wk_ctx w))"
  by (simp_all add: set_eng_def set_strat_def upd_ctx_def)

lemma fired_submit [simp]: "fired (snd (submit_order su io req w)) = fired w"
  by (simp add: submit_order_def Let_def split_beta)

lemma fired_order_event [simp]: "fired (handle_order_event su has_trade ev w) = fired w"
  by (cases ev) (auto simp: Let_def split_beta)

lemma fired_fold: "(\<And>x w. fired (f x w) = fired w) \<Longrightarrow> fired (fold f xs w) = fired w"
  by (induction xs arbitrary: w) simp_all

lemma fired_intrabar [simp]: "fired (doIntrabarCheck su io close w) = fired w"
  by (auto simp: doIntrabarCheck_def Let_def split_beta split: option.split)

lemma fired_confirm [simp]: "fired (confirm_candle su io candle unit w) = fired w"
  by (auto simp: confirm_candle_def Let_def split_beta split: option.split)

lemma fired_market_data: "handleMarketData su io json w = Inr w' \<Longrightarrow> fired w' = fired w"
  by (auto simp: handleMarketData_def Let_def split: sum.splits option.splits if_splits)

lemma fired_recovery [simp]: "\<not> fired (runRecovery su getOrder w)"
  by (simp add: runRecovery_def stop_tracking_def split_beta)

lemma fired_one: "handleOne su io inp w = Inr w' \<Longrightarrow> \<not> fired w \<Longrightarrow> \<not> fired w'"
proof (cases inp)
  case (MyOrderRaw json)
  have "fired (handleMyOrder su json w) = fired w" by (simp add: handleMyOrder_def Let_def fired_fold)
  then show "handleOne su io inp w = Inr w' \<Longrightarrow> \<not> fired w \<Longrightarrow> \<not> fired w'" using MyOrderRaw by auto
qed (auto dest: fired_market_data)

lemma fired_deliver [simp]: "fired (deliver_events su io w) = fired w"
proof -
  have "fired (handle_engine_event su io ev w) = fired w" for ev w by (cases ev) (simp_all add: split_beta)
  then show ?thesis by (simp add: deliver_events_def handleEngineEvents_def pollEvents_def fired_fold)
qed

lemma fired_timeout: "\<not> fired w \<Longrightarrow> \<not> fired (checkPendingTimeout su io w)"
  by (auto simp: checkPendingTimeout_def Let_def split_beta stop_tracking_def)

lemma iteration_not_fired:
  assumes "\<not> fired w"
  shows "\<not> fired (worker_iteration su io w)"
proof -
  define w1 where "w1 = start_recovery su io w"
  obtain maybe q where p: "bq_pop_for (io_arrived io) (cx_event_queue (wk_ctx w1)) = (maybe, q)"
    by (cases "bq_pop_for (io_arrived io) (cx_event_queue (wk_ctx w1))")
  define w2 where "w2 = upd_ctx (\<lambda>c. c \<lparr> cx_event_queue := q \<rparr>) w1"
  have "\<not> fired w2" using assms by (simp add: w2_def w1_def start_recovery_def)
  then show ?thesis unfolding worker_iteration_def Let_def w1_def [symmetric] p prod.case w2_def [symmetric]
    using fired_one [of su io _ w2] fired_timeout by (auto split: option.split sum.split)
qed

end
