(* ===== verification/Manager.thy ===== *)
theory Manager
  imports WorkerRefinement
begin

text \<open>
  The manager of the markets, \<open>src/src/app/MarketEngineManager.cpp\<close>: it synchronises the account, makes one context per
  market and brings it to the position the account holds, starts and stops the workers, passes on a reconnection, and reports a
  worker that died. The whole program is then a machine that interleaves iterations of the
  workers, messages that the router appends to their queues, reconnections, starts and stops. The answers of the exchange during
  construction are the argument \<open>boot\<close>. Logging and the waits between attempts are left out.
\<close>

section \<open>The manager\<close>

record Boot =
  bo_first_account :: "nat \<Rightarrow> RestError + Account"
  bo_final_account :: "nat \<Rightarrow> RestError + Account"
  bo_open_orders :: "string \<Rightarrow> nat \<Rightarrow> RestError + Order list"
  bo_cancel :: "order_ref \<Rightarrow> nat \<Rightarrow> RestError + bool"
  bo_account :: "string \<Rightarrow> RestError + Account"

text \<open>\<open>contexts_\<close> is an unordered map that is filled once; the list keeps the order of the markets.\<close>

record Manager =
  mg_contexts :: "(string \<times> MarketContext) list"
  mg_started :: bool
  mg_env :: Env
  mg_db :: "DbWrite list"

text \<open>At most \<open>n\<close> more attempts, from attempt \<open>i\<close>.\<close>

fun sync_attempts :: "AppConfig \<Rightarrow> (nat \<Rightarrow> RestError + Account) \<Rightarrow> nat \<Rightarrow> nat \<Rightarrow> AccountManager \<Rightarrow> AccountManager option" where
  "sync_attempts cfg getMyAccount i 0 am = None"
| "sync_attempts cfg getMyAccount i (Suc n) am =
     (case getMyAccount i of
        Inr account \<Rightarrow> Some (rebuildFromAccount cfg account am)
      | Inl err \<Rightarrow> sync_attempts cfg getMyAccount (i + 1) n am)"

definition rebuildAccountOnStartup ::
    "AppConfig \<Rightarrow> int \<Rightarrow> (nat \<Rightarrow> RestError + Account) \<Rightarrow> bool \<Rightarrow> AccountManager \<Rightarrow> (bool \<times> AccountManager) result" where
  "rebuildAccountOnStartup cfg sync_retry getMyAccount throw_on_fail am =
     (case sync_attempts cfg getMyAccount 1 (nat sync_retry) am of
        Some am' \<Rightarrow> Inr (True, am')
      | None \<Rightarrow>
          if throw_on_fail
          then Inl (RuntimeError (''[MarketEngineManager] Failed to sync account after '' @ int_str sync_retry @ '' attempts''))
          else Inr (False, am))"

text \<open>A context as the constructor's loop makes it, engine and strategy included.\<close>

definition new_context :: "MarketManagerConfig \<Rightarrow> bool \<Rightarrow> string \<Rightarrow> MarketContext" where
  "new_context mcfg db market =
     \<lparr> cx_market = market, cx_engine = me_new market,
       cx_strategy = (let s = strategy_new market (mc_strategy_params mcfg) in if db then setSignalCallback True s else s),
       cx_event_queue = bq_new (mc_queue_capacity mcfg), cx_worker = False, cx_pending_candle = None,
       cx_intrabar_fail_ts = None, cx_tracking_pending = False, cx_pending_entered_at = 0, cx_pending_timeout_fired = False,
       cx_recovery_requested = False, cx_has_active_pending = False, cx_exited_abnormally = False \<rparr>"

definition recoverMarketState :: "Boot \<Rightarrow> MarketContext \<Rightarrow> MarketContext" where
  "recoverMarketState boot ctx =
     (let opt = default_startup (bot_prefix (cx_market ctx))
      in ctx \<lparr> cx_strategy := snd (startup_run (bo_open_orders boot) (bo_cancel boot) (bo_account boot (cx_market ctx))
                                (cx_market ctx) opt (cx_strategy ctx)) \<rparr>)"

definition add_context ::
    "MarketManagerConfig \<Rightarrow> bool \<Rightarrow> Boot \<Rightarrow> string \<Rightarrow> (string \<times> MarketContext) list \<Rightarrow> (string \<times> MarketContext) list" where
  "add_context mcfg db boot market ctxs =
     (if map_of ctxs market \<noteq> None then ctxs
      else ctxs @ [(market, recoverMarketState boot (new_context mcfg db market))])"

definition manager_new :: "AppConfig \<Rightarrow> MarketManagerConfig \<Rightarrow> bool \<Rightarrow> Boot \<Rightarrow> string list \<Rightarrow> Env \<Rightarrow> Manager result" where
  "manager_new cfg mcfg db boot markets env =
     (case rebuildAccountOnStartup cfg (mc_sync_retry mcfg) (bo_first_account boot) True (env_am env) of
        Inl e \<Rightarrow> Inl e
      | Inr (_, am1) \<Rightarrow>
          (let ctxs = fold (add_context mcfg db boot) markets []
           in case rebuildAccountOnStartup cfg (mc_sync_retry mcfg) (bo_final_account boot) False am1 of
                Inl e \<Rightarrow> Inl e
              | Inr (_, am2) \<Rightarrow>
                  Inr \<lparr> mg_contexts = ctxs, mg_started = False, mg_env = env \<lparr> env_am := am2 \<rparr>, mg_db = [] \<rparr>))"

text \<open>\<open>address\<close> is where the queue of a market's context is.\<close>

definition registerWith :: "(string \<Rightarrow> nat) \<Rightarrow> Manager \<Rightarrow> EventRouter \<Rightarrow> EventRouter" where
  "registerWith address mg router = fold (\<lambda>(market, ctx) r. registerMarket market (address market) r) (mg_contexts mg) router"

definition upd_contexts :: "(MarketContext \<Rightarrow> MarketContext) \<Rightarrow> Manager \<Rightarrow> Manager" where
  "upd_contexts f mg = mg \<lparr> mg_contexts := map (\<lambda>(m, c). (m, f c)) (mg_contexts mg) \<rparr>"

definition start :: "Manager \<Rightarrow> Manager" where
  "start mg = (if mg_started mg then mg else (upd_contexts (\<lambda>c. c \<lparr> cx_worker := True \<rparr>) mg) \<lparr> mg_started := True \<rparr>)"

text \<open>\<open>stop\<close> returns when every worker has left its loop.\<close>

definition stop :: "Manager \<Rightarrow> Manager" where
  "stop mg = (if \<not> mg_started mg then mg else (upd_contexts (\<lambda>c. c \<lparr> cx_worker := False \<rparr>) mg) \<lparr> mg_started := False \<rparr>)"

definition hasFatalWorker :: "Manager \<Rightarrow> bool" where
  "hasFatalWorker mg = list_ex (\<lambda>(m, c). cx_exited_abnormally c) (mg_contexts mg)"

definition requestReconnectRecovery :: "Manager \<Rightarrow> Manager" where
  "requestReconnectRecovery mg =
     upd_contexts (\<lambda>c. if cx_has_active_pending c then c \<lparr> cx_recovery_requested := True \<rparr> else c) mg"

section \<open>The program as a machine\<close>

definition worker_of :: "Manager \<Rightarrow> MarketContext \<Rightarrow> Worker" where
  "worker_of mg ctx = \<lparr> wk_ctx = ctx, wk_env = mg_env mg, wk_db = mg_db mg \<rparr>"

definition put_worker :: "string \<Rightarrow> Worker \<Rightarrow> Manager \<Rightarrow> Manager" where
  "put_worker m w mg = mg \<lparr> mg_contexts := modify m (\<lambda>_. wk_ctx w) (mg_contexts mg), mg_env := wk_env w, mg_db := wk_db w \<rparr>"

text \<open>What the workers of the markets and the other threads do, one at a time.\<close>

definition run_worker :: "(Worker \<Rightarrow> Worker) \<Rightarrow> string \<Rightarrow> Manager \<Rightarrow> Manager" where
  "run_worker f m mg = (case map_of (mg_contexts mg) m of None \<Rightarrow> mg | Some ctx \<Rightarrow> put_worker m (f (worker_of mg ctx)) mg)"

definition push_message :: "EngineInput \<Rightarrow> Worker \<Rightarrow> Worker" where
  "push_message msg = upd_ctx (\<lambda>c. c \<lparr> cx_event_queue := bq_push msg (cx_event_queue c) \<rparr>)"

definition give_up :: "Worker \<Rightarrow> Worker" where
  "give_up = upd_ctx (\<lambda>c. c \<lparr> cx_worker := False, cx_exited_abnormally := True \<rparr>)"

inductive program :: "ledger \<Rightarrow> Setup \<Rightarrow> Manager \<Rightarrow> bool" for L su where
  pr_new: "env_store env = [] \<Longrightarrow> manager_new (su_cfg su) (su_manager su) (su_db su) boot markets env = Inr mg \<Longrightarrow> program L su mg"
| pr_start: "program L su mg \<Longrightarrow> program L su (start mg)"
| pr_stop: "program L su mg \<Longrightarrow> program L su (stop mg)"
| pr_reconnect: "program L su mg \<Longrightarrow> program L su (requestReconnectRecovery mg)"
| pr_message: "program L su mg \<Longrightarrow> honest_message L su msg \<Longrightarrow> program L su (run_worker (push_message msg) m mg)"
| pr_iterate: "program L su mg \<Longrightarrow> map_of (mg_contexts mg) m = Some ctx \<Longrightarrow> cx_worker ctx \<Longrightarrow> io_ok L su io \<Longrightarrow>
     program L su (run_worker (worker_iteration su io) m mg)"
| pr_give_up: "program L su mg \<Longrightarrow> program L su (run_worker give_up m mg)"

section \<open>The invariant of the program\<close>

text \<open>What holds of one market's context in the shared state.\<close>

definition context_ok :: "ledger \<Rightarrow> Setup \<Rightarrow> Env \<Rightarrow> string \<Rightarrow> MarketContext \<Rightarrow> bool" where
  "context_ok L su env m c \<longleftrightarrow> cx_market c = m \<and> market_ok L m (mc_strategy_params (su_manager su)) ((cx_engine c, env), cx_strategy c) \<and>
     (\<forall>msg \<in> set (bq_q (cx_event_queue c)). honest_message L su msg) \<and> bq_ok (cx_event_queue c) \<and>
     bq_max_size (cx_event_queue c) = mc_queue_capacity (su_manager su) \<and> \<not> cx_pending_timeout_fired c"

definition program_ok :: "ledger \<Rightarrow> Setup \<Rightarrow> Manager \<Rightarrow> bool" where
  "program_ok L su mg \<longleftrightarrow> distinct (map fst (mg_contexts mg)) \<and> orders_ok (mg_env mg) \<and>
     (\<forall>m c. map_of (mg_contexts mg) m = Some c \<longrightarrow> context_ok L su (mg_env mg) m c)"

subsection \<open>Construction\<close>

lemma sync_pending [simp]: "st_pending_client_id (syncOnStart pos s) = None"
  by (simp add: syncOnStart_def clearPendingState_def set_entry_def clear_prices_def setStopsFromEntry_def Let_def)

lemma new_context_ok:
  assumes "orders_ok env"
  shows "context_ok L su env m (recoverMarketState boot (new_context (su_manager su) db m))"
proof -
  have "strat_ok m p (cx_strategy (new_context mcfg db m))" if "p = mc_strategy_params mcfg" for p mcfg
    using that by (simp add: new_context_def Let_def ok_new ok_callback)
  then show ?thesis using assms
    by (auto simp: context_ok_def market_ok_def recoverMarketState_def startup_run_def Let_def exclusive_def bq_new_def ok_sync)
      (simp_all add: new_context_def me_new_def bq_new_def bq_ok_def)
qed

lemma map_of_snoc: "map_of (xs @ [(k, v)]) k' = (case map_of xs k' of None \<Rightarrow> if k' = k then Some v else None | Some x \<Rightarrow> Some x)"
  by (auto simp: map_add_def split: option.split)

lemma add_contexts:
  assumes "distinct (map fst ctxs)" "\<forall>m c. map_of ctxs m = Some c \<longrightarrow> P m c"
    "\<And>m. P m (recoverMarketState boot (new_context mcfg db m))"
  shows "distinct (map fst (fold (add_context mcfg db boot) markets ctxs)) \<and>
     (\<forall>m c. map_of (fold (add_context mcfg db boot) markets ctxs) m = Some c \<longrightarrow> P m c) \<and>
     dom (map_of (fold (add_context mcfg db boot) markets ctxs)) = dom (map_of ctxs) \<union> set markets"
  using assms(1,2)
proof (induction markets arbitrary: ctxs)
  case (Cons m markets)
  let ?ctxs = "add_context mcfg db boot m ctxs"
  have "distinct (map fst ?ctxs)" "\<forall>m c. map_of ?ctxs m = Some c \<longrightarrow> P m c" "dom (map_of ?ctxs) = insert m (dom (map_of ctxs))"
    using Cons.prems assms(3)
    by (auto simp: add_context_def map_of_snoc map_of_eq_None_iff dom_def split: option.splits if_splits)
  then show ?case using Cons.IH [of ?ctxs] by auto
qed simp

lemma sync_attempts_None: "sync_attempts cfg answer i n am = None \<longleftrightarrow> (\<forall>k<n. \<exists>e. answer (i + k) = Inl e)"
proof (induction n arbitrary: i)
  case (Suc n)
  have "(\<forall>k<Suc n. \<exists>e. answer (i + k) = Inl e) \<longleftrightarrow> (\<exists>e. answer i = Inl e) \<and> (\<forall>k<n. \<exists>e. answer (Suc i + k) = Inl e)"
    by (auto simp: less_Suc_eq_0_disj)
  then show ?case using Suc.IH [of "Suc i"] by (cases "answer i") auto
qed simp

lemma manager_new_ok:
  assumes "env_store env = []" "manager_new (su_cfg su) (su_manager su) (su_db su) boot markets env = Inr mg"
  shows "program_ok L su mg"
proof -
  have mg: "mg_contexts mg = fold (add_context (su_manager su) (su_db su) boot) markets []" "env_store (mg_env mg) = []"
    using assms by (auto simp: manager_new_def rebuildAccountOnStartup_def Let_def split: sum.splits option.splits prod.splits)
  then have o: "orders_ok (mg_env mg)" by (simp add: orders_ok_def store_ok_def os_get_def)
  show ?thesis unfolding program_ok_def mg(1)
    using add_contexts [of "[]" "context_ok L su (mg_env mg)" boot "su_manager su" "su_db su" markets] new_context_ok [OF o] o by simp
qed

subsection \<open>The steps\<close>

lemma upd_contexts_ok:
  assumes "program_ok L su mg"
    "\<And>c. cx_market (f c) = cx_market c \<and> cx_engine (f c) = cx_engine c \<and> cx_strategy (f c) = cx_strategy c \<and>
       cx_event_queue (f c) = cx_event_queue c \<and> cx_pending_timeout_fired (f c) = cx_pending_timeout_fired c"
    "mg_contexts mg' = map (\<lambda>(m, c). (m, f c)) (mg_contexts mg)" "mg_env mg' = mg_env mg"
  shows "program_ok L su mg'"
proof -
  have "map fst (mg_contexts mg') = map fst (mg_contexts mg)" by (simp add: assms(3) case_prod_unfold)
  moreover have "map_of (mg_contexts mg') m = map_option f (map_of (mg_contexts mg) m)" for m
    using map_of_map_snd [of "\<lambda>_. f" "mg_contexts mg" m] by (simp add: assms(3))
  ultimately show ?thesis using assms(1,2,4) by (auto simp: program_ok_def context_ok_def)
qed

text \<open>One worker moves: its own context is fine after, the orders of the other markets are as before.\<close>

lemma run_worker_ok:
  assumes "program_ok L su mg"
    "\<And>ctx. map_of (mg_contexts mg) m = Some ctx \<Longrightarrow> context_ok L su (wk_env (f (worker_of mg ctx))) m (wk_ctx (f (worker_of mg ctx)))"
    "\<And>ctx. map_of (mg_contexts mg) m = Some ctx \<Longrightarrow> foreign_kept L m (mg_env mg) (wk_env (f (worker_of mg ctx)))"
  shows "program_ok L su (run_worker f m mg)"
proof (cases "map_of (mg_contexts mg) m")
  case None
  then show ?thesis using assms(1) by (simp add: run_worker_def)
next
  case (Some ctx)
  let ?w = "f (worker_of mg ctx)"
  have o: "orders_ok (wk_env ?w)" using assms(2) [OF Some] by (simp add: context_ok_def market_ok_def)
  have "context_ok L su (wk_env ?w) m' c'" if c: "map_of (mg_contexts mg) m' = Some c'" "m' \<noteq> m" for m' c'
    using assms(1) c market_ok_foreign [OF _ assms(3) [OF Some] _ o, of m' "mc_strategy_params (su_manager su)"]
    by (auto simp: program_ok_def context_ok_def)
  then show ?thesis using assms(1) assms(2) [OF Some] o Some
    by (auto simp: run_worker_def put_worker_def program_ok_def)
qed

lemma iteration_ok:
  assumes "context_ok L su (mg_env mg) m ctx" "io_ok L su io"
  shows "context_ok L su (wk_env (worker_iteration su io (worker_of mg ctx))) m (wk_ctx (worker_iteration su io (worker_of mg ctx)))"
    and "foreign_kept L m (mg_env mg) (wk_env (worker_iteration su io (worker_of mg ctx)))"
proof -
  let ?w = "worker_of mg ctx"
  let ?w' = "worker_iteration su io ?w"
  have q: "queue_ok L su ?w" using assms(1) by (simp add: queue_ok_def worker_of_def context_ok_def)
  have a: "absw ?w = ((cx_engine ctx, mg_env mg), cx_strategy ctx)" "cx_market (wk_ctx ?w) = m"
    using assms(1) by (simp_all add: absw_def eng_def strat_def worker_of_def context_ok_def)
  note r = iteration_refines [OF assms(2) q, unfolded a]
  have ok: "market_ok L m (mc_strategy_params (su_manager su)) ((cx_engine ctx, mg_env mg), cx_strategy ctx)"
    using assms(1) by (simp add: context_ok_def)
  have "market_ok L m (mc_strategy_params (su_manager su)) (absw ?w')"
    using market_steps_ok [OF _ ok] r by blast
  moreover have "\<not> fired ?w'" using iteration_not_fired [of ?w] assms(1) by (simp add: worker_of_def context_ok_def)
  ultimately show "context_ok L su (wk_env ?w') m (wk_ctx ?w')"
    using r by (simp add: context_ok_def absw_def eng_def strat_def queue_ok_def)
  show "foreign_kept L m (mg_env mg) (wk_env ?w')"
    using market_steps_foreign [OF _ ok] r by (fastforce simp: absw_def eng_def)
qed

lemma push_members: "x \<in> set (bq_q (bq_push msg q)) \<Longrightarrow> x = msg \<or> x \<in> set (bq_q q)"
  by (cases "bq_q q") (auto simp: bq_push_def Let_def split: if_splits)

lemma program_inv: "program L su mg \<Longrightarrow> program_ok L su mg"
proof (induction rule: program.induct)
  case (pr_new env boot markets mg)
  then show ?case by (rule manager_new_ok)
next
  case (pr_start mg)
  then show ?case
    using upd_contexts_ok [OF pr_start.IH, of "\<lambda>c. c \<lparr> cx_worker := True \<rparr>"] by (simp add: start_def upd_contexts_def)
next
  case (pr_stop mg)
  then show ?case
    using upd_contexts_ok [OF pr_stop.IH, of "\<lambda>c. c \<lparr> cx_worker := False \<rparr>"] by (simp add: stop_def upd_contexts_def)
next
  case (pr_reconnect mg)
  then show ?case
    using upd_contexts_ok [OF pr_reconnect.IH, of "\<lambda>c. if cx_has_active_pending c then c \<lparr> cx_recovery_requested := True \<rparr> else c"]
    by (simp add: requestReconnectRecovery_def upd_contexts_def)
next
  case (pr_message mg msg m)
  show ?case using pr_message
    by (intro run_worker_ok) (auto dest!: push_members simp: program_ok_def context_ok_def push_message_def upd_ctx_def worker_of_def)
next
  case (pr_iterate mg m ctx io)
  then have "context_ok L su (mg_env mg) m c" if "map_of (mg_contexts mg) m = Some c" for c
    using that by (simp add: program_ok_def)
  then show ?case using pr_iterate iteration_ok by (intro run_worker_ok) blast+
next
  case (pr_give_up mg m)
  then show ?case
    by (intro run_worker_ok) (auto simp: program_ok_def context_ok_def give_up_def upd_ctx_def worker_of_def)
qed

end
