(* ===== verification/ProgramProperties.thy ===== *)
theory ProgramProperties
  imports Manager
begin

text \<open>
  What the whole program guarantees, over every interleaving of the workers with the messages, the reconnections, the starts
  and the stops: the contexts are well formed, an order a strategy waits for is never lost, every iteration is a run of the abstract
  market, and an order whose messages never arrive is given up as soon as the exchange answers the recovery.
\<close>

lemma program_context: "program L su mg \<Longrightarrow> map_of (mg_contexts mg) m = Some c \<Longrightarrow> context_ok L su (mg_env mg) m c"
  using program_inv [of L su mg] by (simp add: program_ok_def)

section \<open>Recovery\<close>

lemma snapshot_closing:
  assumes "orders_ok (snd s)" "closing cid (fst s)"
  shows "closing cid (fst (onOrderSnapshot cfg snap s))"
  using assms(1)
proof (cases rule: snapshot_cases [of s cfg snap])
  case (3 old s2)
  then show ?thesis
    using assms(2) close_events [of "(fst s, snd s \<lparr> env_store := snd (os_update (merge_snapshot snap old) (env_store (snd s))) \<rparr>)" cfg]
    by (auto simp: closing_def)
qed (use assms(2) in simp_all)

lemma reconcile_closing:
  assumes "orders_ok (snd s)" "closing cid (fst s)"
  shows "closing cid (fst (snd (reconcileFromSnapshot cfg snap s)))"
proof (rule reconcile_result [of cfg snap s])
  fix s0
  assume q: "quiet s s0" and r: "reconcileFromSnapshot cfg snap s = (True, onOrderSnapshot cfg snap s0)"
  show ?thesis using r snapshot_closing [of s0 cid] quiet_ok(1,4) [OF q] assms by simp
qed (use assms in simp)

text \<open>The exchange's last word on an order: it is terminal, on the side it was sent, and if it executed more than
  the program has settled it says for how much.\<close>

definition final_answer :: "MarketEngine \<Rightarrow> Env \<Rightarrow> string \<Rightarrow> Order \<Rightarrow> bool" where
  "final_answer e env u ord \<longleftrightarrow> o_id ord = u \<and> isDone ord \<and> o_position ord = (if u = me_buy_uuid e then BID else ASK) \<and>
     (\<forall>prev. os_get (env_store env) u = Some prev \<and> 0 < dmax 0 (o_executed_volume ord - o_executed_volume prev) \<longrightarrow>
        0 < dmax 0 (o_executed_funds ord - o_executed_funds prev) \<and>
        0 < dmax 0 (o_executed_funds ord - o_executed_funds prev) / dmax 0 (o_executed_volume ord - o_executed_volume prev))"

lemma reconcile_final:
  assumes "final_answer (fst s) (snd s) u ord" "honest_order L ord" "L u = me_market (fst s)" "orders_ok (snd s)" "exclusive (fst s)"
    "u \<noteq> []" "u = me_buy_uuid (fst s) \<or> u = me_sell_uuid (fst s)" "os_get (env_store (snd s)) u = Some prev"
  obtains s0 where "quiet s s0" "reconcileFromSnapshot cfg ord s = (True, onOrderSnapshot cfg ord s0)"
proof -
  have m: "o_market ord = me_market (fst s)" "o_id ord = u" using assms(1-3) by (auto simp: honest_order_def final_answer_def)
  have "fst (reconcileFromSnapshot cfg ord s)"
  proof (cases "u = me_buy_uuid (fst s)")
    case True
    then obtain t where "me_buy_token (fst s) = Some t" using assms(5,6) by (auto simp: exclusive_def)
    then show ?thesis using True assms(1,8) m
      by (auto simp: reconcileFromSnapshot_def final_answer_def Let_def dless_not_le split_beta)
  next
    case False
    then show ?thesis using assms(1,7,8) m
      by (auto simp: reconcileFromSnapshot_def final_answer_def Let_def dless_not_le split_beta)
  qed
  then show ?thesis using that reconcile_result [of cfg ord s] by (metis fst_conv)
qed

lemma reconcile_closes:
  assumes "final_answer (fst s) (snd s) u ord" "honest_order L ord" "L u = me_market (fst s)" "orders_ok (snd s)" "exclusive (fst s)"
    "u \<noteq> []" "u = me_buy_uuid (fst s) \<or> u = me_sell_uuid (fst s)" "os_get (env_store (snd s)) u = Some prev"
    "o_identifier prev = Some cid" "cid \<noteq> []"
  shows "closing cid (fst (snd (reconcileFromSnapshot cfg ord s)))"
proof -
  obtain s0 where q: "quiet s s0" and r: "reconcileFromSnapshot cfg ord s = (True, onOrderSnapshot cfg ord s0)"
    using reconcile_final [OF assms(1-8), of cfg] .
  have st: "os_get (env_store (snd s0)) u = Some prev" using q assms(8) by (simp add: quiet_def)
  have d: "isDone ord" "o_id ord = u" using assms(1) by (auto simp: final_answer_def)
  have m: "o_market ord = me_market (fst s0)" using assms(2,3) d quiet_market [OF q] by (simp add: honest_order_def)
  have id: "o_id prev = u" using assms(4,8) store_ok_get by (auto simp: orders_ok_def)
  have o0: "orders_ok (snd s0)" using quiet_ok(1) [OF q] assms(4) by simp
  then show ?thesis
  proof (cases rule: snapshot_cases [of s0 cfg ord])
    case 1
    have "isOpen prev" using o0 st by (auto simp: orders_ok_def)
    then have "os_get (env_store (snd (onOrderSnapshot cfg ord s0))) u = None"
      using st d m id isOpen_not_isDone [of prev]
      by (auto simp: onOrderSnapshot_def isDone_def Let_def os_update_success split_beta)
    then show ?thesis using 1 st by simp
  next
    case (3 old s2)
    then have "closing cid (fst s2)" unfolding 3(3)
      using st d assms(9,10) by (intro close_closing) (auto simp: isDone_def)
    then show ?thesis by (simp add: r 3(4))
  qed (use d in simp)
qed

lemma strat_upd [simp]: "strat (upd_ctx f w) = cx_strategy (f (wk_ctx w))"
  by (simp add: strat_def upd_ctx_def)

lemma strat_recover [simp]: "strat (recover_order su getOrder u w) = strat w"
  by (auto simp: recover_order_def Let_def split_beta split: option.split)

lemma strat_recovery [simp]: "strat (runRecovery su getOrder w) = strat w"
proof -
  have "cx_strategy (wk_ctx (recover_order su getOrder u w)) = cx_strategy (wk_ctx w)" for u w
    using strat_recover [of su getOrder u w] by (simp add: strat_def)
  then show ?thesis by (simp add: runRecovery_def stop_tracking_def split_beta) (simp add: strat_def)
qed

lemma strat_timeout [simp]: "strat (checkPendingTimeout su io w) = strat w"
proof -
  obtain b s where ids: "activePendingIds (cx_engine (wk_ctx w)) = (b, s)" by (cases "activePendingIds (cx_engine (wk_ctx w))")
  define w1 where "w1 = upd_ctx (\<lambda>c. c \<lparr> cx_has_active_pending := b \<noteq> [] \<or> s \<noteq> [] \<rparr>) w"
  define w2 where "w2 = (if (b \<noteq> [] \<or> s \<noteq> []) \<and> \<not> cx_tracking_pending (wk_ctx w1)
                then upd_ctx (\<lambda>c. c \<lparr> cx_tracking_pending := True, cx_pending_entered_at := io_clock1 io,
                                       cx_pending_timeout_fired := False \<rparr>) w1
                else w1)"
  have "strat w2 = strat w" by (simp add: w2_def w1_def strat_def [symmetric])
  then have "cx_strategy (wk_ctx w2) = strat w" by (simp add: strat_def)
  then show ?thesis
    unfolding checkPendingTimeout_def Let_def ids prod.case w1_def [symmetric] w2_def [symmetric]
    by (simp add: stop_tracking_def strat_def [symmetric])
qed

lemma recover_eng:
  "eng (recover_order su getOrder u w) =
     (if u = [] then eng w
      else case queryOrderWithRetry (getOrder u) 1 3 of None \<Rightarrow> eng w
         | Some ord \<Rightarrow> snd (reconcileFromSnapshot (su_cfg su) ord (eng w)))"
  by (auto simp: recover_order_def Let_def split_beta split: option.split)

lemma recover_keeps:
  assumes "orders_ok (snd (eng w))" "exclusive (fst (eng w))"
  shows "orders_ok (snd (eng (recover_order su getOrder u w))) \<and> exclusive (fst (eng (recover_order su getOrder u w))) \<and>
    (closing cid (fst (eng w)) \<longrightarrow> closing cid (fst (eng (recover_order su getOrder u w))))"
  using assms reconcile_orders_ok [OF assms] reconcile_closing [OF assms(1)] by (auto simp: recover_eng split: option.split)

lemma query_first:
  "g k = Inr ord \<Longrightarrow> i \<le> k \<Longrightarrow> k < i + n \<Longrightarrow> \<forall>j. i \<le> j \<and> j < k \<longrightarrow> (\<exists>err. g j = Inl err) \<Longrightarrow>
   queryOrderWithRetry g i n = Some ord"
proof (induction n arbitrary: i)
  case (Suc n)
  then show ?case by (cases "k = i") (auto dest!: spec [of _ i] split: sum.split)
qed simp

text \<open>The order in flight is the only one the recovery asks for.\<close>

lemma recovery_closes:
  assumes "orders_ok (snd (eng w))" "exclusive (fst (eng w))" "cid \<noteq> []" "tracked L cid (eng w)"
    "\<And>u. u \<noteq> [] \<Longrightarrow> u \<in> {me_buy_uuid (fst (eng w)), me_sell_uuid (fst (eng w))} \<Longrightarrow>
       \<exists>ord. queryOrderWithRetry (getOrder u) 1 3 = Some ord \<and> honest_order L ord \<and> final_answer (fst (eng w)) (snd (eng w)) u ord"
  shows "closing cid (fst (eng (runRecovery su getOrder w)))"
proof -
  let ?b = "me_buy_uuid (fst (eng w))" and ?s = "me_sell_uuid (fst (eng w))"
  let ?w1 = "recover_order su getOrder ?b w" and ?w2 = "recover_order su getOrder ?s (recover_order su getOrder ?b w)"
  have ids: "activePendingIds (cx_engine (wk_ctx w)) = (?b, ?s)" by (simp add: activePendingIds_def eng_def)
  have stop: "eng (upd_ctx stop_tracking w) = eng w" for w by (simp add: eng_def upd_ctx_def stop_tracking_def)
  note k = recover_keeps [OF assms(1,2)]
  have rec: "eng (runRecovery su getOrder w) = eng ?w2"
    by (simp add: runRecovery_def ids stop) (simp add: recover_order_def)
  have mono: "closing cid (fst (eng w)) \<Longrightarrow> closing cid (fst (eng ?w2))" "closing cid (fst (eng ?w1)) \<Longrightarrow> closing cid (fst (eng ?w2))"
    using k recover_keeps [of ?w1] by blast+
  have "closing cid (fst (eng ?w2))" if "in_flight L cid (eng w)"
  proof -
    from that obtain u prev where u: "u \<noteq> []" "L u = me_market (fst (eng w))" "u = ?b \<or> u = ?s"
      "os_get (env_store (snd (eng w))) u = Some prev" "o_identifier prev = Some cid" by (auto simp: in_flight_def)
    then obtain ord where a: "queryOrderWithRetry (getOrder u) 1 3 = Some ord" "honest_order L ord"
      "final_answer (fst (eng w)) (snd (eng w)) u ord" using assms(5) [of u] by blast
    have c: "closing cid (fst (snd (reconcileFromSnapshot (su_cfg su) ord (eng w))))"
      by (rule reconcile_closes [OF a(3,2) u(2) assms(1,2) u(1,3,4,5) assms(3)])
    show ?thesis
    proof (cases "u = ?b")
      case True
      then have "closing cid (fst (eng ?w1))" using u(1) a(1) c by (simp add: recover_eng)
      then show ?thesis by (rule mono(2))
    next
      case False
      then have "?s = u" using u(3) by simp
      then have "?b = []" using assms(2) u(1) by (auto simp: exclusive_def)
      then show ?thesis using a(1) c u(1) \<open>?s = u\<close> by (simp add: recover_eng)
    qed
  qed
  then show ?thesis using assms(4) mono(1) by (auto simp: rec tracked_def)
qed

text \<open>Whatever closes the order, the strategy hears of it when the engine's events are delivered.\<close>

lemma deliver_strat:
  "strat (deliver_events su io w) = fold (\<lambda>ev st. snd (strat_step (su_cfg su) (told (io_now_ms io) ev) st)) (me_events (fst (eng w))) (strat w)"
proof -
  have "strat (handle_engine_event su io ev w) = snd (strat_step (su_cfg su) (told (io_now_ms io) ev) (strat w))" for ev w
    by (cases ev) (simp_all add: split_beta)
  then have "strat (fold (handle_engine_event su io) evs w) =
      fold (\<lambda>ev st. snd (strat_step (su_cfg su) (told (io_now_ms io) ev) st)) evs (strat w)" for evs w
    by (induction evs arbitrary: w) simp_all
  then show ?thesis by (simp add: deliver_events_def handleEngineEvents_def pollEvents_def eng_def) (simp add: strat_def)
qed

lemma deliver_clears:
  "st_pending_client_id (strat w) = Some cid \<Longrightarrow> closing cid (fst (eng w)) \<Longrightarrow> st_pending_client_id (strat (deliver_events su io w)) = None"
  by (auto simp: deliver_strat deliver_pending closing_iff)

lemma idle_iteration:
  assumes "bq_q (cx_event_queue (wk_ctx w)) = []" "io_arrived io = []" "io_ok L su io"
  shows "worker_iteration su io w = checkPendingTimeout su io (deliver_events su io (start_recovery su io w))"
proof -
  define w1 where "w1 = start_recovery su io w"
  have "cx_event_queue (wk_ctx w1) = cx_event_queue (wk_ctx w)"
    using start_refines [OF assms(3), of w] by (simp add: refines_def same_frame_def w1_def)
  then have pop: "bq_pop_for (io_arrived io) (cx_event_queue (wk_ctx w1)) = (None, cx_event_queue (wk_ctx w1))"
    using assms(1,2) by simp
  have same: "upd_ctx (\<lambda>c. c \<lparr> cx_event_queue := cx_event_queue (wk_ctx w1) \<rparr>) w1 = w1" by (simp add: upd_ctx_def)
  show ?thesis
    unfolding worker_iteration_def Let_def w1_def [symmetric] pop prod.case same option.case sum.case ..
qed

lemma sync_attempts_Some:
  "sync_attempts cfg answer i n am = Some am' \<Longrightarrow>
   \<exists>k acc. i \<le> k \<and> k < i + n \<and> answer k = Inr acc \<and> (\<forall>j. i \<le> j \<and> j < k \<longrightarrow> (\<exists>e. answer j = Inl e)) \<and>
     am' = rebuildFromAccount cfg acc am"
proof (induction n arbitrary: i)
  case (Suc n)
  show ?case
  proof (cases "answer i")
    case (Inl e)
    then obtain k acc where k: "Suc i \<le> k" "k < Suc i + n" "answer k = Inr acc" "\<forall>j. Suc i \<le> j \<and> j < k \<longrightarrow> (\<exists>e. answer j = Inl e)"
      "am' = rebuildFromAccount cfg acc am" using Suc.IH [of "Suc i"] Suc.prems by auto
    have "\<exists>e. answer j = Inl e" if "i \<le> j" "j < k" for j using that k(4) Inl by (cases "j = i") auto
    then show ?thesis using k by (intro exI [of _ k] exI [of _ acc]) auto
  next
    case (Inr acc)
    then show ?thesis using Suc.prems by (intro exI [of _ i] exI [of _ acc]) auto
  qed
qed simp

section \<open>The properties\<close>

text \<open>
  C33: The contexts of the program are well formed in every state it can reach: each market has one context, whose engine and
  strategy are of that market with the configured parameters, and a queue that never holds more than its capacity.
\<close>

theorem program_well_formed:
  assumes "program L su mg" "map_of (mg_contexts mg) m = Some c"
  shows "distinct (map fst (mg_contexts mg)) \<and> cx_market c = m \<and> me_market (cx_engine c) = m \<and> st_market (cx_strategy c) = m \<and>
     st_params (cx_strategy c) = mc_strategy_params (su_manager su) \<and>
     (0 < mc_queue_capacity (su_manager su) \<longrightarrow> length (bq_q (cx_event_queue c)) \<le> mc_queue_capacity (su_manager su))"
proof -
  have "distinct (map fst (mg_contexts mg))" using program_inv [OF assms(1)] by (simp add: program_ok_def)
  then show ?thesis using program_context [OF assms]
    unfolding context_ok_def market_ok_def strat_ok_def bq_ok_def by (elim conjE disjE; simp)
qed

text \<open>
  C1: No order is forgotten. In every state the program can reach, if the strategy of a market waits for an order, then either
  that order is in flight (its engine holds its uuid as the active one, and the shared store has an open order with the
  identifier the strategy waits for), or its final status is already among the events the engine will deliver. A buy
  and a sell are never in flight together, and every order in the store is open. This holds for every market at once, whatever the
  workers of the others do to the shared store, if the exchange reports orders with their own market.
\<close>

theorem waiting_order_is_tracked:
  assumes "program L su mg" "map_of (mg_contexts mg) m = Some c" "st_pending_client_id (cx_strategy c) = Some cid"
  shows "(in_flight L cid (cx_engine c, mg_env mg) \<or> closing cid (cx_engine c)) \<and>
     (me_buy_uuid (cx_engine c) = [] \<or> me_sell_uuid (cx_engine c) = []) \<and>
     (\<forall>u ord. os_get (env_store (mg_env mg)) u = Some ord \<longrightarrow> isOpen ord)"
  using program_context [OF assms(1,2)] assms(3)
  by (auto simp: context_ok_def market_ok_def tracked_def exclusive_def orders_ok_def)

text \<open>
  C3: An iteration of a worker is a run of the abstract market: whatever message it takes, whatever it recovers and whatever times
  out, the pair of engine and strategy moves by transitions in which a decision is submitted at once and undone at once if the
  submission fails, and all events of the engine are told to the strategy in order. The orders of other markets stay as they are.
\<close>

theorem iteration_is_market_run:
  assumes "program L su mg" "map_of (mg_contexts mg) m = Some c" "io_ok L su io" "w = worker_of mg c" "w' = worker_iteration su io w"
  shows "(market_step (su_cfg su) L m)\<^sup>*\<^sup>* ((cx_engine c, mg_env mg), cx_strategy c) ((cx_engine (wk_ctx w'), wk_env w'), cx_strategy (wk_ctx w')) \<and>
     (\<forall>u. L u \<noteq> m \<longrightarrow> os_get (env_store (wk_env w')) u = os_get (env_store (mg_env mg)) u)"
proof -
  have c: "context_ok L su (mg_env mg) m c" by (rule program_context [OF assms(1,2)])
  then have "queue_ok L su w" "cx_market (wk_ctx w) = m" by (simp_all add: assms(4) queue_ok_def worker_of_def context_ok_def)
  then show ?thesis using iteration_refines [OF assms(3), of w] iteration_ok(2) [OF c assms(3)] assms(4,5)
    by (simp add: absw_def eng_def strat_def worker_of_def foreign_kept_def)
qed

text \<open>
  C5: An order whose messages are lost does not block its market for ever: when a reconnection has requested the recovery of a
  market whose strategy waits for an order, and the exchange answers one of the three queries with the final state of
  that order, then the next idle iteration of the worker settles the order and the strategy waits for nothing any more.
\<close>

theorem lost_order_is_recovered:
  assumes "program L su mg" "map_of (mg_contexts mg) m = Some c" "io_ok L su io"
    "st_pending_client_id (cx_strategy c) = Some cid" "cx_recovery_requested c"
    "bq_q (cx_event_queue c) = []" "io_arrived io = []"
    "\<And>u. u \<noteq> [] \<Longrightarrow> u = me_buy_uuid (cx_engine c) \<or> u = me_sell_uuid (cx_engine c) \<Longrightarrow>
       \<exists>k ord. 1 \<le> k \<and> k \<le> 3 \<and> io_getOrder io 0 u k = Inr ord \<and> final_answer (cx_engine c) (mg_env mg) u ord \<and>
         (\<forall>j. 1 \<le> j \<and> j < k \<longrightarrow> (\<exists>err. io_getOrder io 0 u j = Inl err))"
  shows "st_pending_client_id (cx_strategy (wk_ctx (worker_iteration su io (worker_of mg c)))) = None"
proof -
  define w where "w = upd_ctx (\<lambda>c. c \<lparr> cx_recovery_requested := False \<rparr>) (worker_of mg c)"
  have e: "eng w = (cx_engine c, mg_env mg)" "strat w = cx_strategy c"
    by (simp_all add: w_def eng_def upd_ctx_def worker_of_def strat_def)
  have ok: "orders_ok (mg_env mg)" "exclusive (cx_engine c)" "cid \<noteq> []" "tracked L cid (cx_engine c, mg_env mg)"
    using program_context [OF assms(1,2)] assms(4) by (auto simp: context_ok_def market_ok_def)
  have ans: "\<exists>ord. queryOrderWithRetry (io_getOrder io 0 u) 1 3 = Some ord \<and> honest_order L ord \<and>
      final_answer (cx_engine c) (mg_env mg) u ord" if "u \<noteq> []" "u \<in> {me_buy_uuid (cx_engine c), me_sell_uuid (cx_engine c)}" for u
  proof -
    have active: "u \<noteq> []" "u = me_buy_uuid (cx_engine c) \<or> u = me_sell_uuid (cx_engine c)" using that by simp_all
    obtain k ord where k: "1 \<le> k" "k \<le> 3" "io_getOrder io 0 u k = Inr ord" "final_answer (cx_engine c) (mg_env mg) u ord"
      "\<forall>j. 1 \<le> j \<and> j < k \<longrightarrow> (\<exists>err. io_getOrder io 0 u j = Inl err)" using assms(8) [OF active] by blast
    then have "queryOrderWithRetry (io_getOrder io 0 u) 1 3 = Some ord"
      using query_first [of "io_getOrder io 0 u" k ord 1 3] by simp
    then show ?thesis using k(3,4) io_orders [OF assms(3)] by blast
  qed
  have "closing cid (fst (eng (runRecovery su (io_getOrder io 0) w)))"
    using ok ans by (intro recovery_closes [where L = L]) (simp_all add: e)
  moreover have "start_recovery su io (worker_of mg c) = runRecovery su (io_getOrder io 0) w"
    using assms(5) by (simp add: start_recovery_def w_def worker_of_def)
  moreover have "worker_iteration su io (worker_of mg c) = checkPendingTimeout su io (deliver_events su io (start_recovery su io (worker_of mg c)))"
    by (rule idle_iteration [OF _ assms(7,3)]) (simp add: worker_of_def assms(6))
  ultimately have "st_pending_client_id (strat (worker_iteration su io (worker_of mg c))) = None"
    using deliver_clears [of "runRecovery su (io_getOrder io 0) w" cid] assms(4) e by simp
  then show ?thesis by (simp add: strat_def)
qed

text \<open>
  A recovery that gets no answer settles nothing: if all three queries for every active order fail, the engine, the budgets, the
  store, the strategy and the records are as before, so the order stays tracked and the next recovery asks again.
\<close>

theorem unanswered_recovery_settles_nothing:
  assumes "\<And>u k. 1 \<le> k \<Longrightarrow> k \<le> 3 \<Longrightarrow> \<exists>err. getOrder u k = Inl err"
  shows "runRecovery su getOrder w =
     w \<lparr> wk_ctx := (wk_ctx w) \<lparr> cx_tracking_pending := False, cx_pending_timeout_fired := False \<rparr> \<rparr>"
proof -
  have "queryOrderWithRetry (getOrder u) 1 3 = None" for u
    using assms [of 1 u] assms [of 2 u] assms [of 3 u] by (auto simp: numeral_3_eq_3 numeral_2_eq_2)
  then have "recover_order su getOrder u w = w" for u w by (simp add: recover_order_def)
  then show ?thesis by (simp add: runRecovery_def split_beta upd_ctx_def stop_tracking_def)
qed

text \<open>
  The mark that a timeout has been handled is never set between two iterations: the recovery it guards clears it
  again, so in every reachable state no market has it, and the guard in front of the timeout never skips anything.
\<close>

theorem timeout_mark_never_set:
  assumes "program L su mg" "map_of (mg_contexts mg) m = Some c"
  shows "\<not> cx_pending_timeout_fired c"
  using program_context [OF assms] by (simp add: context_ok_def)

text \<open>
  The program starts if and only if the exchange gives the account in one of the first \<open>sync_retry\<close> attempts; the
  account of the first success is what the budgets are built from; and then every configured market, however often it is listed,
  has exactly one context, with nothing pending and no worker yet. A failure of the second synchronisation does not stop it.
\<close>

theorem start_needs_account:
  "case manager_new cfg mcfg db boot markets env of
     Inl e \<Rightarrow> \<forall>k. 1 \<le> k \<and> k \<le> nat (mc_sync_retry mcfg) \<longrightarrow> (\<exists>err. bo_first_account boot k = Inl err)
   | Inr mg \<Rightarrow>
       (\<exists>k acc. 1 \<le> k \<and> k \<le> nat (mc_sync_retry mcfg) \<and> bo_first_account boot k = Inr acc \<and>
          (\<forall>j. 1 \<le> j \<and> j < k \<longrightarrow> (\<exists>err. bo_first_account boot j = Inl err)) \<and>
          ((\<forall>j. \<exists>err. bo_final_account boot j = Inl err) \<longrightarrow> env_am (mg_env mg) = rebuildFromAccount cfg acc (env_am env))) \<and>
       distinct (map fst (mg_contexts mg)) \<and> set (map fst (mg_contexts mg)) = set markets \<and> \<not> mg_started mg \<and>
       env_store (mg_env mg) = env_store env \<and>
       (\<forall>m c. map_of (mg_contexts mg) m = Some c \<longrightarrow> cx_market c = m \<and> cx_engine c = me_new m \<and>
          st_pending_client_id (cx_strategy c) = None \<and> bq_q (cx_event_queue c) = [] \<and> \<not> cx_worker c)"
proof -
  define n where "n = nat (mc_sync_retry mcfg)"
  define ctxs where "ctxs = fold (add_context mcfg db boot) markets []"
  define P where "P = (\<lambda>m (c :: MarketContext). cx_market c = m \<and> cx_engine c = me_new m \<and> st_pending_client_id (cx_strategy c) = None \<and>
      bq_q (cx_event_queue c) = [] \<and> \<not> cx_worker c)"
  have new: "P m (recoverMarketState boot (new_context mcfg db m))" for m
    by (simp add: P_def recoverMarketState_def new_context_def startup_run_def Let_def bq_new_def)
  have c: "distinct (map fst ctxs)" "\<forall>m c. map_of ctxs m = Some c \<longrightarrow> P m c" "set (map fst ctxs) = set markets"
    using add_contexts [of "[]" P, OF _ _ new, of markets] unfolding ctxs_def [symmetric] dom_map_of_conv_image_fst set_map
    by (simp_all del: split_paired_All)
  show ?thesis
  proof (cases "sync_attempts cfg (bo_first_account boot) 1 n (env_am env)")
    case None
    have all: "\<forall>j<n. \<exists>err. bo_first_account boot (1 + j) = Inl err" using None unfolding sync_attempts_None .
    have "\<exists>err. bo_first_account boot k = Inl err" if "1 \<le> k" "k \<le> n" for k
      using all [rule_format, of "k - 1"] that by simp
    moreover obtain e where "manager_new cfg mcfg db boot markets env = Inl e"
      using None by (simp add: manager_new_def rebuildAccountOnStartup_def n_def [symmetric])
    ultimately show ?thesis by (simp add: n_def)
  next
    case (Some am1)
    note first = sync_attempts_Some [OF Some]
    have final: "(\<forall>j. \<exists>err. bo_final_account boot j = Inl err) \<Longrightarrow> sync_attempts cfg (bo_final_account boot) 1 n am1 = None"
      by (simp add: sync_attempts_None)
    define am2 where "am2 = (case sync_attempts cfg (bo_final_account boot) 1 n am1 of Some am' \<Rightarrow> am' | None \<Rightarrow> am1)"
    have r: "manager_new cfg mcfg db boot markets env =
        Inr \<lparr> mg_contexts = ctxs, mg_started = False, mg_env = env \<lparr> env_am := am2 \<rparr>, mg_db = [] \<rparr>"
      using Some by (simp add: manager_new_def rebuildAccountOnStartup_def am2_def Let_def n_def [symmetric] ctxs_def [symmetric]
          split: option.split)
    have "(\<forall>j. \<exists>err. bo_final_account boot j = Inl err) \<longrightarrow> am2 = am1" using final by (simp add: am2_def)
    then show ?thesis using first c unfolding r sum.case n_def [symmetric] P_def
      by (intro conjI) (auto simp del: split_paired_All)
  qed
qed

end
