(* ===== verification/ProgramExamples.thy ===== *)
theory ProgramExamples
  imports ProgramProperties
begin

text \<open>
  One run of the whole program, on which the witnesses of \<open>ProgramProperties\<close> evaluate its theorems: a start with a position in one
  market, a price below the stop, the market sell the strategy decides on, and a reconnection.
\<close>

section \<open>The start\<close>

definition demo_account :: Account where
  "demo_account = \<lparr> a_id = ''inguk'', a_krw_free = 0, a_krw_locked = 0,
     a_positions = [\<lparr> p_currency = ''ADA'', p_free = D 100, p_avg_buy_price = D 200, p_unit_currency = ''KRW'' \<rparr>],
     a_totalAssetValue = 0 \<rparr>"

definition demo_env :: Env where
  "demo_env = \<lparr> env_am = (case am_new default_config demo_account [''KRW-ADA''] of Inr am \<Rightarrow> am), env_store = [] \<rparr>"

definition no_answer :: RestError where
  "no_answer = \<lparr> re_code = Timeout, re_message = [], re_http_status = 0 \<rparr>"

definition demo_boot :: Boot where
  "demo_boot = \<lparr> bo_first_account = (\<lambda>k. if k = 1 then Inl no_answer else Inr demo_account), bo_final_account = (\<lambda>_. Inl no_answer),
     bo_open_orders = (\<lambda>_ _. Inr []), bo_cancel = (\<lambda>_ _. Inr True), bo_account = (\<lambda>_. Inr demo_account) \<rparr>"

definition demo_candle :: CandleDto_Minute where
  "demo_candle = \<lparr> cd_market = ''KRW-ADA'', cd_candle_date_time_utc = [], cd_candle_date_time_kst = ''2025-01-01T09:00:00'',
     cd_opening_price = D 200, cd_high_price = D 200, cd_low_price = D 100, cd_trade_price = D 100, cd_timestamp = 0,
     cd_candle_acc_trade_price = 0, cd_candle_acc_trade_volume = 0, cd_unit = 1 \<rparr>"

definition demo_setup :: Setup where
  "demo_setup = \<lparr> su_cfg = default_config, su_manager = default_manager_config, su_db = False, su_read_order = (\<lambda>_. None),
     su_read_type = (\<lambda>_. Inr (Some ''candle.1s'')), su_read_candle = (\<lambda>_. Some demo_candle) \<rparr>"

definition demo_ledger :: ledger where
  "demo_ledger = (\<lambda>_. ''KRW-ADA'')"

definition demo_context :: MarketContext where
  "demo_context = recoverMarketState demo_boot (new_context default_manager_config False ''KRW-ADA'')"

definition demo_am :: AccountManager where
  "demo_am = rebuildFromAccount default_config demo_account (env_am demo_env)"

definition demo_start :: Manager where
  "demo_start = \<lparr> mg_contexts = [(''KRW-ADA'', demo_context \<lparr> cx_worker := True \<rparr>)], mg_started = True,
     mg_env = demo_env \<lparr> env_am := demo_am \<rparr>, mg_db = [] \<rparr>"

lemma demo_new:
  "manager_new default_config default_manager_config False demo_boot [''KRW-ADA'', ''KRW-ADA''] demo_env =
     Inr \<lparr> mg_contexts = [(''KRW-ADA'', demo_context)], mg_started = False, mg_env = demo_env \<lparr> env_am := demo_am \<rparr>, mg_db = [] \<rparr>"
proof -
  have three: "nat (mc_sync_retry default_manager_config) = Suc (Suc (Suc 0))" by (simp add: default_manager_config_def)
  show ?thesis
    unfolding manager_new_def rebuildAccountOnStartup_def three
    by (simp add: demo_boot_def demo_am_def add_context_def demo_context_def Let_def)
qed

lemma demo_setup_simps [simp]:
  "su_cfg demo_setup = default_config" "su_manager demo_setup = default_manager_config" "su_db demo_setup = False"
  "su_read_type demo_setup t = Inr (Some ''candle.1s'')" "su_read_candle demo_setup t = Some demo_candle"
  by (simp_all add: demo_setup_def)

lemma demo_store: "env_store demo_env = []"
  by (simp add: demo_env_def)

lemma program_demo_start: "program demo_ledger demo_setup demo_start"
proof -
  have "program demo_ledger demo_setup
      \<lparr> mg_contexts = [(''KRW-ADA'', demo_context)], mg_started = False, mg_env = demo_env \<lparr> env_am := demo_am \<rparr>, mg_db = [] \<rparr>"
    by (rule program.pr_new [of demo_env _ demo_boot "[''KRW-ADA'', ''KRW-ADA'']"]) (simp_all add: demo_new demo_store)
  then have "program demo_ledger demo_setup
      (start \<lparr> mg_contexts = [(''KRW-ADA'', demo_context)], mg_started = False, mg_env = demo_env \<lparr> env_am := demo_am \<rparr>, mg_db = [] \<rparr>)"
    by (rule program.pr_start)
  then show ?thesis by (simp add: start_def upd_contexts_def demo_start_def)
qed

lemma demo_strategy: "cx_strategy demo_context = holding_strategy"
proof -
  have "unitCurrency ''KRW-ADA'' = ''KRW''" "baseCurrency ''KRW-ADA'' = ''ADA''"
    by (simp_all add: unitCurrency_def baseCurrency_def)
  then have "buildPositionSnapshot (Inr demo_account) ''KRW-ADA'' = held"
    by (simp add: buildPositionSnapshot_def demo_account_def held_def)
  then show ?thesis
    by (simp add: demo_context_def recoverMarketState_def startup_run_def new_context_def default_manager_config_def
        demo_boot_def holding_strategy_def)
qed

lemma demo_context_simps [simp]:
  "cx_market demo_context = ''KRW-ADA''" "cx_engine demo_context = me_new ''KRW-ADA''" "cx_event_queue demo_context = bq_new 5000"
  "cx_pending_candle demo_context = None" "cx_recovery_requested demo_context = False" "cx_tracking_pending demo_context = False"
  "cx_pending_timeout_fired demo_context = False" "cx_pending_entered_at demo_context = 0" "cx_has_active_pending demo_context = False""cx_intrabar_fail_ts demo_context = None"
  by (simp_all add: demo_context_def recoverMarketState_def new_context_def default_manager_config_def)

lemma demo_budget: "\<exists>b. getBudget demo_am ''KRW-ADA'' = Some b \<and> mb_available_krw b = 0 \<and> mb_coin_balance b = D 100"
  by (simp add: demo_am_def demo_env_def am_new_def init_budgets_def distribute_krw_def markets_without_coin_def demo_account_def
      init_position_def zero_budget_def modify_def default_config_def rebuildFromAccount_def rebuild_budgets_def
      rebuild_position_def flat_markets_def getBudget_def Let_def)

lemma demo_snapshot: "buildAccountSnapshot ''KRW-ADA'' (demo_env \<lparr> env_am := demo_am \<rparr>) = sold_account"
  using demo_budget by (auto simp: buildAccountSnapshot_def sold_account_def)

section \<open>The stop\<close>

definition demo_io :: Outside where
  "demo_io = \<lparr> io_postOrder = (\<lambda>req. if rq_market req = ''KRW-ADA'' then Inr ''x1'' else Inl no_answer),
     io_getOrder = (\<lambda>_ _ _. Inl no_answer), io_uuid1 = [], io_uuid2 = ''u1'', io_now_ms = 0, io_clock1 = 0, io_clock2 = 0,
     io_arrived = [MarketDataRaw ''{}''] \<rparr>"

lemma demo_io_ok: "io_ok demo_ledger demo_setup demo_io"
  by (simp add: io_ok_def demo_io_def demo_ledger_def)

definition demo_request :: OrderRequest where
  "demo_request = the (dn_order (fst (onIntrabarCandle default_config ''u1'' (D 100) sold_account holding_strategy)))"

lemma demo_decision:
  "onIntrabarCandle default_config ''u1'' (D 100) sold_account holding_strategy = (submit_decision demo_request, selling_strategy)"
  using example_sell by (auto simp: demo_request_def submit_decision_def)

lemma demo_request_simps [simp]:
  "rq_market demo_request = ''KRW-ADA''" "rq_position demo_request = ASK" "rq_type demo_request = Market"
  "rq_size demo_request = VolumeSize (D 100)" "rq_price demo_request = None" "rq_identifier demo_request \<noteq> []"
  "st_pending_client_id selling_strategy = Some (rq_identifier demo_request)"
proof -
  have "dn_order (fst (onIntrabarCandle default_config ''u1'' (D 100) sold_account holding_strategy)) = Some demo_request"
    by (simp add: demo_decision submit_decision_def)
  from intrabar_order [OF this] show "rq_identifier demo_request \<noteq> []"
    "st_pending_client_id selling_strategy = Some (rq_identifier demo_request)"
    by (metis next_id_nonempty, metis demo_decision snd_conv)
next
  obtain tag where r: "demo_request = sell_order holding_strategy tag ''u1'' (D 100)"
    using example_sell by (auto simp: demo_decision submit_decision_def)
  show "rq_market demo_request = ''KRW-ADA''" "rq_position demo_request = ASK" "rq_type demo_request = Market"
    "rq_size demo_request = VolumeSize (D 100)" "rq_price demo_request = None"
    unfolding r by (simp_all add: sell_order_def holding_facts)
qed

text \<open>The context and the shared state after the iteration that sells.\<close>

definition demo_order :: Order where
  "demo_order = submitted_order demo_request ''x1''"

definition demo_selling :: Manager where
  "demo_selling = run_worker (worker_iteration demo_setup demo_io) ''KRW-ADA'' demo_start"

lemma demo_submit:
  assumes "me_market e = ''KRW-ADA''" "me_sell_uuid e = []" "me_buy_token e = None"
  shows "submit default_config (post_answer (io_postOrder demo_io)) demo_request (e, env) =
     (Success demo_order, e \<lparr> me_sell_uuid := ''x1'' \<rparr>, env \<lparr> env_store := os_upsert demo_order (env_store env) \<rparr>)"
  using assms
  by (simp add: submit_def validateRequest_def submit_reserve_def submit_finish_def post_answer_def demo_io_def demo_order_def Let_def)

definition demo_incoming :: Candle where
  "demo_incoming = toDomain_candle demo_candle"

lemma demo_intrabar:
  assumes "cx_market (wk_ctx w) = ''KRW-ADA''" "cx_engine (wk_ctx w) = me_new ''KRW-ADA''" "cx_strategy (wk_ctx w) = holding_strategy"
    "cx_intrabar_fail_ts (wk_ctx w) = None" "buildAccountSnapshot ''KRW-ADA'' (wk_env w) = sold_account"
  shows "doIntrabarCheck demo_setup demo_io (D 100) w =
     w \<lparr> wk_ctx := (wk_ctx w) \<lparr> cx_engine := (me_new ''KRW-ADA'') \<lparr> me_mark := D 100, me_sell_uuid := ''x1'' \<rparr>,
                               cx_strategy := selling_strategy \<rparr>,
         wk_env := (wk_env w) \<lparr> env_store := os_upsert demo_order (env_store (wk_env w)) \<rparr> \<rparr>"
proof -
  have d: "onIntrabarCandle default_config (io_uuid2 demo_io) (D 100) sold_account holding_strategy = (submit_decision demo_request, selling_strategy)"
    using demo_decision by (simp add: demo_io_def)
  have e: "me_market ((me_new ''KRW-ADA'') \<lparr> me_mark := D 100 \<rparr>) = ''KRW-ADA''" "me_sell_uuid ((me_new ''KRW-ADA'') \<lparr> me_mark := D 100 \<rparr>) = []"
    "me_buy_token ((me_new ''KRW-ADA'') \<lparr> me_mark := D 100 \<rparr>) = None" by (simp_all add: me_new_def)
  show ?thesis using assms d
    by (simp add: doIntrabarCheck_def Let_def eng_def set_eng_def strat_def set_strat_def upd_ctx_def setMarkPrice_def
        holding_facts submit_decision_def submit_order_def demo_submit [OF e] result_success)
qed

definition demo_sold_context :: MarketContext where
  "demo_sold_context = demo_context \<lparr> cx_worker := True, cx_pending_candle := Some demo_incoming,
     cx_engine := (me_new ''KRW-ADA'') \<lparr> me_mark := D 100, me_sell_uuid := ''x1'' \<rparr>, cx_strategy := selling_strategy,
     cx_tracking_pending := True, cx_has_active_pending := True \<rparr>"

definition demo_sold_env :: Env where
  "demo_sold_env = demo_env \<lparr> env_am := demo_am, env_store := os_upsert demo_order [] \<rparr>"

lemma demo_iteration:
  "worker_iteration demo_setup demo_io (worker_of demo_start (demo_context \<lparr> cx_worker := True \<rparr>)) =
     \<lparr> wk_ctx = demo_sold_context, wk_env = demo_sold_env, wk_db = [] \<rparr>"
proof -
  define w0 where "w0 = worker_of demo_start (demo_context \<lparr> cx_worker := True \<rparr>)"
  have c: "cx_event_queue (wk_ctx w0) = bq_new 5000" "\<not> cx_recovery_requested (wk_ctx w0)"
    by (simp_all add: w0_def worker_of_def)
  have 0: "start_recovery demo_setup demo_io w0 = w0" using c by (simp add: start_recovery_def)
  have q: "bq_pop_for (io_arrived demo_io) (cx_event_queue (wk_ctx w0)) = (Some (MarketDataRaw ''{}''), bq_new 5000)"
    unfolding c by (simp add: demo_io_def bq_push_def bq_new_def)
  have q0: "upd_ctx (\<lambda>c. c \<lparr> cx_event_queue := bq_new 5000 \<rparr>) w0 = w0" using c by (simp add: upd_ctx_def flip: c(1))
  define w1 where "w1 = upd_ctx (\<lambda>c. c \<lparr> cx_pending_candle := Some demo_incoming \<rparr>) w0"
  have "handleMarketData demo_setup demo_io ''{}'' w0 = Inr (doIntrabarCheck demo_setup demo_io (D 100) w1)"
    by (simp add: handleMarketData_def parseCandle_def starts_with_iff w0_def worker_of_def Let_def w1_def demo_incoming_def)
      (simp add: toDomain_candle_def demo_candle_def)
  moreover have "doIntrabarCheck demo_setup demo_io (D 100) w1 =
      \<lparr> wk_ctx = demo_sold_context \<lparr> cx_tracking_pending := False, cx_has_active_pending := False \<rparr>, wk_env = demo_sold_env, wk_db = [] \<rparr>"
    by (subst demo_intrabar)
      (simp_all add: w1_def w0_def upd_ctx_def worker_of_def demo_strategy demo_start_def demo_snapshot demo_sold_context_def
        demo_sold_env_def demo_store)
  ultimately have h: "handleOne demo_setup demo_io (MarketDataRaw ''{}'') w0 =
      Inr \<lparr> wk_ctx = demo_sold_context \<lparr> cx_tracking_pending := False, cx_has_active_pending := False \<rparr>, wk_env = demo_sold_env, wk_db = [] \<rparr>"
    by simp
  show ?thesis
    unfolding w0_def [symmetric] worker_iteration_def Let_def 0 q prod.case q0 option.case h sum.case
    by (simp add: deliver_events_def pollEvents_def handleEngineEvents_def checkPendingTimeout_def activePendingIds_def upd_ctx_def
        Let_def demo_sold_context_def me_new_def demo_io_def default_manager_config_def)
qed

lemma program_demo_selling: "program demo_ledger demo_setup demo_selling"
  unfolding demo_selling_def
  by (rule program.pr_iterate [OF program_demo_start _ _ demo_io_ok, where ctx = "demo_context \<lparr> cx_worker := True \<rparr>"])
    (simp_all add: demo_start_def)

lemma demo_selling_eq:
  "demo_selling = \<lparr> mg_contexts = [(''KRW-ADA'', demo_sold_context)], mg_started = True, mg_env = demo_sold_env, mg_db = [] \<rparr>"
proof -
  have "map_of (mg_contexts demo_start) ''KRW-ADA'' = Some (demo_context \<lparr> cx_worker := True \<rparr>)" by (simp add: demo_start_def)
  then have "demo_selling = put_worker ''KRW-ADA'' \<lparr> wk_ctx = demo_sold_context, wk_env = demo_sold_env, wk_db = [] \<rparr> demo_start"
    by (simp add: demo_selling_def run_worker_def demo_iteration)
  then show ?thesis by (simp add: put_worker_def modify_def demo_start_def)
qed

section \<open>The reconnection\<close>

definition demo_filled :: Order where
  "demo_filled = demo_order \<lparr> o_executed_volume := D 100, o_executed_funds := D 10000, o_status := Filled \<rparr>"

definition demo_answer :: Outside where
  "demo_answer = demo_io \<lparr> io_getOrder := (\<lambda>_ _ k. if k < 3 then Inl no_answer else Inr demo_filled), io_arrived := [] \<rparr>"

definition demo_reconnected :: MarketContext where
  "demo_reconnected = demo_sold_context \<lparr> cx_recovery_requested := True \<rparr>"

lemma demo_order_simps [simp]:
  "o_id demo_order = ''x1''" "o_market demo_order = ''KRW-ADA''" "o_position demo_order = ASK" "o_executed_volume demo_order = 0"
  "o_executed_funds demo_order = 0" "o_identifier demo_order = Some (rq_identifier demo_request)"
  by (simp_all add: demo_order_def) (simp_all add: submitted_order_def)

lemma demo_answer_ok: "io_ok demo_ledger demo_setup demo_answer"
  by (simp add: io_ok_def demo_answer_def demo_io_def demo_ledger_def honest_order_def demo_filled_def)

lemma demo_sold_simps [simp]:
  "cx_strategy demo_sold_context = selling_strategy" "me_buy_uuid (cx_engine demo_sold_context) = []"
  "me_sell_uuid (cx_engine demo_sold_context) = ''x1''" "cx_event_queue demo_sold_context = bq_new 5000"
  "cx_has_active_pending demo_sold_context" "cx_worker demo_sold_context"
  "env_store demo_sold_env = os_upsert demo_order []"
  by (simp_all add: demo_sold_context_def me_new_def demo_sold_env_def)

lemma demo_selling_context: "map_of (mg_contexts demo_selling) ''KRW-ADA'' = Some demo_sold_context"
  by (simp add: demo_selling_eq)

lemma program_demo_reconnected:
  "program demo_ledger demo_setup (requestReconnectRecovery demo_selling)"
  "map_of (mg_contexts (requestReconnectRecovery demo_selling)) ''KRW-ADA'' = Some demo_reconnected"
  "mg_env (requestReconnectRecovery demo_selling) = demo_sold_env"
  using program.pr_reconnect [OF program_demo_selling]
  by (simp_all add: requestReconnectRecovery_def upd_contexts_def demo_selling_eq demo_reconnected_def)

lemma demo_final: "final_answer (cx_engine demo_reconnected) demo_sold_env ''x1'' demo_filled"
  by (simp add: final_answer_def demo_reconnected_def demo_filled_def isDone_def status_done_def os_get_upsert dmax_def)

section \<open>Witnesses\<close>

theorem program_well_formed_witness:
  "cx_market demo_sold_context = ''KRW-ADA'' \<and> length (bq_q (cx_event_queue demo_sold_context)) \<le> 5000"
  using program_well_formed [OF program_demo_selling demo_selling_context]
  by (simp add: default_manager_config_def)

theorem waiting_order_is_tracked_witness:
  "st_pending_client_id (cx_strategy demo_sold_context) = Some (rq_identifier demo_request) \<and>
   (in_flight demo_ledger (rq_identifier demo_request) (cx_engine demo_sold_context, mg_env demo_selling) \<or>
      closing (rq_identifier demo_request) (cx_engine demo_sold_context))"
  using waiting_order_is_tracked [OF program_demo_selling demo_selling_context] by simp

theorem iteration_is_market_run_witness:
  "(market_step default_config demo_ledger ''KRW-ADA'')\<^sup>*\<^sup>*
     ((me_new ''KRW-ADA'', demo_env \<lparr> env_am := demo_am \<rparr>), holding_strategy)
     ((cx_engine demo_sold_context, demo_sold_env), selling_strategy)"
proof -
  have "map_of (mg_contexts demo_start) ''KRW-ADA'' = Some (demo_context \<lparr> cx_worker := True \<rparr>)" by (simp add: demo_start_def)
  from iteration_is_market_run [OF program_demo_start this demo_io_ok refl refl]
  show ?thesis by (simp add: demo_iteration demo_strategy) (simp add: demo_start_def)
qed

theorem lost_order_is_recovered_witness:
  "st_pending_client_id (cx_strategy demo_reconnected) = Some (rq_identifier demo_request) \<and>
   st_pending_client_id (cx_strategy (wk_ctx
     (worker_iteration demo_setup demo_answer (worker_of (requestReconnectRecovery demo_selling) demo_reconnected)))) = None"
proof -
  have q: "io_getOrder demo_answer 0 u 3 = Inr demo_filled" "1 \<le> j \<and> j < 3 \<longrightarrow> (\<exists>err. io_getOrder demo_answer 0 u j = Inl err)" for u j
    by (simp_all add: demo_answer_def)
  have "\<exists>k ord. 1 \<le> k \<and> k \<le> 3 \<and> io_getOrder demo_answer 0 u k = Inr ord \<and>
      final_answer (cx_engine demo_reconnected) (mg_env (requestReconnectRecovery demo_selling)) u ord \<and>
      (\<forall>j. 1 \<le> j \<and> j < k \<longrightarrow> (\<exists>err. io_getOrder demo_answer 0 u j = Inl err))"
    if "u \<noteq> []" "u = me_buy_uuid (cx_engine demo_reconnected) \<or> u = me_sell_uuid (cx_engine demo_reconnected)" for u
    using that q demo_final by (intro exI [of _ 3] exI [of _ demo_filled]) (auto simp: program_demo_reconnected demo_reconnected_def)
  then show ?thesis
    using lost_order_is_recovered [OF program_demo_reconnected(1,2) demo_answer_ok, of "rq_identifier demo_request"]
    by (simp add: demo_reconnected_def bq_new_def demo_answer_def)
qed

theorem unanswered_recovery_settles_nothing_witness:
  "runRecovery demo_setup (\<lambda>_ _. Inl no_answer) (worker_of demo_selling demo_sold_context) =
     worker_of demo_selling (demo_sold_context \<lparr> cx_tracking_pending := False, cx_pending_timeout_fired := False \<rparr>)"
  by (subst unanswered_recovery_settles_nothing) (simp_all add: worker_of_def)

theorem timeout_mark_never_set_witness: "\<not> cx_pending_timeout_fired demo_sold_context"
  by (rule timeout_mark_never_set [OF program_demo_selling demo_selling_context])

theorem start_needs_account_witness:
  "set (map fst [(''KRW-ADA'', demo_context)]) = set [''KRW-ADA'', ''KRW-ADA'']"
  using start_needs_account [where cfg = default_config and mcfg = default_manager_config and db = False and boot = demo_boot
      and markets = "[''KRW-ADA'', ''KRW-ADA'']" and env = demo_env]
  unfolding demo_new by simp

end
