(* ===== verification/WsClient.thy ===== *)
theory WsClient
  imports Rest Config "HOL-Library.AList"
begin

text \<open>
  The web socket client, \<open>src/src/api/ws/UpbitWebSocketClient.cpp\<close>: the command queue, the connection with its
  authorization, the subscriptions that are sent again after a reconnection, the backoff, and the read loop with its two
  heartbeats. The socket itself is a library, so what it answers during one round of the loop is the argument \<open>net\<close>: whether a
  connection stage, a write or a ping succeeds and whether the stream is open after it, what a read returns, and also the clock, the random
  draws and the stop requests. The text of a JSON value (\<open>dump\<close>) and the member \<open>status\<close> of a received text are the JSON
  library's. Logging is left out.
\<close>

section \<open>Commands and frames\<close>

datatype Command =
    CmdConnect string string string "string option"
  | CmdSubCandles string "string list" bool bool string
  | CmdSubMyOrder "string list" bool string

datatype json = JStr string | JBool bool | JArr "json list" | JObj "(string \<times> json) list"

definition buildCandleSubJsonFrame ::
    "(json \<Rightarrow> string) \<Rightarrow> string \<Rightarrow> string \<Rightarrow> string list \<Rightarrow> bool \<Rightarrow> bool \<Rightarrow> string \<Rightarrow> string" where
  "buildCandleSubJsonFrame dump ticket type markets is_only_snapshot is_only_realtime format =
     dump (JArr [JObj [(''ticket'', JStr ticket)],
                 JObj [(''type'', JStr type), (''codes'', JArr (map JStr markets)), (''is_only_snapshot'', JBool is_only_snapshot),
                       (''is_only_realtime'', JBool is_only_realtime)],
                 JObj [(''format'', JStr format)]])"

definition buildMyOrderSubJsonFrame :: "(json \<Rightarrow> string) \<Rightarrow> string \<Rightarrow> string list \<Rightarrow> bool \<Rightarrow> string \<Rightarrow> string" where
  "buildMyOrderSubJsonFrame dump ticket markets is_only_realtime format =
     dump (JArr [JObj [(''ticket'', JStr ticket)],
                 JObj [(''type'', JStr ''myOrder''), (''codes'', JArr (map JStr markets)), (''is_only_realtime'', JBool is_only_realtime)],
                 JObj [(''format'', JStr format)]])"

section \<open>State\<close>

datatype HeartbeatMode = NoHeartbeat | UpbitTextPing

text \<open>What the client did that others see, in one log: the host and port it resolves and connects to, the host it verifies in the TLS
  handshake, the host, target and authorization of the web socket handshake, a text frame written, a message handed on, the two
  callbacks, a wait before an attempt (ms).\<close>

datatype WsOut =
    Resolving string string
  | Securing string
  | Upgrading string string "string option"
  | Wrote string
  | Received string
  | Reconnected
  | FatalCall
  | Slept int

text \<open>\<open>ws_stream\<close> is \<open>None\<close> without a stream object and otherwise whether it is open. The subscriptions are an unordered map in the code, so the order of
  \<open>ws_last_sub_frames\<close> is one of its possible orders. Times are milliseconds.\<close>

record WsClient =
  ws_stream :: "bool option"
  ws_ping_interval :: int
  ws_heartbeat_mode :: HeartbeatMode
  ws_heartbeat_interval :: int
  ws_reconnect_min_backoff :: int
  ws_reconnect_max_backoff :: int
  ws_reconnect_jitter_ratio :: double
  ws_reconnect_failures :: "32 word"
  ws_host :: string
  ws_port :: string
  ws_target :: string
  ws_bearer_jwt :: "string option"
  ws_last_sub_frames :: "(string \<times> string) list"
  ws_cmd_q :: "Command list"
  ws_on_msg :: bool
  ws_on_reconnect :: bool
  ws_fatal_cb :: bool
  ws_out :: "WsOut list"

definition ws_new :: WsClient where
  "ws_new = \<lparr> ws_stream = None, ws_ping_interval = 25000, ws_heartbeat_mode = NoHeartbeat,
     ws_heartbeat_interval = 60000, ws_reconnect_min_backoff = 500, ws_reconnect_max_backoff = 30000,
     ws_reconnect_jitter_ratio = D (20 / 100), ws_reconnect_failures = 0, ws_host = [], ws_port = [], ws_target = [],
     ws_bearer_jwt = None, ws_last_sub_frames = [], ws_cmd_q = [], ws_on_msg = False, ws_on_reconnect = False,
     ws_fatal_cb = False, ws_out = [] \<rparr>"

definition setHeartbeatMode :: "HeartbeatMode \<Rightarrow> WsClient \<Rightarrow> WsClient" where
  "setHeartbeatMode mode c = c \<lparr> ws_heartbeat_mode := mode \<rparr>"

definition setHeartbeatInterval :: "int \<Rightarrow> WsClient \<Rightarrow> WsClient" where
  "setHeartbeatInterval s c = c \<lparr> ws_heartbeat_interval := 1000 * s \<rparr>"

definition setMessageHandler :: "WsClient \<Rightarrow> WsClient" where
  "setMessageHandler c = c \<lparr> ws_on_msg := True \<rparr>"

definition setReconnectCallback :: "WsClient \<Rightarrow> WsClient" where
  "setReconnectCallback c = c \<lparr> ws_on_reconnect := True \<rparr>"

definition setFatalCallback :: "WsClient \<Rightarrow> WsClient" where
  "setFatalCallback c = c \<lparr> ws_fatal_cb := True \<rparr>"

definition pushCommand :: "Command \<Rightarrow> WsClient \<Rightarrow> WsClient" where
  "pushCommand cmd c = c \<lparr> ws_cmd_q := ws_cmd_q c @ [cmd] \<rparr>"

definition connectPublic :: "string \<Rightarrow> string \<Rightarrow> string \<Rightarrow> WsClient \<Rightarrow> WsClient" where
  "connectPublic host port target = pushCommand (CmdConnect host port target None)"

definition connectPrivate :: "string \<Rightarrow> string \<Rightarrow> string \<Rightarrow> string \<Rightarrow> WsClient \<Rightarrow> WsClient" where
  "connectPrivate host port target bearer_jwt = pushCommand (CmdConnect host port target (Some bearer_jwt))"

definition subscribeCandles :: "string \<Rightarrow> string list \<Rightarrow> bool \<Rightarrow> bool \<Rightarrow> string \<Rightarrow> WsClient \<Rightarrow> WsClient" where
  "subscribeCandles type markets is_only_snapshot is_only_realtime format =
     pushCommand (CmdSubCandles type markets is_only_snapshot is_only_realtime format)"

definition subscribeMyOrder :: "string list \<Rightarrow> bool \<Rightarrow> string \<Rightarrow> WsClient \<Rightarrow> WsClient" where
  "subscribeMyOrder markets is_only_realtime format = pushCommand (CmdSubMyOrder markets is_only_realtime format)"

section \<open>Connecting\<close>

record Stages =
  sg_resolve :: bool
  sg_tcp :: bool
  sg_sni :: bool
  sg_tls :: bool
  sg_handshake :: bool

definition emit :: "WsOut \<Rightarrow> WsClient \<Rightarrow> WsClient" where
  "emit x c = c \<lparr> ws_out := ws_out c @ [x] \<rparr>"

definition is_open :: "WsClient \<Rightarrow> bool" where
  "is_open c \<longleftrightarrow> ws_stream c = Some True"

definition resetStream :: "WsClient \<Rightarrow> WsClient" where
  "resetStream c = c \<lparr> ws_stream := Some False \<rparr>"

definition connectImpl :: "Stages \<Rightarrow> string \<Rightarrow> string \<Rightarrow> string \<Rightarrow> string option \<Rightarrow> WsClient \<Rightarrow> WsClient" where
  "connectImpl sg host port target bearer_jwt c =
     (let c1 = emit (Resolving host port)
                 (resetStream (c \<lparr> ws_host := host, ws_port := port, ws_target := target, ws_bearer_jwt := bearer_jwt \<rparr>))
      in if \<not> sg_resolve sg then c1
         else if \<not> sg_tcp sg then c1
         else if \<not> sg_sni sg then c1
         else
           let c2 = emit (Securing host) c1
           in if \<not> sg_tls sg then c2
              else
                let c3 = emit (Upgrading host target (ws_bearer_jwt c2)) c2
                in if \<not> sg_handshake sg then c3 else c3 \<lparr> ws_stream := Some True \<rparr>)"

text \<open>A write answers whether it succeeded and whether the stream is open after it.\<close>

definition sendTextFrame :: "bool \<times> bool \<Rightarrow> string \<Rightarrow> WsClient \<Rightarrow> bool \<times> WsClient" where
  "sendTextFrame answer text c =
     (if \<not> is_open c then (False, c)
      else let c1 = c \<lparr> ws_stream := Some (snd answer) \<rparr>
           in if \<not> fst answer then (False, c1) else (True, emit (Wrote text) c1))"

fun send_frames :: "(nat \<Rightarrow> bool \<times> bool) \<Rightarrow> nat \<Rightarrow> (string \<times> string) list \<Rightarrow> WsClient \<Rightarrow> WsClient" where
  "send_frames answer i [] c = c"
| "send_frames answer i ((key, frame) # frames) c = send_frames answer (i + 1) frames (snd (sendTextFrame (answer i) frame c))"

definition resubscribeAll :: "(nat \<Rightarrow> bool \<times> bool) \<Rightarrow> WsClient \<Rightarrow> WsClient" where
  "resubscribeAll answer c = send_frames answer 0 (ws_last_sub_frames c) c"

section \<open>Reconnecting\<close>

text \<open>The range of the uniform distribution, in milliseconds.\<close>

definition computeReconnectDelay :: "WsClient \<Rightarrow> int \<times> int" where
  "computeReconnectDelay c =
     (let f = ws_reconnect_failures c;
          backoff_exp = min (unat (if 0 < f then f - 1 else 0)) 10;
          base_ms = ws_reconnect_min_backoff c * 2 ^ backoff_exp;
          capped = min base_ms (ws_reconnect_max_backoff c);
          j = dmax 0 (ws_reconnect_jitter_ratio c);
          lo = max 0 (to_long_long (D (of_int capped) * (1 - j)));
          hi = max (lo + 1) (to_long_long (D (of_int capped) * (1 + j)))
      in (lo, hi))"

text \<open>The sleep in slices of at most 50 ms; \<open>stop i\<close> is whether the stop request is seen before slice \<open>i\<close>. The result is
  the time slept.\<close>

function sleep_slices :: "(nat \<Rightarrow> bool) \<Rightarrow> nat \<Rightarrow> int \<Rightarrow> int" where
  "sleep_slices stop i remaining =
     (if 0 < remaining \<and> \<not> stop i
      then min remaining 50 + sleep_slices stop (i + 1) (remaining - min remaining 50)
      else 0)"
  by pat_completeness auto

termination by (relation "measure (\<lambda>(stop, i, remaining). nat remaining)") auto

declare sleep_slices.simps [simp del]

record Attempt =
  at_stop_before :: bool
  at_draw :: "int \<Rightarrow> int \<Rightarrow> int"
  at_stop_slice :: "nat \<Rightarrow> bool"
  at_stop_after :: bool
  at_stages :: Stages
  at_write :: "nat \<Rightarrow> bool \<times> bool"

definition reconnectOnce :: "Attempt \<Rightarrow> WsClient \<Rightarrow> bool \<times> WsClient" where
  "reconnectOnce a c =
     (if at_stop_before a then (False, c)
      else
        let c1 = c \<lparr> ws_reconnect_failures := ws_reconnect_failures c + 1 \<rparr>;
            (lo, hi) = computeReconnectDelay c1;
            c2 = emit (Slept (sleep_slices (at_stop_slice a) 0 (at_draw a lo hi))) c1
        in if at_stop_after a then (False, c2)
           else
             let c3 = c2 \<lparr> ws_stream := None \<rparr>;
                 c4 = connectImpl (at_stages a) (ws_host c3) (ws_port c3) (ws_target c3) (ws_bearer_jwt c3) c3
             in if is_open c4 then (True, c4 \<lparr> ws_reconnect_failures := 0 \<rparr>) else (False, c4))"

section \<open>The read loop\<close>

record Loop =
  lp_client :: WsClient
  lp_next_ping :: int
  lp_next_text_hb :: int
  lp_give_up :: bool

text \<open>The lambda of \<open>runReadLoop_\<close>.\<close>

definition doReconnect :: "AppConfig \<Rightarrow> Attempt \<Rightarrow> Loop \<Rightarrow> Loop" where
  "doReconnect cfg a s =
     (case reconnectOnce a (lp_client s) of
        (True, c) \<Rightarrow>
          (let c1 = resubscribeAll (at_write a) c
           in s \<lparr> lp_client := (if ws_on_reconnect c1 then emit Reconnected c1 else c1) \<rparr>)
      | (False, c) \<Rightarrow>
          if 0 < max_reconnect_attempts cfg \<and> word_of_int (max_reconnect_attempts cfg) \<le> ws_reconnect_failures c
          then s \<lparr> lp_client := (if ws_fatal_cb c then emit FatalCall c else c), lp_give_up := True \<rparr>
          else s \<lparr> lp_client := c \<rparr>)"

record CmdNet =
  cn_stages :: Stages
  cn_ticket :: string
  cn_write :: "nat \<Rightarrow> bool \<times> bool"

fun run_command :: "(json \<Rightarrow> string) \<Rightarrow> CmdNet \<Rightarrow> Command \<Rightarrow> WsClient \<Rightarrow> WsClient" where
  "run_command dump n (CmdConnect host port target bearer_jwt) c =
     (let c1 = connectImpl (cn_stages n) host port target bearer_jwt c
      in if is_open c1 then resubscribeAll (cn_write n) c1 else c1)"
| "run_command dump n (CmdSubCandles type markets snapshot realtime format) c =
     (let frame = buildCandleSubJsonFrame dump (cn_ticket n) type markets snapshot realtime format
      in snd (sendTextFrame (cn_write n 0) frame (c \<lparr> ws_last_sub_frames := AList.update type frame (ws_last_sub_frames c) \<rparr>)))"
| "run_command dump n (CmdSubMyOrder markets realtime format) c =
     (let frame = buildMyOrderSubJsonFrame dump (cn_ticket n) markets realtime format
      in snd (sendTextFrame (cn_write n 0) frame (c \<lparr> ws_last_sub_frames := AList.update ''myOrder'' frame (ws_last_sub_frames c) \<rparr>)))"

fun run_commands :: "(json \<Rightarrow> string) \<Rightarrow> (nat \<Rightarrow> CmdNet) \<Rightarrow> nat \<Rightarrow> Command list \<Rightarrow> WsClient \<Rightarrow> WsClient" where
  "run_commands dump net i [] c = c"
| "run_commands dump net i (cmd # cmds) c = run_commands dump net (i + 1) cmds (run_command dump (net i) cmd c)"

datatype ReadResult = ReadAborted | ReadTimeout | ReadError | ReadMsg string

record Net =
  nt_cmd :: "nat \<Rightarrow> CmdNet"
  nt_stop_after_commands :: bool
  nt_now :: int
  nt_ping :: "bool \<times> bool"
  nt_stop_ping :: bool
  nt_ping_attempt :: Attempt
  nt_heartbeat :: "bool \<times> bool"
  nt_heartbeat_attempt :: Attempt
  nt_stop_before_read :: bool
  nt_read :: ReadResult
  nt_read_open :: bool
  nt_stop_read :: bool
  nt_read_attempt :: Attempt

definition control_ping :: "AppConfig \<Rightarrow> Net \<Rightarrow> Loop \<Rightarrow> Loop" where
  "control_ping cfg net s =
     (if lp_next_ping s \<le> nt_now net then
        (let s1 = s \<lparr> lp_next_ping := nt_now net + ws_ping_interval (lp_client s),
                       lp_client := (lp_client s) \<lparr> ws_stream := Some (snd (nt_ping net)) \<rparr> \<rparr>
         in if fst (nt_ping net) then s1
            else if \<not> nt_stop_ping net then doReconnect cfg (nt_ping_attempt net) s1 else s1)
      else s)"

definition text_heartbeat :: "AppConfig \<Rightarrow> Net \<Rightarrow> Loop \<Rightarrow> Loop" where
  "text_heartbeat cfg net s =
     (if ws_heartbeat_mode (lp_client s) = UpbitTextPing \<and> lp_next_text_hb s \<le> nt_now net then
        (let s1 = s \<lparr> lp_next_text_hb := nt_now net + ws_heartbeat_interval (lp_client s) \<rparr>;
             (ok, c) = sendTextFrame (nt_heartbeat net) ''PING'' (lp_client s1);
             s2 = s1 \<lparr> lp_client := c \<rparr>
         in if \<not> ok then doReconnect cfg (nt_heartbeat_attempt net) s2 else s2)
      else s)"

definition keepalive :: "AppConfig \<Rightarrow> Net \<Rightarrow> Loop \<Rightarrow> Loop" where
  "keepalive cfg net s = (if is_open (lp_client s) then text_heartbeat cfg net (control_ping cfg net s) else s)"

text \<open>Whether a text contains another (\<open>std::string::find\<close>).\<close>

fun contains :: "string \<Rightarrow> string \<Rightarrow> bool" where
  "contains [] p \<longleftrightarrow> p = []"
| "contains (c # s) p \<longleftrightarrow> starts_with (c # s) p \<or> contains s p"

text \<open>\<open>status msg\<close>: the text is a JSON object and this is its member \<open>status\<close> (or the default \<open>''''\<close>).\<close>

definition status_up :: "(string \<Rightarrow> string option) \<Rightarrow> string \<Rightarrow> bool" where
  "status_up status msg \<longleftrightarrow> contains msg ([CHR 0x22] @ ''status'' @ [CHR 0x22]) \<and> status msg = Some ''UP''"

text \<open>The result says whether the loop goes on.\<close>

definition read_message :: "AppConfig \<Rightarrow> (string \<Rightarrow> string option) \<Rightarrow> Net \<Rightarrow> Loop \<Rightarrow> bool \<times> Loop" where
  "read_message cfg status net s =
     (let s1 = s \<lparr> lp_client := (lp_client s) \<lparr> ws_stream := Some (nt_read_open net) \<rparr> \<rparr>
      in case nt_read net of
           ReadAborted \<Rightarrow> (False, s1)
         | ReadTimeout \<Rightarrow> (\<not> nt_stop_read net, s1)
         | ReadError \<Rightarrow> if nt_stop_read net then (False, s1) else (True, doReconnect cfg (nt_read_attempt net) s1)
         | ReadMsg msg \<Rightarrow>
             if status_up status msg then (True, s1)
             else (True, s1 \<lparr> lp_client := (if ws_on_msg (lp_client s1) then emit (Received msg) (lp_client s1) else lp_client s1) \<rparr>))"

definition loop_iteration ::
    "AppConfig \<Rightarrow> (json \<Rightarrow> string) \<Rightarrow> (string \<Rightarrow> string option) \<Rightarrow> Net \<Rightarrow> Loop \<Rightarrow> bool \<times> Loop" where
  "loop_iteration cfg dump status net s =
     (let c = lp_client s;
          s1 = s \<lparr> lp_client := run_commands dump (nt_cmd net) 0 (ws_cmd_q c) (c \<lparr> ws_cmd_q := [] \<rparr>) \<rparr>
      in if nt_stop_after_commands net then (False, s1)
         else
           let s2 = keepalive cfg net s1
           in if lp_give_up s2 then (False, s2)
              else if \<not> is_open (lp_client s2) then
                (True, if ws_host (lp_client s2) \<noteq> [] \<and> \<not> nt_stop_before_read net
                       then doReconnect cfg (nt_read_attempt net) s2 else s2)
              else read_message cfg status net s2)"

text \<open>The loop over the rounds before the stop request; the close at the end is for the exits without one.\<close>

fun read_loop ::
    "AppConfig \<Rightarrow> (json \<Rightarrow> string) \<Rightarrow> (string \<Rightarrow> string option) \<Rightarrow> Net list \<Rightarrow> Loop \<Rightarrow> Loop" where
  "read_loop cfg dump status [] s = s"
| "read_loop cfg dump status (net # nets) s =
     (if lp_give_up s then s
      else case loop_iteration cfg dump status net s of
        (False, s1) \<Rightarrow> s1
      | (True, s1) \<Rightarrow> read_loop cfg dump status nets s1)"

definition start_loop :: "int \<Rightarrow> WsClient \<Rightarrow> Loop" where
  "start_loop now c = \<lparr> lp_client = c, lp_next_ping = now + ws_ping_interval c, lp_next_text_hb = now + ws_heartbeat_interval c,
     lp_give_up = False \<rparr>"

definition runReadLoop ::
    "AppConfig \<Rightarrow> (json \<Rightarrow> string) \<Rightarrow> (string \<Rightarrow> string option) \<Rightarrow> int \<Rightarrow> Net list \<Rightarrow> bool \<Rightarrow> WsClient \<Rightarrow> WsClient" where
  "runReadLoop cfg dump status now nets stop_requested c =
     (let c1 = lp_client (read_loop cfg dump status nets (start_loop now c))
      in if \<not> stop_requested \<and> is_open c1 then c1 \<lparr> ws_stream := Some False \<rparr> else c1)"

end
