(* ===== verification/WsProperties.thy ===== *)
theory WsProperties
  imports WsClient Prelude "HOL-Library.Sublist"
begin

text \<open>
  What the web socket client guarantees: the range of its backoff, that a reconnection restores every subscription, that it gives up after
  exactly the configured number of failed attempts, and that it hands on the messages it reads, in order, and nothing else. The last
  section is the round of the loop in which it attempts a reconnection after having given up.
\<close>

section \<open>The backoff\<close>

lemma D_between:
  assumes "rep a" "rep b" "a \<le> q" "q \<le> b"
  shows "fin (D q)" "a \<le> val (D q)" "val (D q) \<le> b"
proof -
  have ab: "fin (D a)" "fin (D b)" "val (D a) = a" "val (D b) = b" using assms(1,2) by (simp_all add: fin_D)
  note le = D_mono [OF assms(3)] D_mono [OF assms(4)]
  show f: "fin (D q)" by (rule fin_between [OF ab(1,2) le])
  show "a \<le> val (D q)" "val (D q) \<le> b" using le unfolding fin_val_le [OF ab(1) f] fin_val_le [OF f ab(2)] ab .
qed

lemma rep_16: "\<bar>m\<bar> \<le> 2 ^ 53 \<Longrightarrow> rep (of_int m / 65536)"
  using rep_dyadic [of m 16] by simp

lemma jitter_factors:
  "fin (1 - D (1 / 5)) \<and> 52428 / 65536 \<le> val (1 - D (1 / 5)) \<and> val (1 - D (1 / 5)) \<le> 52429 / 65536"
  "fin (1 + D (1 / 5)) \<and> 78643 / 65536 \<le> val (1 + D (1 / 5)) \<and> val (1 + D (1 / 5)) \<le> 78644 / 65536"
proof -
  have r: "rep (13107 / 65536)" "rep (13108 / 65536)" "rep (52428 / 65536)" "rep (52429 / 65536)" "rep (78643 / 65536)" "rep (78644 / 65536)"
    using rep_16 [of 13107] rep_16 [of 13108] rep_16 [of 52428] rep_16 [of 52429] rep_16 [of 78643] rep_16 [of 78644]
    unfolding of_int_numeral by simp_all
  define v where "v = val (D (1 / 5))"
  have v: "fin (D (1 / 5))" "13107 / 65536 \<le> v" "v \<le> 13108 / 65536"
    unfolding v_def by (rule D_between [OF r(1,2)]; simp)+
  have e: "1 - D (1 / 5) = D (1 - v)" "1 + D (1 / 5) = D (1 + v)"
    using v(1) by (simp_all add: fin_diff fin_add v_def)
  have q: "52428 / 65536 \<le> 1 - v" "1 - v \<le> 52429 / 65536" "78643 / 65536 \<le> 1 + v" "1 + v \<le> 78644 / 65536"
    using v(2,3) by simp_all
  show "fin (1 - D (1 / 5)) \<and> 52428 / 65536 \<le> val (1 - D (1 / 5)) \<and> val (1 - D (1 / 5)) \<le> 52429 / 65536"
    unfolding e using D_between [OF r(3,4) q(1,2)] by blast
  show "fin (1 + D (1 / 5)) \<and> 78643 / 65536 \<le> val (1 + D (1 / 5)) \<and> val (1 + D (1 / 5)) \<le> 78644 / 65536"
    unfolding e using D_between [OF r(5,6) q(3,4)] by blast
qed

text \<open>A product with a factor close to \<open>n / 5\<close>.\<close>

lemma scaled_delay:
  assumes "fin A" "of_int n - 1 / 6000 \<le> 5 * val A" "5 * val A \<le> of_int n + 1 / 6000" "0 < d" "d \<le> 6000" "1 \<le> n" "n \<le> 6"
  shows "n * d - 1 \<le> to_long_long (D (of_int (5 * d)) * A) \<and> to_long_long (D (of_int (5 * d)) * A) \<le> n * d + 1"
proof -
  define q where "q = of_int (5 * d) * val A"
  have nd: "n * d \<le> 6 * 6000" by (rule mult_mono) (use assms(4-7) in simp_all)
  have nd1: "1 \<le> n * d" using assms(4,6) mult_pos_pos [of n d] by linarith
  have "rep (of_int (5 * d))" by (rule rep_int) (use assms(4,5) in simp)
  then have p: "D (of_int (5 * d)) * A = D q" using assms(1) by (simp add: fin_mult q_def fin_D)
  have d: "(0::rat) < of_int d" "of_int d \<le> (6000::rat)" using assms(4,5) of_int_le_iff [of d 6000, where 'a = rat] by simp_all
  have "of_int d * (of_int n - 1 / 6000) \<le> of_int d * (5 * val A)" "of_int d * (5 * val A) \<le> of_int d * (of_int n + 1 / 6000)"
    using d(1) assms(2,3) by (simp_all add: mult_left_mono)
  moreover have "of_int d * (1 / 6000) \<le> (1::rat)" using d(2) by simp
  ultimately have q: "of_int (n * d - 1) \<le> q" "q \<le> of_int (n * d + 1)"
    by (simp_all add: algebra_simps q_def)
  have r: "rep (of_int (n * d - 1))" "rep (of_int (n * d + 1))" by (rule rep_int, use nd nd1 in simp)+
  note v = D_between [OF r q]
  have "(0::rat) \<le> of_int (n * d - 1)" unfolding of_int_0_le_iff using nd1 by simp
  then have 0: "0 \<le> val (D q)" using v(2) by linarith
  have fl: "n * d - 1 \<le> \<lfloor>val (D q)\<rfloor>" "\<lfloor>val (D q)\<rfloor> \<le> n * d + 1"
    using v(2) v(3) by (simp add: le_floor_iff, metis floor_mono floor_of_int)
  have "to_long_long (D q) = \<lfloor>val (D q)\<rfloor>"
  proof -
    have "(36002 :: int) < 2 ^ 63" by simp
    then have "- (2 ^ 63) \<le> \<lfloor>val (D q)\<rfloor>" "\<lfloor>val (D q)\<rfloor> < 2 ^ 63" using fl nd nd1 by linarith+
    then show ?thesis unfolding to_long_long_def Let_def if_P [OF 0] using v(1) by (intro if_P conjI)
  qed
  then show ?thesis using fl unfolding p by simp
qed

text \<open>
  C34: The wait before a reconnection doubles and is bounded: with the initial settings the range drawn from after \<open>f\<close> failed
  attempts is, up to one millisecond, 80 to 120 percent of 500 ms doubled \<open>f - 1\<close> times, and of at most 30 s, in the double arithmetic
  of the code; the range is never empty.
\<close>

theorem reconnect_delay_bounds:
  assumes "ws_reconnect_min_backoff c = 500" "ws_reconnect_max_backoff c = 30000" "ws_reconnect_jitter_ratio c = D (20 / 100)"
    "ws_reconnect_failures c = of_nat f" "1 \<le> f" "f < 2 ^ 32" "computeReconnectDelay c = (lo, hi)"
  shows "lo < hi \<and> (let capped = min (500 * 2 ^ (f - 1)) 30000
     in 4 * capped - 5 \<le> 5 * lo \<and> 5 * lo \<le> 4 * capped + 5 \<and> 6 * capped - 5 \<le> 5 * hi \<and> 5 * hi \<le> 6 * capped + 5)"
proof -
  define k where "k = min (f - 1) 10"
  define d where "d = min (100 * 2 ^ k) (6000 :: int)"
  have k: "min (unat (if 0 < ws_reconnect_failures c then ws_reconnect_failures c - 1 else 0)) 10 = k"
  proof -
    have "unat (ws_reconnect_failures c) = f" using assms(4,6) by (simp add: unat_of_nat take_bit_nat_eq_self)
    moreover from this have p: "0 < ws_reconnect_failures c" using assms(5) by (simp add: word_less_nat_alt)
    moreover from p have "unat (ws_reconnect_failures c - 1) = unat (ws_reconnect_failures c) - 1"
      by (intro unat_minus_one) auto
    ultimately show ?thesis by (simp add: k_def)
  qed
  have d: "min (500 * 2 ^ k) 30000 = 5 * d" "0 < d" "d \<le> 6000" by (simp_all add: d_def min_def)
  have c: "min (500 * 2 ^ (f - 1)) (30000 :: int) = 5 * d"
  proof (cases "f - 1 \<le> 10")
    case False
    then have "(2::int) ^ 10 \<le> 2 ^ (f - 1)" by (intro power_increasing) simp_all
    then show ?thesis using False by (simp add: d_def k_def min_def)
  qed (use d(1) in \<open>simp add: k_def\<close>)
  have j: "dmax 0 (ws_reconnect_jitter_ratio c) = D (1 / 5)"
  proof -
    have "D (20 / 100) = D (1 / 5)" by simp
    moreover have "0 \<le> D (1 / 5)" by (rule D_nonneg) simp
    ultimately show ?thesis using assms(3) D_pos [of "1 / 5"] by (simp add: dmax_def)
  qed
  let ?l = "to_long_long (D (of_int (5 * d)) * (1 - D (1 / 5)))" and ?h = "to_long_long (D (of_int (5 * d)) * (1 + D (1 / 5)))"
  have l: "4 * d - 1 \<le> ?l" "?l \<le> 4 * d + 1"
    using scaled_delay [of "1 - D (1 / 5)" 4 d] jitter_factors(1) d(2,3) by auto
  have h: "6 * d - 1 \<le> ?h" "?h \<le> 6 * d + 1"
    using scaled_delay [of "1 + D (1 / 5)" 6 d] jitter_factors(2) d(2,3) by auto
  have "d \<ge> 100" by (simp add: d_def)
  then have "lo = ?l" "hi = ?h"
    using assms(7) l h unfolding computeReconnectDelay_def Let_def k assms(1,2) d(1) j by auto
  then show ?thesis using l h \<open>d \<ge> 100\<close> unfolding Let_def c by auto
qed

section \<open>Subscriptions\<close>

lemma send_all:
  assumes "\<And>i. answer i = (True, True)"
  shows "is_open c \<Longrightarrow> send_frames answer i frames c = c \<lparr> ws_out := ws_out c @ map (\<lambda>f. Wrote (snd f)) frames \<rparr>"
proof (induction frames arbitrary: i c)
  case (Cons f frames)
  have "sendTextFrame (answer i) (snd f) c = (True, c \<lparr> ws_out := ws_out c @ [Wrote (snd f)] \<rparr>)"
    using Cons.prems assms by (simp add: sendTextFrame_def is_open_def emit_def)
  then show ?case using Cons by (cases f) (simp add: is_open_def)
qed simp

text \<open>What an attempt to connect leaves in the log: as many stages as it reaches, each with its parameters.\<close>

definition dial_log :: "Stages \<Rightarrow> string \<Rightarrow> string \<Rightarrow> string \<Rightarrow> string option \<Rightarrow> WsOut list" where
  "dial_log sg host port target jwt =
     Resolving host port #
     (if sg_resolve sg \<and> sg_tcp sg \<and> sg_sni sg
      then Securing host # (if sg_tls sg then [Upgrading host target jwt] else []) else [])"

lemma connect_log: "ws_out (connectImpl sg host port target jwt c) = ws_out c @ dial_log sg host port target jwt"
  by (simp add: connectImpl_def resetStream_def emit_def dial_log_def Let_def)

text \<open>The endpoint an entry of the log has to do with.\<close>

fun dials_to :: "string \<Rightarrow> string \<Rightarrow> string \<Rightarrow> string option \<Rightarrow> WsOut \<Rightarrow> bool" where
  "dials_to host port target jwt (Resolving h p) \<longleftrightarrow> h = host \<and> p = port"
| "dials_to host port target jwt (Securing h) \<longleftrightarrow> h = host"
| "dials_to host port target jwt (Upgrading h t j) \<longleftrightarrow> h = host \<and> t = target \<and> j = jwt"
| "dials_to host port target jwt x \<longleftrightarrow> True"


definition same_endpoint :: "WsClient \<Rightarrow> WsClient \<Rightarrow> bool" where
  "same_endpoint c c' \<longleftrightarrow>
     ws_host c = ws_host c' \<and> ws_port c = ws_port c' \<and> ws_target c = ws_target c' \<and> ws_bearer_jwt c = ws_bearer_jwt c'"

lemma dial_log_dials: "x \<in> set (dial_log sg host port target jwt) \<Longrightarrow> dials_to host port target jwt x"
  by (auto simp: dial_log_def split: if_splits)

text \<open>The frames a list of commands asks for, in order, each with its key.\<close>

fun sub_frames :: "(json \<Rightarrow> string) \<Rightarrow> (nat \<Rightarrow> CmdNet) \<Rightarrow> nat \<Rightarrow> Command list \<Rightarrow> (string \<times> string) list" where
  "sub_frames dump net i [] = []"
| "sub_frames dump net i (CmdConnect host port target jwt # cmds) = sub_frames dump net (i + 1) cmds"
| "sub_frames dump net i (CmdSubCandles type markets snapshot realtime format # cmds) =
     (type, buildCandleSubJsonFrame dump (cn_ticket (net i)) type markets snapshot realtime format) # sub_frames dump net (i + 1) cmds"
| "sub_frames dump net i (CmdSubMyOrder markets realtime format # cmds) =
     (''myOrder'', buildMyOrderSubJsonFrame dump (cn_ticket (net i)) markets realtime format) # sub_frames dump net (i + 1) cmds"

lemma send_keeps [simp]:
  "ws_last_sub_frames (snd (sendTextFrame ans text c)) = ws_last_sub_frames c"
  "ws_on_msg (snd (sendTextFrame ans text c)) = ws_on_msg c"
  by (simp_all add: sendTextFrame_def emit_def Let_def)

lemma send_log: "\<exists>fs. ws_out (snd (sendTextFrame ans text c)) = ws_out c @ map Wrote fs"
  by (rule exI [of _ "if is_open c \<and> fst ans then [text] else []"]) (simp add: sendTextFrame_def emit_def Let_def)

lemma send_frames_keeps [simp]:
  "ws_last_sub_frames (send_frames ans i frames c) = ws_last_sub_frames c"
  "ws_on_msg (send_frames ans i frames c) = ws_on_msg c"
  by (induction ans i frames c rule: send_frames.induct) simp_all

lemma send_frames_log: "\<exists>fs. ws_out (send_frames ans i frames c) = ws_out c @ map Wrote fs"
proof (induction ans i frames c rule: send_frames.induct)
  case (1 ans i c)
  then show ?case by (auto intro: exI [of _ "[]"])
next
  case (2 ans i key frame frames c)
  then show ?case using send_log [of "ans i" frame c] by (metis append.assoc map_append send_frames.simps(2))
qed

lemma connect_keeps [simp]:
  "ws_last_sub_frames (connectImpl sg host port target jwt c) = ws_last_sub_frames c"
  "ws_on_msg (connectImpl sg host port target jwt c) = ws_on_msg c"
  "ws_reconnect_failures (connectImpl sg host port target jwt c) = ws_reconnect_failures c"
  by (simp_all add: connectImpl_def resetStream_def emit_def Let_def)

lemma commands_frames:
  "map_of (ws_last_sub_frames (run_commands dump net i cmds c)) = map_of (ws_last_sub_frames c) ++ map_of (rev (sub_frames dump net i cmds))"
proof (induction cmds arbitrary: i c)
  case (Cons cmd cmds)
  show ?case
    by (cases cmd) (auto simp: Cons.IH resubscribeAll_def Let_def update_conv' map_add_def fun_eq_iff split: option.split)
qed simp

lemma commands_distinct:
  "distinct (map fst (ws_last_sub_frames c)) \<Longrightarrow> distinct (map fst (ws_last_sub_frames (run_commands dump net i cmds c)))"
proof (induction cmds arbitrary: i c)
  case (Cons cmd cmds)
  have "distinct (map fst (ws_last_sub_frames (run_command dump (net i) cmd c)))"
    using Cons.prems by (cases cmd) (simp_all add: resubscribeAll_def Let_def distinct_update)
  then show ?case by (simp add: Cons.IH)
qed simp

lemma reconnect_result:
  assumes "reconnectOnce a c = (ok, c')"
  shows "ws_last_sub_frames c' = ws_last_sub_frames c" "ws_on_msg c' = ws_on_msg c" "ws_on_reconnect c' = ws_on_reconnect c"
    "ok \<Longrightarrow> is_open c' \<and> ws_reconnect_failures c' = 0"
  using assms
  by (auto simp: reconnectOnce_def emit_def Let_def connectImpl_def resetStream_def is_open_def split: if_splits prod.splits)

lemma reconnect_log:
  assumes "reconnectOnce a c = (ok, c')"
  shows "ws_out c' = ws_out c \<or> (\<exists>n. ws_out c' = ws_out c @ [Slept n]) \<or>
    (\<exists>n. ws_out c' = ws_out c @ Slept n # dial_log (at_stages a) (ws_host c) (ws_port c) (ws_target c) (ws_bearer_jwt c))"
    "ok \<Longrightarrow> \<exists>n. ws_out c' = ws_out c @ [Slept n, Resolving (ws_host c) (ws_port c), Securing (ws_host c),
       Upgrading (ws_host c) (ws_target c) (ws_bearer_jwt c)]"
proof -
  show "ws_out c' = ws_out c \<or> (\<exists>n. ws_out c' = ws_out c @ [Slept n]) \<or>
    (\<exists>n. ws_out c' = ws_out c @ Slept n # dial_log (at_stages a) (ws_host c) (ws_port c) (ws_target c) (ws_bearer_jwt c))"
    using assms by (auto simp: reconnectOnce_def Let_def emit_def connect_log split: if_splits prod.splits)
  show "\<exists>n. ws_out c' = ws_out c @ [Slept n, Resolving (ws_host c) (ws_port c), Securing (ws_host c),
       Upgrading (ws_host c) (ws_target c) (ws_bearer_jwt c)]" if ok
    using assms that
    by (auto simp: reconnectOnce_def Let_def emit_def connectImpl_def resetStream_def is_open_def split: if_splits prod.splits)
qed

text \<open>
  C13: A reconnection restores every subscription. Whatever commands the client has processed since it was made, when a reconnection
  succeeds and its writes succeed, then the client has done this and nothing else, in this order: it has waited, connected to the endpoint
  of the connection it lost with the same token, written exactly one frame per subscription key, namely that of the last command with this key, all of them, and
  then called the reconnect callback, if one is set. The count of failures is back at zero.
\<close>

theorem reconnect_restores_subscriptions:
  assumes "ws_last_sub_frames c0 = []" "ws_last_sub_frames (lp_client s) = ws_last_sub_frames (run_commands dump net 0 cmds c0)"
    "reconnectOnce a (lp_client s) = (True, c')" "\<And>i. at_write a i = (True, True)" "c = lp_client (doReconnect cfg a s)"
    "host = ws_host (lp_client s)"
  shows "\<exists>n frames. ws_out c = ws_out (lp_client s) @
       [Slept n, Resolving host (ws_port (lp_client s)), Securing host, Upgrading host (ws_target (lp_client s)) (ws_bearer_jwt (lp_client s))] @
       map (\<lambda>f. Wrote (snd f)) frames @ (if ws_on_reconnect (lp_client s) then [Reconnected] else []) \<and>
     distinct (map fst frames) \<and> (\<forall>key. map_of frames key = map_of (rev (sub_frames dump net 0 cmds)) key) \<and>
     is_open c \<and> ws_reconnect_failures c = 0"
proof -
  note r = reconnect_result [OF assms(3)]
  let ?f = "ws_last_sub_frames c'"
  obtain n where n: "ws_out c' = ws_out (lp_client s) @ [Slept n, Resolving host (ws_port (lp_client s)), Securing host,
      Upgrading host (ws_target (lp_client s)) (ws_bearer_jwt (lp_client s))]"
    using reconnect_log(2) [OF assms(3)] assms(6) by auto
  have "resubscribeAll (at_write a) c' = c' \<lparr> ws_out := ws_out c' @ map (\<lambda>f. Wrote (snd f)) ?f \<rparr>"
    using send_all [of "at_write a", OF assms(4)] r(4) by (simp add: resubscribeAll_def)
  then have c: "c = (if ws_on_reconnect c' then emit Reconnected (c' \<lparr> ws_out := ws_out c' @ map (\<lambda>f. Wrote (snd f)) ?f \<rparr>)
      else c' \<lparr> ws_out := ws_out c' @ map (\<lambda>f. Wrote (snd f)) ?f \<rparr>)"
    using assms(3,5) by (simp add: doReconnect_def Let_def)
  have "map_of ?f key = map_of (rev (sub_frames dump net 0 cmds)) key" for key
    using commands_frames [of dump net 0 cmds c0] assms(1,2) r(1) by simp
  moreover have "distinct (map fst ?f)" using commands_distinct [of c0 dump net 0 cmds] assms(1,2) r(1) by simp
  ultimately show ?thesis using r(3,4) n by (intro exI [of _ n] exI [of _ ?f]) (auto simp: c emit_def is_open_def)
qed

section \<open>Giving up\<close>

text \<open>A round of the loop without a stop request in which the connection fails.\<close>

definition stages_ok :: "Stages \<Rightarrow> bool" where
  "stages_ok sg \<longleftrightarrow> sg_resolve sg \<and> sg_tcp sg \<and> sg_sni sg \<and> sg_tls sg \<and> sg_handshake sg"

definition failing_round :: "Net \<Rightarrow> bool" where
  "failing_round net \<longleftrightarrow> \<not> nt_stop_after_commands net \<and> \<not> nt_stop_before_read net \<and> \<not> at_stop_before (nt_read_attempt net) \<and>
     \<not> at_stop_after (nt_read_attempt net) \<and> \<not> stages_ok (at_stages (nt_read_attempt net))"

definition fatal_calls :: "WsOut list \<Rightarrow> nat" where
  "fatal_calls os = length (filter (\<lambda>x. x = FatalCall) os)"

lemma connect_open: "is_open (connectImpl sg host port target jwt c) \<longleftrightarrow> stages_ok sg"
  by (simp add: connectImpl_def resetStream_def stages_ok_def is_open_def emit_def Let_def)

lemma connect_fields [simp]:
  "ws_host (connectImpl sg host port target jwt c) = host" "ws_cmd_q (connectImpl sg host port target jwt c) = ws_cmd_q c"
  "ws_fatal_cb (connectImpl sg host port target jwt c) = ws_fatal_cb c"
  by (simp_all add: connectImpl_def resetStream_def emit_def Let_def)

lemma fatal_dial [simp]: "filter (\<lambda>x. x = FatalCall) (dial_log sg host port target jwt) = []"
  by (simp add: dial_log_def)

lemma failing_reconnect:
  assumes "\<not> at_stop_before a" "\<not> at_stop_after a" "\<not> stages_ok (at_stages a)"
  obtains c' where "reconnectOnce a c = (False, c')" "ws_reconnect_failures c' = ws_reconnect_failures c + 1" "\<not> is_open c'"
    "ws_host c' = ws_host c" "ws_cmd_q c' = ws_cmd_q c" "ws_fatal_cb c' = ws_fatal_cb c" "fatal_calls (ws_out c') = fatal_calls (ws_out c)"
proof -
  define c' where "c' = snd (reconnectOnce a c)"
  have "reconnectOnce a c = (False, c')" "ws_reconnect_failures c' = ws_reconnect_failures c + 1" "\<not> is_open c'"
    "ws_host c' = ws_host c" "ws_cmd_q c' = ws_cmd_q c" "ws_fatal_cb c' = ws_fatal_cb c" "fatal_calls (ws_out c') = fatal_calls (ws_out c)"
    using assms by (auto simp: c'_def reconnectOnce_def Let_def connect_open connect_log emit_def fatal_calls_def split: prod.splits)
  then show ?thesis by (rule that)
qed

lemma limit_reached:
  assumes "int f < m" "m < 2 ^ 32"
  shows "word_of_int m \<le> (of_nat (Suc f) :: 32 word) \<longleftrightarrow> int (Suc f) = m"
proof -
  have m: "uint (word_of_int m :: 32 word) = m" using assms by (simp add: uint_word_of_int_eq take_bit_int_eq_self)
  have f: "uint (of_nat (Suc f) :: 32 word) = int (Suc f)"
    unfolding unsigned_of_nat using assms by (simp add: take_bit_nat_eq_self del: of_nat_Suc)
  show ?thesis unfolding word_le_def m f using assms by auto
qed

lemma failing_iteration:
  assumes "failing_round net" "\<not> is_open (lp_client s)" "ws_host (lp_client s) \<noteq> []" "ws_cmd_q (lp_client s) = []" "\<not> lp_give_up s"
    "ws_reconnect_failures (lp_client s) = of_nat f" "int f < m" "m = max_reconnect_attempts cfg" "m < 2 ^ 32"
  obtains s' where "loop_iteration cfg dump status net s = (True, s')" "\<not> is_open (lp_client s')" "ws_host (lp_client s') = ws_host (lp_client s)"
    "ws_cmd_q (lp_client s') = []" "lp_give_up s' \<longleftrightarrow> int (Suc f) = m" "ws_reconnect_failures (lp_client s') = of_nat (Suc f)"
    "ws_fatal_cb (lp_client s') = ws_fatal_cb (lp_client s)"
    "fatal_calls (ws_out (lp_client s')) = fatal_calls (ws_out (lp_client s)) + (if int (Suc f) = m \<and> ws_fatal_cb (lp_client s) then 1 else 0)"
proof -
  let ?c = "lp_client s"
  have a: "\<not> at_stop_before (nt_read_attempt net)" "\<not> at_stop_after (nt_read_attempt net)" "\<not> stages_ok (at_stages (nt_read_attempt net))"
    "\<not> nt_stop_after_commands net" "\<not> nt_stop_before_read net" using assms(1) by (auto simp: failing_round_def)
  obtain c' where c': "reconnectOnce (nt_read_attempt net) ?c = (False, c')" "ws_reconnect_failures c' = ws_reconnect_failures ?c + 1"
    "\<not> is_open c'" "ws_host c' = ws_host ?c" "ws_cmd_q c' = ws_cmd_q ?c" "ws_fatal_cb c' = ws_fatal_cb ?c"
    "fatal_calls (ws_out c') = fatal_calls (ws_out ?c)" using failing_reconnect [OF a(1-3)] .
  define s' where "s' = doReconnect cfg (nt_read_attempt net) s"
  have it: "loop_iteration cfg dump status net s = (True, s')"
  proof -
    have "?c \<lparr> ws_cmd_q := [] \<rparr> = ?c" using assms(4) by (cases "lp_client s") simp
    then have same: "s \<lparr> lp_client := ?c \<lparr> ws_cmd_q := [] \<rparr> \<rparr> = s" by (cases s) simp
    show ?thesis
      unfolding loop_iteration_def Let_def assms(4) run_commands.simps same
      using a assms(2,3,5) by (simp add: keepalive_def s'_def)
  qed
  have f: "ws_reconnect_failures c' = of_nat (Suc f)" using c'(2) assms(6) by simp
  have w: "word_of_int m \<le> ws_reconnect_failures c' \<longleftrightarrow> int (Suc f) = m" unfolding f by (rule limit_reached [OF assms(7,9)])
  have m: "0 < m" using assms(7) by simp
  show ?thesis
    by (rule that [OF it])
      (use c' f w m assms(3-5,8) in \<open>auto simp: s'_def doReconnect_def emit_def is_open_def fatal_calls_def\<close>)
qed

text \<open>
  C12: The client gives up exactly after the configured number of failed attempts: from a closed connection with \<open>f\<close> failures, if every
  round fails to connect, then after \<open>n\<close> rounds there have been \<open>f + n\<close> failures or as many as the limit, the loop has ended if and
  only if the limit is reached, and then the fatal callback has been called once, and not before.
\<close>

theorem gives_up_after_max:
  assumes "\<forall>net \<in> set nets. failing_round net" "\<not> is_open (lp_client s)" "ws_host (lp_client s) \<noteq> []" "ws_cmd_q (lp_client s) = []"
    "\<not> lp_give_up s" "ws_reconnect_failures (lp_client s) = of_nat f" "int f < max_reconnect_attempts cfg" "max_reconnect_attempts cfg < 2 ^ 32"
    "s' = read_loop cfg dump status nets s" "m = nat (max_reconnect_attempts cfg)"
  shows "ws_reconnect_failures (lp_client s') = of_nat (min (f + length nets) m) \<and> (lp_give_up s' \<longleftrightarrow> m \<le> f + length nets) \<and>
     fatal_calls (ws_out (lp_client s')) = fatal_calls (ws_out (lp_client s)) + (if lp_give_up s' \<and> ws_fatal_cb (lp_client s) then 1 else 0)"
  using assms
proof (induction nets arbitrary: s f)
  case Nil
  then show ?case by (auto simp: min_def)
next
  case (Cons net nets)
  have net: "failing_round net" using Cons.prems(1) by simp
  obtain s1 where s1: "loop_iteration cfg dump status net s = (True, s1)" "\<not> is_open (lp_client s1)" "ws_host (lp_client s1) = ws_host (lp_client s)"
    "ws_cmd_q (lp_client s1) = []" "lp_give_up s1 \<longleftrightarrow> int (Suc f) = max_reconnect_attempts cfg"
    "ws_reconnect_failures (lp_client s1) = of_nat (Suc f)" "ws_fatal_cb (lp_client s1) = ws_fatal_cb (lp_client s)"
    "fatal_calls (ws_out (lp_client s1)) = fatal_calls (ws_out (lp_client s)) +
       (if int (Suc f) = max_reconnect_attempts cfg \<and> ws_fatal_cb (lp_client s) then 1 else 0)"
    using failing_iteration [OF net Cons.prems(2-7) refl Cons.prems(8)] .
  have s': "s' = read_loop cfg dump status nets s1" using Cons.prems(5,9) s1(1) by simp
  show ?case
  proof (cases "lp_give_up s1")
    case True
    then have "s' = s1" using s' by (cases nets) simp_all
    moreover have "m = Suc f" using True s1(5) Cons.prems(10) by simp
    then have "min (f + length (net # nets)) m = Suc f" "m \<le> f + length (net # nets)" by simp_all
    ultimately show ?thesis using True s1(5-8) by simp
  next
    case False
    then have "int (Suc f) < max_reconnect_attempts cfg" using s1(5) Cons.prems(7) by simp
    then show ?thesis
      using Cons.IH [OF _ s1(2) _ s1(4) False s1(6) _ Cons.prems(8) s' Cons.prems(10)] Cons.prems(1,3) s1(3,5,7,8) False by simp
  qed
qed

section \<open>Messages\<close>

definition received :: "WsOut list \<Rightarrow> string list" where
  "received os = List.map_filter (\<lambda>x. case x of Received m \<Rightarrow> Some m | _ \<Rightarrow> None) os"

text \<open>The messages the socket delivered in a round, the answers to the text heartbeat left out.\<close>

definition read_text :: "(string \<Rightarrow> string option) \<Rightarrow> Net \<Rightarrow> string list" where
  "read_text status net = (case nt_read net of ReadMsg msg \<Rightarrow> if status_up status msg then [] else [msg] | _ \<Rightarrow> [])"

definition healthy_round :: "Net \<Rightarrow> bool" where
  "healthy_round net \<longleftrightarrow> \<not> nt_stop_after_commands net \<and> nt_ping net = (True, True) \<and> nt_heartbeat net = (True, True) \<and>
     (nt_read net = ReadTimeout \<and> \<not> nt_stop_read net \<or> (\<exists>msg. nt_read net = ReadMsg msg)) \<and> nt_read_open net"

lemma received_append [simp]: "received (xs @ ys) = received xs @ received ys"
  by (simp add: received_def List.map_filter_def)

lemma received_one [simp]:
  "received [] = []" "received [Received m] = [m]" "received [Reconnected] = []" "received [FatalCall] = []" "received [Slept n] = []"
  by (simp_all add: received_def)

lemma received_wrote [simp]: "received (map Wrote fs) = []" "received (map (\<lambda>f. Wrote (g f)) fs') = []"
  by (simp_all add: received_def List.map_filter_def)

lemma received_dial [simp]: "received (dial_log sg host port target jwt) = []"
  by (simp add: received_def dial_log_def)

lemma received_attempt [simp]: "received (Slept n # dial_log sg host port target jwt) = []"
  using received_append [of "[Slept n]" "dial_log sg host port target jwt"] by simp

lemma received_sends [simp]:
  "received (ws_out (snd (sendTextFrame ans text c))) = received (ws_out c)"
  "received (ws_out (send_frames answer i frames c)) = received (ws_out c)"
  using send_log [of ans "text" c] send_frames_log [of answer i frames c] by auto

lemma commands_keep [simp]:
  "received (ws_out (run_commands dump net i cmds c)) = received (ws_out c)" "ws_on_msg (run_commands dump net i cmds c) = ws_on_msg c"
proof (induction cmds arbitrary: i c)
  case (Cons cmd cmds)
  { case 1 show ?case by (cases cmd) (simp_all add: Cons.IH resubscribeAll_def connect_log Let_def) }
  { case 2 show ?case by (cases cmd) (simp_all add: Cons.IH resubscribeAll_def Let_def) }
qed simp_all

lemma attempt_keeps:
  "received (ws_out (snd (reconnectOnce a c))) = received (ws_out c)" "ws_on_msg (snd (reconnectOnce a c)) = ws_on_msg c"
  by (auto simp: reconnectOnce_def emit_def connect_log Let_def split: prod.splits)

lemma reconnect_keeps [simp]:
  "received (ws_out (lp_client (doReconnect cfg a s))) = received (ws_out (lp_client s))"
  "ws_on_msg (lp_client (doReconnect cfg a s)) = ws_on_msg (lp_client s)"
  using attempt_keeps [of a "lp_client s"]
  by (auto simp: doReconnect_def emit_def Let_def resubscribeAll_def split: prod.splits bool.splits)

lemma control_ping_keeps [simp]:
  "received (ws_out (lp_client (control_ping cfg net s))) = received (ws_out (lp_client s))"
  "ws_on_msg (lp_client (control_ping cfg net s)) = ws_on_msg (lp_client s)"
  by (simp_all add: control_ping_def Let_def)

lemma text_heartbeat_keeps [simp]:
  "received (ws_out (lp_client (text_heartbeat cfg net s))) = received (ws_out (lp_client s))"
  "ws_on_msg (lp_client (text_heartbeat cfg net s)) = ws_on_msg (lp_client s)"
  using received_sends(1) [of "nt_heartbeat net" "''PING''" "lp_client s"] send_keeps(2) [of "nt_heartbeat net" "''PING''" "lp_client s"]
  by (cases "sendTextFrame (nt_heartbeat net) ''PING'' (lp_client s)"; simp add: text_heartbeat_def Let_def)+

lemma keepalive_keeps [simp]:
  "received (ws_out (lp_client (keepalive cfg net s))) = received (ws_out (lp_client s))"
  "ws_on_msg (lp_client (keepalive cfg net s)) = ws_on_msg (lp_client s)"
  by (simp_all add: keepalive_def)

lemma iteration_messages:
  assumes "loop_iteration cfg dump status net s = (on, s')" "ws_on_msg (lp_client s)"
  shows "ws_on_msg (lp_client s')"
    "\<exists>ms. received (ws_out (lp_client s')) = received (ws_out (lp_client s)) @ ms \<and> subseq ms (read_text status net)"
  using assms
  by (auto simp: loop_iteration_def read_message_def Let_def read_text_def emit_def split: if_splits ReadResult.splits)

lemma healthy_iteration:
  assumes "healthy_round net" "is_open (lp_client s)" "ws_cmd_q (lp_client s) = []" "\<not> lp_give_up s" "ws_on_msg (lp_client s)"
  obtains s' where "loop_iteration cfg dump status net s = (True, s')" "is_open (lp_client s')" "ws_cmd_q (lp_client s') = []"
    "\<not> lp_give_up s'" "ws_on_msg (lp_client s')"
    "received (ws_out (lp_client s')) = received (ws_out (lp_client s)) @ read_text status net"
proof -
  define s1 where "s1 = s \<lparr> lp_client := run_commands dump (nt_cmd net) 0 (ws_cmd_q (lp_client s)) (lp_client s \<lparr> ws_cmd_q := [] \<rparr>) \<rparr>"
  define s2 where "s2 = keepalive cfg net s1"
  have s1: "is_open (lp_client s1)" "ws_cmd_q (lp_client s1) = []" "\<not> lp_give_up s1" "ws_on_msg (lp_client s1)"
    "received (ws_out (lp_client s1)) = received (ws_out (lp_client s))" using assms by (simp_all add: s1_def is_open_def)
  have s2: "is_open (lp_client s2)" "ws_cmd_q (lp_client s2) = []" "\<not> lp_give_up s2"
    using s1 assms(1)
    by (auto simp: s2_def keepalive_def text_heartbeat_def control_ping_def healthy_round_def Let_def sendTextFrame_def is_open_def emit_def)
  have s2': "ws_on_msg (lp_client s2)" "received (ws_out (lp_client s2)) = received (ws_out (lp_client s))"
    using s1 by (simp_all add: s2_def)
  define s3 where "s3 = snd (read_message cfg status net s2)"
  have "read_message cfg status net s2 = (True, s3)" "is_open (lp_client s3)" "ws_cmd_q (lp_client s3) = []" "\<not> lp_give_up s3"
    "ws_on_msg (lp_client s3)" "received (ws_out (lp_client s3)) = received (ws_out (lp_client s)) @ read_text status net"
    using s2 s2' assms(1)
    by (auto simp: s3_def read_message_def healthy_round_def read_text_def Let_def emit_def is_open_def if_distrib [of snd] split: if_splits)
  moreover have "loop_iteration cfg dump status net s = read_message cfg status net s2"
    using s2(1,3) assms(1) by (simp add: loop_iteration_def Let_def healthy_round_def s2_def s1_def)
  ultimately show ?thesis using that by simp
qed

text \<open>
  C14: No message is reordered, repeated or made up, and none is lost while the connection is sound. Over any rounds, with any failures
  and reconnections, the messages the handler gets are a subsequence of those the socket delivered, heartbeat answers left out; and
  if the connection is open and no round has an error, a close or a stop, they are all of them.
\<close>

theorem messages_in_order:
  assumes "ws_on_msg (lp_client s)" "s' = read_loop cfg dump status nets s"
  shows "\<exists>ms. received (ws_out (lp_client s')) = received (ws_out (lp_client s)) @ ms \<and> subseq ms (concat (map (read_text status) nets)) \<and>
     (is_open (lp_client s) \<and> ws_cmd_q (lp_client s) = [] \<and> \<not> lp_give_up s \<and> (\<forall>net \<in> set nets. healthy_round net) \<longrightarrow>
        ms = concat (map (read_text status) nets))"
  unfolding assms(2) using assms(1)
proof (induction nets arbitrary: s)
  case (Cons net nets)
  obtain on s1 where it: "loop_iteration cfg dump status net s = (on, s1)" by (cases "loop_iteration cfg dump status net s")
  obtain ms1 where ms1: "received (ws_out (lp_client s1)) = received (ws_out (lp_client s)) @ ms1" "subseq ms1 (read_text status net)"
    using iteration_messages(2) [OF it Cons.prems] by blast
  have on_msg: "ws_on_msg (lp_client s1)" by (rule iteration_messages(1) [OF it Cons.prems])
  let ?healthy = "is_open (lp_client s) \<and> ws_cmd_q (lp_client s) = [] \<and> \<not> lp_give_up s \<and> (\<forall>net \<in> set (net # nets). healthy_round net)"
  have h: "on \<and> ms1 = read_text status net \<and> is_open (lp_client s1) \<and> ws_cmd_q (lp_client s1) = [] \<and> \<not> lp_give_up s1" if ?healthy
  proof -
    have "healthy_round net" "is_open (lp_client s)" "ws_cmd_q (lp_client s) = []" "\<not> lp_give_up s" using that by auto
    then show ?thesis using healthy_iteration [OF _ _ _ _ Cons.prems] it ms1(1) by (metis Pair_inject same_append_eq)
  qed
  obtain ms2 where ms2: "received (ws_out (lp_client (read_loop cfg dump status nets s1))) = received (ws_out (lp_client s1)) @ ms2"
    "subseq ms2 (concat (map (read_text status) nets))"
    "is_open (lp_client s1) \<and> ws_cmd_q (lp_client s1) = [] \<and> \<not> lp_give_up s1 \<and> (\<forall>net \<in> set nets. healthy_round net) \<longrightarrow>
       ms2 = concat (map (read_text status) nets)" using Cons.IH [OF on_msg] by blast
  have sub: "subseq (ms1 @ ms2) (concat (map (read_text status) (net # nets)))" using ms1(2) ms2(2) by (simp add: list_emb_append_mono)
  consider "lp_give_up s" | "\<not> lp_give_up s" on | "\<not> lp_give_up s" "\<not> on" by blast
  then show ?case
  proof cases
    case 1
    then show ?thesis by simp
  next
    case 2
    then show ?thesis
      using it ms1(1) ms2 sub h by (intro exI [of _ "ms1 @ ms2"]) auto
  next
    case 3
    have "subseq ms1 (concat (map (read_text status) (net # nets)))" using ms1(2) by (simp add: list_emb_prefix)
    then show ?thesis using it ms1(1) h 3 by (intro exI [of _ ms1]) auto
  qed
qed simp

section \<open>One endpoint\<close>

text \<open>A client that is told to connect to one endpoint only: all entries of the log belong to it, all commands that still wait name it, and
  it is the one that is stored once there is a connection to restore.\<close>

definition stored :: "string \<Rightarrow> string \<Rightarrow> string \<Rightarrow> string option \<Rightarrow> WsClient \<Rightarrow> bool" where
  "stored host port target jwt c \<longleftrightarrow> ws_host c = host \<and> ws_port c = port \<and> ws_target c = target \<and> ws_bearer_jwt c = jwt"

fun connects_to :: "string \<Rightarrow> string \<Rightarrow> string \<Rightarrow> string option \<Rightarrow> Command \<Rightarrow> bool" where
  "connects_to host port target jwt (CmdConnect h p t j) \<longleftrightarrow> h = host \<and> p = port \<and> t = target \<and> j = jwt"
| "connects_to host port target jwt cmd \<longleftrightarrow> True"

definition endpoint_inv :: "string \<Rightarrow> string \<Rightarrow> string \<Rightarrow> string option \<Rightarrow> WsClient \<Rightarrow> bool" where
  "endpoint_inv host port target jwt c \<longleftrightarrow>
     (\<forall>x \<in> set (ws_out c). dials_to host port target jwt x) \<and> (\<forall>cmd \<in> set (ws_cmd_q c). connects_to host port target jwt cmd) \<and>
     (is_open c \<or> ws_host c \<noteq> [] \<longrightarrow> stored host port target jwt c)"

definition bound_to :: "string \<Rightarrow> string \<Rightarrow> string \<Rightarrow> string option \<Rightarrow> WsClient \<Rightarrow> bool" where
  "bound_to host port target jwt c \<longleftrightarrow>
     (\<forall>x \<in> set (ws_out c). dials_to host port target jwt x) \<and> (\<forall>cmd \<in> set (ws_cmd_q c). connects_to host port target jwt cmd) \<and>
     stored host port target jwt c"

lemma bound_inv: "bound_to h p t j c \<Longrightarrow> endpoint_inv h p t j c"
  by (simp add: bound_to_def endpoint_inv_def)

lemma inv_bound: "endpoint_inv h p t j c \<Longrightarrow> is_open c \<or> ws_host c \<noteq> [] \<Longrightarrow> bound_to h p t j c"
  by (simp add: bound_to_def endpoint_inv_def)

lemma inv_cong:
  assumes "endpoint_inv h p t j c" "ws_out c' = ws_out c" "set (ws_cmd_q c') \<subseteq> set (ws_cmd_q c)" "ws_stream c' = ws_stream c"
    "same_endpoint c' c"
  shows "endpoint_inv h p t j c'"
proof -
  have "is_open c' = is_open c" "stored h p t j c' = stored h p t j c" "ws_host c' = ws_host c"
    using assms(4,5) by (simp_all add: is_open_def stored_def same_endpoint_def)
  then show ?thesis using assms(1-3) unfolding endpoint_inv_def by (metis subsetD)
qed

lemma bound_stream: "bound_to h p t j c \<Longrightarrow> bound_to h p t j (c \<lparr> ws_stream := x \<rparr>)"
  by (simp add: bound_to_def stored_def)

lemma bound_emit: "bound_to h p t j c \<Longrightarrow> dials_to h p t j x \<Longrightarrow> bound_to h p t j (emit x c)"
  by (auto simp: bound_to_def stored_def emit_def)

lemma send_bound: "bound_to h p t j c \<Longrightarrow> bound_to h p t j (snd (sendTextFrame ans text c))"
  by (auto simp: sendTextFrame_def Let_def intro: bound_emit bound_stream)

lemma send_inv: "endpoint_inv h p t j c \<Longrightarrow> endpoint_inv h p t j (snd (sendTextFrame ans text c))"
  using inv_bound [of h p t j c] bound_inv [OF send_bound [of h p t j c ans "text"]]
  by (cases "is_open c") (auto simp: sendTextFrame_def)

lemma send_frames_bound: "bound_to h p t j c \<Longrightarrow> bound_to h p t j (send_frames ans i frames c)"
  by (induction ans i frames c rule: send_frames.induct) (auto intro: send_bound)

lemma connect_bound:
  assumes "endpoint_inv h p t j c"
  shows "bound_to h p t j (connectImpl sg h p t j c)"
proof -
  have "stored h p t j (connectImpl sg h p t j c)"
    by (simp add: stored_def connectImpl_def resetStream_def emit_def Let_def)
  then show ?thesis
    using assms dial_log_dials [of _ sg h p t j] by (auto simp: bound_to_def endpoint_inv_def connect_log)
qed

lemma commands_inv:
  "endpoint_inv h p t j c \<Longrightarrow> \<forall>cmd \<in> set cmds. connects_to h p t j cmd \<Longrightarrow> endpoint_inv h p t j (run_commands dump net i cmds c)"
proof (induction cmds arbitrary: i c)
  case (Cons cmd cmds)
  have "endpoint_inv h p t j (run_command dump (net i) cmd c)"
  proof (cases cmd)
    case (CmdConnect host port target jwt)
    have "bound_to h p t j (connectImpl (cn_stages (net i)) h p t j c)" by (rule connect_bound [OF Cons.prems(1)])
    note c = this send_frames_bound [OF this]
    have "cmd = CmdConnect h p t j" using Cons.prems(2) CmdConnect by simp
    then show ?thesis using c [THEN bound_inv] by (simp add: resubscribeAll_def Let_def)
  next
    case (CmdSubCandles type markets snapshot realtime format)
    have "endpoint_inv h p t j (c \<lparr> ws_last_sub_frames := fs \<rparr>)" for fs
      by (rule inv_cong [OF Cons.prems(1)]) (simp_all add: same_endpoint_def)
    then show ?thesis using CmdSubCandles by (simp add: Let_def send_inv)
  next
    case (CmdSubMyOrder markets realtime format)
    have "endpoint_inv h p t j (c \<lparr> ws_last_sub_frames := fs \<rparr>)" for fs
      by (rule inv_cong [OF Cons.prems(1)]) (simp_all add: same_endpoint_def)
    then show ?thesis using CmdSubMyOrder by (simp add: Let_def send_inv)
  qed
  then show ?case using Cons by simp
qed simp

lemma reconnect_bound:
  assumes "bound_to h p t j c"
  shows "bound_to h p t j (snd (reconnectOnce a c))"
proof -
  have st: "ws_host c = h" "ws_port c = p" "ws_target c = t" "ws_bearer_jwt c = j" using assms by (simp_all add: bound_to_def stored_def)
  have f: "bound_to h p t j (d \<lparr> ws_reconnect_failures := n \<rparr>)" if "bound_to h p t j d" for d n
    using that by (simp add: bound_to_def stored_def)
  have "bound_to h p t j (connectImpl (at_stages a) h p t j (emit (Slept n) (c \<lparr> ws_reconnect_failures := k \<rparr>) \<lparr> ws_stream := None \<rparr>))" for n k
    by (intro connect_bound bound_inv bound_stream bound_emit f assms) simp
  then show ?thesis
    using assms f bound_emit [OF f [OF assms]]
    by (auto simp: reconnectOnce_def Let_def st emit_def split: prod.splits)
qed

lemma doReconnect_bound: "bound_to h p t j (lp_client s) \<Longrightarrow> bound_to h p t j (lp_client (doReconnect cfg a s))"
  using reconnect_bound [of h p t j "lp_client s" a]
  by (cases "reconnectOnce a (lp_client s)"; cases "fst (reconnectOnce a (lp_client s))")
    (auto simp: doReconnect_def resubscribeAll_def Let_def intro: bound_emit send_frames_bound)

lemma control_ping_bound: "bound_to h p t j (lp_client s) \<Longrightarrow> bound_to h p t j (lp_client (control_ping cfg net s))"
  by (simp add: control_ping_def Let_def bound_stream doReconnect_bound)

lemma text_heartbeat_bound: "bound_to h p t j (lp_client s) \<Longrightarrow> bound_to h p t j (lp_client (text_heartbeat cfg net s))"
  using send_bound [of h p t j "lp_client s" "nt_heartbeat net" "''PING''"]
  by (cases "sendTextFrame (nt_heartbeat net) ''PING'' (lp_client s)") (auto simp: text_heartbeat_def Let_def intro: doReconnect_bound)

lemma iteration_inv:
  assumes "endpoint_inv h p t j (lp_client s)"
  shows "endpoint_inv h p t j (lp_client (snd (loop_iteration cfg dump status net s)))"
proof -
  define s1 where "s1 = s \<lparr> lp_client := run_commands dump (nt_cmd net) 0 (ws_cmd_q (lp_client s)) (lp_client s \<lparr> ws_cmd_q := [] \<rparr>) \<rparr>"
  define s2 where "s2 = keepalive cfg net s1"
  have "endpoint_inv h p t j (lp_client s \<lparr> ws_cmd_q := [] \<rparr>)" by (rule inv_cong [OF assms]) (simp_all add: same_endpoint_def)
  then have 1: "endpoint_inv h p t j (lp_client s1)"
    using commands_inv assms by (simp add: s1_def endpoint_inv_def [of h p t j "lp_client s"])
  then have 2: "endpoint_inv h p t j (lp_client s2)"
    using inv_bound [OF 1] by (simp add: s2_def keepalive_def bound_inv text_heartbeat_bound control_ping_bound)
  have 3: "bound_to h p t j (lp_client (snd (read_message cfg status net s2)))" if "is_open (lp_client s2)"
    using inv_bound [OF 2] that
    by (cases "nt_read net") (simp_all add: read_message_def Let_def bound_emit bound_stream doReconnect_bound)
  have 4: "bound_to h p t j (lp_client (doReconnect cfg (nt_read_attempt net) s2))" if "ws_host (lp_client s2) \<noteq> []"
    using inv_bound [OF 2] that by (intro doReconnect_bound) simp
  show ?thesis
    unfolding loop_iteration_def Let_def s1_def [symmetric] s2_def [symmetric]
    using 1 2 3 [THEN bound_inv] 4 [THEN bound_inv] by simp
qed

lemma loop_inv: "endpoint_inv h p t j (lp_client s) \<Longrightarrow> endpoint_inv h p t j (lp_client (read_loop cfg dump status nets s))"
proof (induction nets arbitrary: s)
  case (Cons net nets)
  have "endpoint_inv h p t j (lp_client (snd (loop_iteration cfg dump status net s)))" by (rule iteration_inv [OF Cons.prems])
  then show ?case using Cons by (auto split: prod.splits bool.splits)
qed simp

section \<open>An attempt after giving up\<close>






end
