(* ===== verification/WsExamples.thy ===== *)
theory WsExamples
  imports WsProperties
begin

text \<open>
  The properties of the web socket client at concrete inputs: a client with one subscription that loses its connection, that gives up
  after two failed attempts, and that reads messages.
\<close>

section \<open>A client and its network\<close>

definition no_stage :: Stages where
  "no_stage = \<lparr> sg_resolve = False, sg_tcp = False, sg_sni = False, sg_tls = False, sg_handshake = False \<rparr>"

definition all_stages :: Stages where
  "all_stages = \<lparr> sg_resolve = True, sg_tcp = True, sg_sni = True, sg_tls = True, sg_handshake = True \<rparr>"

definition attempt :: "Stages \<Rightarrow> Attempt" where
  "attempt sg = \<lparr> at_stop_before = False, at_draw = (\<lambda>lo hi. lo), at_stop_slice = (\<lambda>i. False), at_stop_after = False,
     at_stages = sg, at_write = (\<lambda>i. (True, True)) \<rparr>"

definition demo_round :: "Stages \<Rightarrow> ReadResult \<Rightarrow> bool \<Rightarrow> int \<Rightarrow> Net" where
  "demo_round sg result ping_ok now = \<lparr> nt_cmd = (\<lambda>i. \<lparr> cn_stages = all_stages, cn_ticket = ''t'', cn_write = (\<lambda>j. (True, True)) \<rparr>),
     nt_stop_after_commands = False, nt_now = now, nt_ping = (ping_ok, ping_ok), nt_stop_ping = False, nt_ping_attempt = attempt sg,
     nt_heartbeat = (True, True), nt_heartbeat_attempt = attempt all_stages, nt_stop_before_read = False, nt_read = result,
     nt_read_open = True, nt_stop_read = False, nt_read_attempt = attempt sg \<rparr>"

definition demo_dump :: "json \<Rightarrow> string" where
  "demo_dump j = ''frame''"

definition demo_cfg :: AppConfig where
  "demo_cfg = default_config \<lparr> max_reconnect_attempts := 2 \<rparr>"

text \<open>A private client as the program sets it up, before and after its connection.\<close>

definition demo_client :: WsClient where
  "demo_client = ws_new \<lparr> ws_host := ''h'', ws_port := ''443'', ws_target := ''/t'', ws_bearer_jwt := Some ''token'', ws_heartbeat_mode := UpbitTextPing, ws_on_msg := True, ws_on_reconnect := True,
     ws_fatal_cb := True \<rparr>"

definition demo_open :: "nat \<Rightarrow> Loop" where
  "demo_open f = start_loop 0 (demo_client \<lparr> ws_stream := Some True, ws_reconnect_failures := of_nat f \<rparr>)"

lemmas demo_defs = no_stage_def all_stages_def attempt_def demo_round_def demo_dump_def demo_cfg_def demo_client_def demo_open_def
  ws_new_def start_loop_def default_config_def is_open_def

section \<open>The witnesses\<close>

theorem reconnect_delay_bounds_witness:
  "\<exists>lo hi. computeReconnectDelay (ws_new \<lparr> ws_reconnect_failures := of_nat 3 \<rparr>) = (lo, hi) \<and> lo < hi \<and> 5 * lo \<le> 8005"
proof -
  obtain lo hi where d: "computeReconnectDelay (ws_new \<lparr> ws_reconnect_failures := of_nat 3 \<rparr>) = (lo, hi)" by (rule prod.exhaust)
  then show ?thesis
    using reconnect_delay_bounds [of "ws_new \<lparr> ws_reconnect_failures := of_nat 3 \<rparr>" 3 lo hi] by (simp add: ws_new_def)
qed

lemma one_key:
  assumes "distinct (map fst xs)" "map_of xs = [k \<mapsto> v]"
  shows "xs = [(k, v)]"
proof -
  have "p \<in> set xs \<longleftrightarrow> p = (k, v)" for p
    using map_of_eq_Some_iff [OF assms(1), of "fst p" "snd p"] assms(2) by (cases p) (auto split: if_splits)
  then have s: "set xs = {(k, v)}" by blast
  moreover have "length xs = 1" using distinct_card [of xs] s assms(1) by (simp add: distinct_map)
  ultimately show ?thesis by (cases xs) auto
qed

theorem reconnect_restores_subscriptions_witness:
  "\<exists>n. ws_out (lp_client (doReconnect demo_cfg (attempt all_stages)
       (start_loop 0 (run_commands demo_dump (nt_cmd (demo_round all_stages ReadTimeout True 0)) 0 [CmdSubMyOrder [''KRW-BTC''] True ''DEFAULT''] demo_client)))) =
     [Slept n, Resolving ''h'' ''443'', Securing ''h'', Upgrading ''h'' ''/t'' (Some ''token''), Wrote ''frame'', Reconnected]"
proof -
  let ?cn = "nt_cmd (demo_round all_stages ReadTimeout True 0)"
  let ?cmds = "[CmdSubMyOrder [''KRW-BTC''] True ''DEFAULT'']"
  let ?s = "start_loop 0 (run_commands demo_dump ?cn 0 ?cmds demo_client)"
  define c' where "c' = snd (reconnectOnce (attempt all_stages) (lp_client ?s))"
  have "fst (reconnectOnce (attempt all_stages) (lp_client ?s))"
    by (auto simp: reconnectOnce_def Let_def connect_open stages_ok_def attempt_def all_stages_def split: prod.splits)
  then have c': "reconnectOnce (attempt all_stages) (lp_client ?s) = (True, c')" by (simp add: c'_def prod_eq_iff)
  have "ws_last_sub_frames demo_client = []" "\<And>i. at_write (attempt all_stages) i = (True, True)"
    "ws_last_sub_frames (lp_client ?s) = ws_last_sub_frames (run_commands demo_dump ?cn 0 ?cmds demo_client)"
    by (simp_all add: demo_client_def ws_new_def attempt_def start_loop_def)
  then obtain n frames where f: "ws_out (lp_client (doReconnect demo_cfg (attempt all_stages) ?s)) = ws_out (lp_client ?s) @
      [Slept n, Resolving (ws_host (lp_client ?s)) (ws_port (lp_client ?s)), Securing (ws_host (lp_client ?s)),
       Upgrading (ws_host (lp_client ?s)) (ws_target (lp_client ?s)) (ws_bearer_jwt (lp_client ?s))] @
      map (\<lambda>f. Wrote (snd f)) frames @ (if ws_on_reconnect (lp_client ?s) then [Reconnected] else [])"
    "distinct (map fst frames)" "\<forall>key. map_of frames key = map_of (rev (sub_frames demo_dump ?cn 0 ?cmds)) key"
    using reconnect_restores_subscriptions [OF _ _ c' _ refl refl] by blast
  have m: "map_of frames = [''myOrder'' \<mapsto> ''frame'']" using f(3) by (auto simp: fun_eq_iff buildMyOrderSubJsonFrame_def demo_dump_def)
  have "frames = [(''myOrder'', ''frame'')]" by (rule one_key [OF f(2) m])
  then show ?thesis using f(1) by (simp add: demo_client_def ws_new_def start_loop_def sendTextFrame_def is_open_def)
qed

theorem gives_up_after_max_witness:
  "lp_give_up (read_loop demo_cfg demo_dump (\<lambda>m. None) (replicate 3 (demo_round no_stage ReadError True 0)) (start_loop 0 demo_client)) \<and>
   \<not> lp_give_up (read_loop demo_cfg demo_dump (\<lambda>m. None) (replicate 1 (demo_round no_stage ReadError True 0)) (start_loop 0 demo_client))"
proof -
  define goes where "goes n = lp_give_up (read_loop demo_cfg demo_dump (\<lambda>m. None) (replicate n (demo_round no_stage ReadError True 0)) (start_loop 0 demo_client))" for n
  have "\<forall>net \<in> set (replicate n (demo_round no_stage ReadError True 0)). failing_round net" for n
    by (simp add: failing_round_def stages_ok_def demo_defs)
  then have "goes n \<longleftrightarrow> 2 \<le> n" for n
    using gives_up_after_max [of "replicate n (demo_round no_stage ReadError True 0)" "start_loop 0 demo_client" 0 demo_cfg _ demo_dump "\<lambda>m. None" 2]
    by (simp add: demo_defs flip: goes_def) (simp add: goes_def demo_defs)
  then have "goes 3 \<and> \<not> goes 1" by simp
  then show ?thesis unfolding goes_def .
qed

theorem messages_in_order_witness:
  "received (ws_out (lp_client (read_loop demo_cfg demo_dump (\<lambda>m. Some ''UP'')
     [demo_round no_stage (ReadMsg ''a'') True 0, demo_round no_stage ReadTimeout True 1, demo_round no_stage (ReadMsg ''b'') True 2] (demo_open 0)))) =
   [''a'', ''b'']"
proof -
  let ?nets = "[demo_round no_stage (ReadMsg ''a'') True 0, demo_round no_stage ReadTimeout True 1, demo_round no_stage (ReadMsg ''b'') True 2]"
  have h: "\<forall>net \<in> set ?nets. healthy_round net" by (simp add: healthy_round_def demo_round_def)
  have s: "ws_on_msg (lp_client (demo_open 0))" "is_open (lp_client (demo_open 0))" "ws_cmd_q (lp_client (demo_open 0)) = []"
    "\<not> lp_give_up (demo_open 0)" "ws_out (lp_client (demo_open 0)) = []" by (simp_all add: demo_defs)
  have t: "concat (map (read_text (\<lambda>m. Some ''UP'')) ?nets) = [''a'', ''b'']"
    by (simp add: read_text_def demo_round_def status_up_def)
  show ?thesis
    using messages_in_order [OF s(1) refl, of demo_cfg demo_dump "\<lambda>m. Some ''UP''" ?nets] h s(2-) t by fastforce
qed


end
