(* ===== verification/CoinBot.thy ===== *)
theory CoinBot
  imports Manager WsProperties
begin

text \<open>
  The entry of the program, \<open>src/src/app/CoinBot.cpp\<close>: the keys and markets from the environment, the type of the candles it
  subscribes to, how the parts are put together, the health check and the exit code. The environment, the opening of the
  database, the answers of the exchange, the token of the signer and what the health check sees are arguments. What runs between the start and the
  end is the machine \<open>program\<close> of \<open>Manager\<close> and the loop of \<open>WsClient\<close>. Logging and the search of a working directory on
  Windows are left out.
\<close>

section \<open>Candle type\<close>

definition isSupportedCandleUnit :: "int \<Rightarrow> bool" where
  "isSupportedCandleUnit unit \<longleftrightarrow> unit \<in> {1, 3, 5, 10, 15, 30, 60, 240}"

text \<open>The Korean words of two messages, as the bytes of the source.\<close>

definition unsupported_text :: string where
  "unsupported_text = [CHR 0xEC, CHR 0xA7, CHR 0x80, CHR 0xEC, CHR 0x9B, CHR 0x90, CHR 0xED, CHR 0x95, CHR 0x98, CHR 0xEC, CHR 0xA7, CHR 0x80, CHR 0x20, CHR 0xEC, CHR 0x95, CHR 0x8A, CHR 0xEB, CHR 0x8A, CHR 0x94]"

definition missing_env_text :: string where
  "missing_env_text = [CHR 0xED, CHR 0x99, CHR 0x98, CHR 0xEA, CHR 0xB2, CHR 0xBD, CHR 0x20, CHR 0xEB, CHR 0xB3, CHR 0x80, CHR 0xEC, CHR 0x88, CHR 0x98, CHR 0xEA, CHR 0xB0, CHR 0x80, CHR 0x20, CHR 0xEC, CHR 0x97, CHR 0x86, CHR 0xEC, CHR 0x8A, CHR 0xB5, CHR 0xEB, CHR 0x8B, CHR 0x88, CHR 0xEB, CHR 0x8B, CHR 0xA4, CHR 0x3A, CHR 0x20]"

definition buildLiveCandleType :: "AppConfig \<Rightarrow> string result" where
  "buildLiveCandleType cfg =
     (let unit = live_candle_unit_minutes cfg
      in if \<not> isSupportedCandleUnit unit
         then Inl (RuntimeError (''[CoinBot] '' @ unsupported_text @ '' live_candle_unit_minutes: '' @ int_str unit))
         else Inr (''candle.'' @ int_str unit @ ''m''))"

section \<open>Environment\<close>

definition readEnv :: "(string \<Rightarrow> string option) \<Rightarrow> string \<Rightarrow> string option" where
  "readEnv env name =
     (case env name of
        None \<Rightarrow> None
      | Some value \<Rightarrow> if value = [] then None else Some value)"

definition requireEnv :: "(string \<Rightarrow> string option) \<Rightarrow> string \<Rightarrow> string result" where
  "requireEnv env name =
     (case readEnv env name of
        None \<Rightarrow> Inl (RuntimeError (missing_env_text @ name))
      | Some value \<Rightarrow> Inr value)"

text \<open>The texts \<open>std::getline\<close> reads one after the other: nothing more follows a delimiter at the end.\<close>

function getlines :: "char \<Rightarrow> string \<Rightarrow> string list" where
  "getlines d s =
     (if s = [] then []
      else takeWhile (\<lambda>c. c \<noteq> d) s # getlines d (drop 1 (dropWhile (\<lambda>c. c \<noteq> d) s)))"
  by pat_completeness auto

termination
proof (relation "measure (\<lambda>(d, s). length s)", goal_cases)
  case (2 d s)
  then show ?case using length_dropWhile_le [of "\<lambda>c. c \<noteq> d" s] by (cases s) auto
qed simp

declare getlines.simps [simp del]

definition loadMarkets :: "AppConfig \<Rightarrow> (string \<Rightarrow> string option) \<Rightarrow> string list" where
  "loadMarkets cfg env =
     (case readEnv env ''UPBIT_MARKETS'' of
        None \<Rightarrow> bot_markets cfg
      | Some text \<Rightarrow>
          (let result = filter (\<lambda>token. token \<noteq> []) (getlines (CHR '','') text)
           in if result = [] then bot_markets cfg else result))"

section \<open>Assembly\<close>

record Launch =
  ln_open_db :: "string \<Rightarrow> unit result"
  ln_boot :: Boot
  ln_address :: "string \<Rightarrow> nat"
  ln_bearer :: "string \<Rightarrow> string \<Rightarrow> string"
  ln_polls :: "(bool \<times> bool \<times> bool) list"

record Bot =
  bt_manager :: Manager
  bt_router :: EventRouter
  bt_public :: WsClient
  bt_private :: WsClient

definition no_account :: Account where
  "no_account = \<lparr> a_id = [], a_krw_free = 0, a_krw_locked = 0, a_positions = [], a_totalAssetValue = 0 \<rparr>"

definition public_client :: "string \<Rightarrow> string list \<Rightarrow> WsClient" where
  "public_client live_candle_type markets =
     subscribeCandles live_candle_type markets False True ''DEFAULT''
       (connectPublic ''api.upbit.com'' ''443'' ''/websocket/v1''
         (setFatalCallback (setMessageHandler ws_new)))"

definition private_client :: "string \<Rightarrow> string list \<Rightarrow> WsClient" where
  "private_client ws_bearer markets =
     subscribeMyOrder markets True ''DEFAULT''
       (connectPrivate ''api.upbit.com'' ''443'' ''/websocket/v1/private'' ws_bearer
         (setHeartbeatInterval 30 (setHeartbeatMode UpbitTextPing
           (setFatalCallback (setReconnectCallback (setMessageHandler ws_new))))))"

definition assemble :: "AppConfig \<Rightarrow> Launch \<Rightarrow> string \<Rightarrow> string \<Rightarrow> string list \<Rightarrow> Bot result" where
  "assemble cfg la access_key secret_key markets =
     (case am_new cfg no_account markets of
        Inl e \<Rightarrow> Inl e
      | Inr account_mgr \<Rightarrow>
          (case ln_open_db la (db_path cfg) of
             Inl e \<Rightarrow> Inl e
           | Inr _ \<Rightarrow>
               (case manager_new cfg default_manager_config True (ln_boot la) markets \<lparr> env_am = account_mgr, env_store = [] \<rparr> of
                  Inl e \<Rightarrow> Inl e
                | Inr engine_mgr \<Rightarrow>
                    (case buildLiveCandleType cfg of
                       Inl e \<Rightarrow> Inl e
                     | Inr live_candle_type \<Rightarrow>
                         Inr \<lparr> bt_manager = engine_mgr, bt_router = registerWith (ln_address la) engine_mgr er_new,
                               bt_public = public_client live_candle_type markets,
                               bt_private = private_client (ln_bearer la access_key secret_key) markets \<rparr>))))"

section \<open>Running\<close>

text \<open>The callback of both clients: the flag after it and whether it writes its line.\<close>

definition onWsFatal :: "bool \<Rightarrow> bool \<times> bool" where
  "onWsFatal fatal_requested = (True, \<not> fatal_requested)"

text \<open>What a round of the loop sees: a stop request, a fatal client, a fatal worker. The result is the exit code, \<open>None\<close> while the loop
  goes on.\<close>

fun health_loop :: "(bool \<times> bool \<times> bool) list \<Rightarrow> int option" where
  "health_loop [] = None"
| "health_loop ((stop_requested, fatal_requested, fatal_worker) # polls) =
     (if stop_requested then Some 0
      else if fatal_requested \<or> fatal_worker then Some 1
      else health_loop polls)"

text \<open>An exit with code 1 leaves the process at once; a stop request stops the markets.\<close>

definition run :: "AppConfig \<Rightarrow> Launch \<Rightarrow> string \<Rightarrow> string \<Rightarrow> string list \<Rightarrow> (int option \<times> Bot) result" where
  "run cfg la access_key secret_key markets =
     (case assemble cfg la access_key secret_key markets of
        Inl e \<Rightarrow> Inl e
      | Inr b \<Rightarrow>
          (let started = b \<lparr> bt_manager := start (bt_manager b) \<rparr>;
               rc = health_loop (ln_polls la)
           in Inr (rc, if rc = Some 0 then started \<lparr> bt_manager := stop (bt_manager started) \<rparr> else started)))"

definition main :: "AppConfig \<Rightarrow> Launch \<Rightarrow> (string \<Rightarrow> string option) \<Rightarrow> int option" where
  "main cfg la env =
     (case requireEnv env ''UPBIT_ACCESS_KEY'' of
        Inl e \<Rightarrow> Some 1
      | Inr access_key \<Rightarrow>
          (case requireEnv env ''UPBIT_SECRET_KEY'' of
             Inl e \<Rightarrow> Some 1
           | Inr secret_key \<Rightarrow>
               (case run cfg la access_key secret_key (loadMarkets cfg env) of
                  Inl e \<Rightarrow> Some 1
                | Inr (rc, b) \<Rightarrow> rc)))"

section \<open>The candle type\<close>

lemma supported_bound: "isSupportedCandleUnit unit \<Longrightarrow> 0 < unit \<and> unit < 2 ^ 31"
  by (auto simp: isSupportedCandleUnit_def)

text \<open>
  The unit survives its way through the exchange: the program subscribes exactly if the configured unit is supported, and then the
  type it subscribes to is one its parser takes for a candle and reads as the same number of minutes.
\<close>

theorem candle_type_roundtrip:
  "case buildLiveCandleType cfg of
     Inl e \<Rightarrow> \<not> isSupportedCandleUnit (live_candle_unit_minutes cfg)
   | Inr type \<Rightarrow> isSupportedCandleUnit (live_candle_unit_minutes cfg) \<and> starts_with type ''candle'' \<and>
       parseMinuteCandleUnit type = Some (live_candle_unit_minutes cfg)"
proof (cases "isSupportedCandleUnit (live_candle_unit_minutes cfg)")
  case True
  define u where "u = live_candle_unit_minutes cfg"
  have u: "0 < u" "nat u < 2 ^ 31" using supported_bound [OF True] by (simp_all add: u_def nat_less_iff)
  have type: "buildLiveCandleType cfg = Inr (''candle.'' @ nat_str (nat u) @ ''m'')"
    using True u(1) by (simp add: buildLiveCandleType_def u_def int_str_def)
  have "parseMinuteCandleUnit (''candle.'' @ nat_str (nat u) @ ''m'') = Some u"
    using u from_chars_int_nat [OF u(2)] by (simp add: parseMinuteCandleUnit_def)
  then show ?thesis using True type by (simp add: u_def)
qed (simp add: buildLiveCandleType_def Let_def)

section \<open>The markets\<close>

fun join_markets :: "string list \<Rightarrow> string" where
  "join_markets [] = []"
| "join_markets [m] = m"
| "join_markets (m # ms) = m @ CHR '','' # join_markets ms"

lemma getlines_Nil [simp]: "getlines d [] = []"
  by (simp add: getlines.simps)

lemma getlines_Cons: "s \<noteq> [] \<Longrightarrow> getlines d s = takeWhile (\<lambda>c. c \<noteq> d) s # getlines d (drop 1 (dropWhile (\<lambda>c. c \<noteq> d) s))"
  by (subst getlines.simps) simp

lemma span_delimiter: "d \<notin> set s \<Longrightarrow> takeWhile (\<lambda>c. c \<noteq> d) (s @ t) = s @ takeWhile (\<lambda>c. c \<noteq> d) t \<and>
    dropWhile (\<lambda>c. c \<noteq> d) (s @ t) = dropWhile (\<lambda>c. c \<noteq> d) t"
  by (induction s) auto

lemma getlines_one:
  assumes "s \<noteq> []" "d \<notin> set s"
  shows "getlines d s = [s]"
proof -
  have span: "dropWhile (\<lambda>c. c \<noteq> d) s = []" "takeWhile (\<lambda>c. c \<noteq> d) s = s" using span_delimiter [OF assms(2), of "[]"] by simp_all
  show ?thesis unfolding getlines_Cons [OF assms(1)] span by simp
qed

lemma getlines_append: "d \<notin> set s \<Longrightarrow> getlines d (s @ d # t) = s # getlines d t"
  using span_delimiter [of d s "d # t"] by (simp add: getlines_Cons)

lemma getlines_join:
  "\<forall>m \<in> set ms. m \<noteq> [] \<and> CHR '','' \<notin> set m \<Longrightarrow> getlines (CHR '','') (join_markets ms) = ms"
  by (induction ms rule: join_markets.induct) (simp_all add: getlines_one getlines_append)

text \<open>
  A list of market names written with commas is read back as it is; and whatever the environment holds, the program never trades a
  market without a name or an empty list, unless the configuration has them.
\<close>

theorem market_list_roundtrip:
  "(names \<noteq> [] \<and> (\<forall>m \<in> set names. m \<noteq> [] \<and> CHR '','' \<notin> set m) \<and> env ''UPBIT_MARKETS'' = Some (join_markets names) \<longrightarrow>
      loadMarkets cfg env = names) \<and>
   ([] \<in> set (loadMarkets cfg env) \<longrightarrow> [] \<in> set (bot_markets cfg)) \<and> (loadMarkets cfg env = [] \<longrightarrow> bot_markets cfg = [])"
proof (intro conjI impI)
  assume a: "names \<noteq> [] \<and> (\<forall>m \<in> set names. m \<noteq> [] \<and> CHR '','' \<notin> set m) \<and> env ''UPBIT_MARKETS'' = Some (join_markets names)"
  then have "join_markets names \<noteq> []" by (cases names rule: join_markets.cases) auto
  moreover have "filter (\<lambda>token. token \<noteq> []) names = names" using a by simp
  ultimately show "loadMarkets cfg env = names" using a by (simp add: loadMarkets_def readEnv_def getlines_join)
qed (auto simp: loadMarkets_def Let_def split: option.splits if_splits)

section \<open>Start and exit\<close>

text \<open>What the construction of the manager needs.\<close>

lemma manager_new_iff:
  "(\<exists>mg. manager_new cfg mcfg db boot markets env = Inr mg) \<longleftrightarrow> (\<exists>k < nat (mc_sync_retry mcfg). \<exists>a. bo_first_account boot (1 + k) = Inr a)"
proof -
  have "(\<forall>k < n. \<exists>e. f k = Inl e) \<longleftrightarrow> \<not> (\<exists>k < n. \<exists>a. f k = Inr a)" for n :: nat and f :: "nat \<Rightarrow> RestError + Account"
    by (metis Inl_Inr_False obj_sumE)
  then show ?thesis
    using sync_attempts_None [of cfg "bo_first_account boot" 1 "nat (mc_sync_retry mcfg)" "env_am env"]
    by (auto simp: manager_new_def rebuildAccountOnStartup_def Let_def split: sum.splits option.splits)
qed

lemma assemble_iff:
  "(\<exists>b. assemble cfg la access_key secret_key markets = Inr b) \<longleftrightarrow>
     markets \<noteq> [] \<and> ln_open_db la (db_path cfg) = Inr () \<and> (\<exists>k < 3. \<exists>a. bo_first_account (ln_boot la) (1 + k) = Inr a) \<and>
     isSupportedCandleUnit (live_candle_unit_minutes cfg)"
proof -
  have m: "(\<exists>mg. manager_new cfg default_manager_config True (ln_boot la) markets e = Inr mg) \<longleftrightarrow>
      (\<exists>k < 3. \<exists>a. bo_first_account (ln_boot la) (1 + k) = Inr a)" for e
    using manager_new_iff [of cfg default_manager_config True "ln_boot la" markets e] by (simp add: default_manager_config_def)
  have c: "(\<exists>t. buildLiveCandleType cfg = Inr t) \<longleftrightarrow> isSupportedCandleUnit (live_candle_unit_minutes cfg)"
    by (simp add: buildLiveCandleType_def Let_def)
  show ?thesis
  proof (cases "\<exists>am. am_new cfg no_account markets = Inr am \<and> ln_open_db la (db_path cfg) = Inr ()")
    case True
    then obtain am where am: "am_new cfg no_account markets = Inr am" "ln_open_db la (db_path cfg) = Inr ()" by blast
    then have "markets \<noteq> []" by (auto simp: am_new_def)
    then show ?thesis
      unfolding am(2) m [symmetric, of "\<lparr> env_am = am, env_store = [] \<rparr>"] c [symmetric]
      using am by (auto simp: assemble_def split: sum.splits)
  qed (auto simp: assemble_def am_new_def split: sum.splits)
qed

text \<open>
  C37: When the program starts and how it ends. It starts trading exactly if there is a market, the database opens, one of three
  account queries is answered and the candle unit is supported. It ends with code 1 if a key is missing or it does not start, and
  otherwise with code 0 or 1 at the first round of the health check with a stop request or, without one, a fatal client or worker; it never ends
  otherwise.
\<close>

theorem start_and_exit_code:
  assumes "markets = loadMarkets cfg env" "keys = (\<exists>a s. requireEnv env ''UPBIT_ACCESS_KEY'' = Inr a \<and> requireEnv env ''UPBIT_SECRET_KEY'' = Inr s)"
    "starts = (markets \<noteq> [] \<and> ln_open_db la (db_path cfg) = Inr () \<and> (\<exists>k < 3. \<exists>a. bo_first_account (ln_boot la) (1 + k) = Inr a) \<and>
       isSupportedCandleUnit (live_candle_unit_minutes cfg))"
  shows "((\<exists>b. assemble cfg la access secret markets = Inr b) \<longleftrightarrow> starts) \<and>
     main cfg la env =
       (if keys \<and> starts
        then (case dropWhile (\<lambda>(stop_requested, client, worker). \<not> stop_requested \<and> \<not> client \<and> \<not> worker) (ln_polls la) of
                [] \<Rightarrow> None
              | (stop_requested, client, worker) # rest \<Rightarrow> Some (if stop_requested then 0 else 1))
        else Some 1)"
proof -
  have starts: "(\<exists>b. assemble cfg la a s markets = Inr b) \<longleftrightarrow> starts" for a s
    unfolding assms(3) by (rule assemble_iff)
  have h: "health_loop polls = (case dropWhile (\<lambda>(stop_requested, client, worker). \<not> stop_requested \<and> \<not> client \<and> \<not> worker) polls of
      [] \<Rightarrow> None | (stop_requested, client, worker) # rest \<Rightarrow> Some (if stop_requested then 0 else 1))" for polls
    by (induction polls rule: health_loop.induct) auto
  have run: "run cfg la a s markets = Inr r \<Longrightarrow> fst r = health_loop (ln_polls la)" for a s r
    by (auto simp: run_def Let_def split: sum.splits)
  have "(\<exists>r. run cfg la a s markets = Inr r) \<longleftrightarrow> starts" for a s
    unfolding starts [of a s, symmetric] by (auto simp: run_def Let_def split: sum.splits)
  note run_iff = this
  have "main cfg la env = (if keys \<and> starts then health_loop (ln_polls la) else Some 1)"
  proof (cases keys)
    case True
    then obtain a s where k: "requireEnv env ''UPBIT_ACCESS_KEY'' = Inr a" "requireEnv env ''UPBIT_SECRET_KEY'' = Inr s"
      using assms(2) by blast
    show ?thesis
      using run_iff [of a s] run [of a s] True
      by (cases "run cfg la a s markets") (auto simp: main_def k assms(1) [symmetric])
  next
    case False
    then show ?thesis using assms(2) by (auto simp: main_def split: sum.splits)
  qed
  then show ?thesis using starts by (simp add: h)
qed

section \<open>The connections\<close>

text \<open>
  C36: The two connections are what they should be. With a network that answers, the first commands make the public one resolve, verify and
  open \<open>api.upbit.com:443/websocket/v1\<close> without a token and subscribe to the configured candles of all markets, and the private one
  \<open>/websocket/v1/private\<close> of the same host with the token of the keys and subscribe to the orders of all markets, and nothing else is sent. Whatever the
  network, the clock and the exchange do afterwards, over any number of rounds and reconnections, every connection attempt of either client goes to its
  own host, port and target, the private one always with this same token and the public one with none. Messages and the fatal state of both are handed on, the
  private one reports reconnections and keeps itself alive every 30 s.
\<close>

theorem connections_as_configured:
  assumes "assemble cfg la access_key secret_key markets = Inr b" "\<And>i. stages_ok (cn_stages (net i)) \<and> cn_write (net i) 0 = (True, True)"
    "pub = run_commands dump net 0 (ws_cmd_q (bt_public b)) ((bt_public b) \<lparr> ws_cmd_q := [] \<rparr>)"
    "priv = run_commands dump net 0 (ws_cmd_q (bt_private b)) ((bt_private b) \<lparr> ws_cmd_q := [] \<rparr>)"
    "token = ln_bearer la access_key secret_key"
  shows "(\<exists>type. buildLiveCandleType cfg = Inr type \<and>
       ws_out pub = [Resolving ''api.upbit.com'' ''443'', Securing ''api.upbit.com'', Upgrading ''api.upbit.com'' ''/websocket/v1'' None,
         Wrote (buildCandleSubJsonFrame dump (cn_ticket (net 1)) type markets False True ''DEFAULT'')]) \<and>
     ws_out priv = [Resolving ''api.upbit.com'' ''443'', Securing ''api.upbit.com'',
       Upgrading ''api.upbit.com'' ''/websocket/v1/private'' (Some token),
       Wrote (buildMyOrderSubJsonFrame dump (cn_ticket (net 1)) markets True ''DEFAULT'')] \<and>
     is_open pub \<and> is_open priv \<and>
     (\<forall>status now nets. \<forall>x \<in> set (ws_out (lp_client (read_loop cfg dump status nets (start_loop now (bt_public b))))).
        dials_to ''api.upbit.com'' ''443'' ''/websocket/v1'' None x) \<and>
     (\<forall>status now nets. \<forall>x \<in> set (ws_out (lp_client (read_loop cfg dump status nets (start_loop now (bt_private b))))).
        dials_to ''api.upbit.com'' ''443'' ''/websocket/v1/private'' (Some token) x) \<and>
     ws_on_msg pub \<and> ws_on_msg priv \<and> ws_fatal_cb pub \<and> ws_fatal_cb priv \<and> ws_on_reconnect priv \<and>
     ws_heartbeat_mode priv = UpbitTextPing \<and> ws_heartbeat_interval priv = 30000"
proof -
  obtain type where b: "buildLiveCandleType cfg = Inr type" "bt_public b = public_client type markets"
    "bt_private b = private_client token markets"
    using assms(1,5) by (auto simp: assemble_def split: sum.splits)
  have st: "stages_ok (cn_stages (net 0))" "cn_write (net (Suc 0)) 0 = (True, True)" using assms(2) by auto
  note wiring = public_client_def private_client_def connectPublic_def connectPrivate_def subscribeCandles_def subscribeMyOrder_def pushCommand_def
    setFatalCallback_def setMessageHandler_def setReconnectCallback_def setHeartbeatMode_def setHeartbeatInterval_def ws_new_def
  note ops = wiring connectImpl_def resetStream_def resubscribeAll_def sendTextFrame_def emit_def is_open_def
  have p: "is_open pub" "ws_on_msg pub" "ws_fatal_cb pub"
    "ws_out pub = [Resolving ''api.upbit.com'' ''443'', Securing ''api.upbit.com'', Upgrading ''api.upbit.com'' ''/websocket/v1'' None,
       Wrote (buildCandleSubJsonFrame dump (cn_ticket (net 1)) type markets False True ''DEFAULT'')]"
    using st by (simp_all add: assms(3) b ops stages_ok_def Let_def)
  have q: "is_open priv" "ws_on_msg priv" "ws_fatal_cb priv" "ws_on_reconnect priv" "ws_heartbeat_mode priv = UpbitTextPing"
    "ws_heartbeat_interval priv = 30000"
    "ws_out priv = [Resolving ''api.upbit.com'' ''443'', Securing ''api.upbit.com'',
       Upgrading ''api.upbit.com'' ''/websocket/v1/private'' (Some token),
       Wrote (buildMyOrderSubJsonFrame dump (cn_ticket (net 1)) markets True ''DEFAULT'')]"
    using st by (simp_all add: assms(4) b ops stages_ok_def Let_def)
  have "endpoint_inv ''api.upbit.com'' ''443'' ''/websocket/v1'' None (lp_client (start_loop now (bt_public b)))" for now
    by (simp add: b wiring start_loop_def endpoint_inv_def is_open_def)
  from loop_inv [OF this] have pub_life: "\<forall>x \<in> set (ws_out (lp_client (read_loop cfg dump status nets (start_loop now (bt_public b))))).
      dials_to ''api.upbit.com'' ''443'' ''/websocket/v1'' None x" for status now nets
    unfolding endpoint_inv_def by blast
  have "endpoint_inv ''api.upbit.com'' ''443'' ''/websocket/v1/private'' (Some token) (lp_client (start_loop now (bt_private b)))" for now
    by (simp add: b wiring start_loop_def endpoint_inv_def is_open_def)
  from loop_inv [OF this] have priv_life: "\<forall>x \<in> set (ws_out (lp_client (read_loop cfg dump status nets (start_loop now (bt_private b))))).
      dials_to ''api.upbit.com'' ''443'' ''/websocket/v1/private'' (Some token) x" for status now nets
    unfolding endpoint_inv_def by blast
  show ?thesis using b(1) p q pub_life priv_life by blast
qed

section \<open>A start\<close>

definition sample_launch :: Launch where
  "sample_launch = \<lparr> ln_open_db = (\<lambda>path. Inr ()),
     ln_boot = \<lparr> bo_first_account = (\<lambda>i. Inr no_account), bo_final_account = (\<lambda>i. Inr no_account), bo_open_orders = (\<lambda>m i. Inr []),
       bo_cancel = (\<lambda>r i. Inr True), bo_account = (\<lambda>m. Inr no_account) \<rparr>,
     ln_address = length, ln_bearer = (\<lambda>a s. ''Bearer '' @ a), ln_polls = [(False, False, False), (True, True, False)] \<rparr>"

definition sample_env :: "string \<Rightarrow> string option" where
  "sample_env k = (if k = ''UPBIT_MARKETS'' then Some ''KRW-BTC,,KRW-ETH'' else Some ''key'')"

lemma sample_markets: "loadMarkets default_config sample_env = [''KRW-BTC'', ''KRW-ETH'']"
proof -
  have "getlines (CHR '','') ''KRW-BTC,,KRW-ETH'' = [''KRW-BTC'', [], ''KRW-ETH'']" by (simp add: getlines_Cons)
  then show ?thesis by (simp add: loadMarkets_def readEnv_def sample_env_def)
qed

theorem start_and_exit_code_witness: "main default_config sample_launch sample_env = Some 0 \<and> main default_config sample_launch (\<lambda>k. None) = Some 1"
proof -
  note exit = start_and_exit_code [OF refl refl refl, THEN conjunct2, of default_config sample_launch]
  have "\<exists>k < (3 :: nat). True" by (auto intro: exI [of _ 0])
  then have "main default_config sample_launch sample_env = Some 0"
    unfolding exit sample_markets by (simp add: requireEnv_def readEnv_def sample_env_def sample_launch_def isSupportedCandleUnit_def default_config_def)
  moreover have "main default_config sample_launch (\<lambda>k. None) = Some 1" unfolding exit by (simp add: requireEnv_def readEnv_def)
  ultimately show ?thesis by simp
qed

lemma sample_assembled: "\<exists>b. assemble default_config sample_launch ''a'' ''s'' [''KRW-BTC''] = Inr b"
  unfolding assemble_iff by (auto simp: sample_launch_def isSupportedCandleUnit_def default_config_def intro: exI [of _ 0])

theorem connections_as_configured_witness:
  "\<exists>b priv. assemble default_config sample_launch ''a'' ''s'' [''KRW-BTC''] = Inr b \<and>
     priv = run_commands (\<lambda>j. ''f'') (\<lambda>i. \<lparr> cn_stages = \<lparr> sg_resolve = True, sg_tcp = True, sg_sni = True, sg_tls = True, sg_handshake = True \<rparr>,
       cn_ticket = ''t'', cn_write = (\<lambda>j. (True, True)) \<rparr>) 0 (ws_cmd_q (bt_private b)) ((bt_private b) \<lparr> ws_cmd_q := [] \<rparr>) \<and>
     ws_out priv = [Resolving ''api.upbit.com'' ''443'', Securing ''api.upbit.com'',
       Upgrading ''api.upbit.com'' ''/websocket/v1/private'' (Some ''Bearer a''), Wrote ''f'']"
proof -
  obtain b where b: "assemble default_config sample_launch ''a'' ''s'' [''KRW-BTC''] = Inr b" using sample_assembled by blast
  show ?thesis
    using connections_as_configured [OF b _ refl refl refl, where dump = "\<lambda>j. ''f''" and
        net = "\<lambda>i. \<lparr> cn_stages = \<lparr> sg_resolve = True, sg_tcp = True, sg_sni = True, sg_tls = True, sg_handshake = True \<rparr>,
          cn_ticket = ''t'', cn_write = (\<lambda>j. (True, True)) \<rparr>"] b
    by (simp add: stages_ok_def sample_launch_def buildMyOrderSubJsonFrame_def)
qed

theorem market_list_roundtrip_witness: "loadMarkets default_config (\<lambda>k. Some (join_markets [''KRW-BTC'', ''KRW-ETH''])) = [''KRW-BTC'', ''KRW-ETH'']"
  by (rule market_list_roundtrip [THEN conjunct1, rule_format]) simp

end
