(* ===== verification/Transport.thy ===== *)
theory Transport
  imports Rest
begin

text \<open>
  One exchange with the server, \<open>performOnce\<close> of \<open>src/src/api/rest/RestClient.cpp\<close>: the stages of the connection, the request that is
  written, and the error each failure becomes. What the network library (Boost) answers to each stage of an attempt is the
  argument \<open>wire\<close>; the result also says which request was written whole, if one was.
\<close>

section \<open>What the network answers\<close>

record Ec =
  ec_timeout :: bool
  ec_message :: string

record RawResponse =
  rr_status :: int
  rr_fields :: "(string \<times> string) list"
  rr_body :: string

record Wire =
  wi_resolve :: "Ec option"
  wi_sni :: bool
  wi_connect :: "Ec option"
  wi_handshake :: "Ec option"
  wi_write :: "Ec option"
  wi_read :: "Ec + RawResponse"

section \<open>The request\<close>

datatype Verb = verb_get | verb_post | verb_put | verb_delete

fun toBeastVerb :: "HttpMethod \<Rightarrow> Verb" where
  "toBeastVerb Get = verb_get"
| "toBeastVerb Post = verb_post"
| "toBeastVerb Put = verb_put"
| "toBeastVerb Delete = verb_delete"

record WireRequest =
  wq_verb :: Verb
  wq_target :: string
  wq_fields :: "(string \<times> string) list"
  wq_body :: string

text \<open>\<open>set\<close> replaces a field whatever the case of its name.\<close>

definition set_field :: "string \<times> string \<Rightarrow> (string \<times> string) list \<Rightarrow> (string \<times> string) list" where
  "set_field kv fds = filter (\<lambda>f. map lower (fst f) \<noteq> map lower (fst kv)) fds @ [kv]"

text \<open>\<open>prepare_payload\<close> sets the length of a body.\<close>

definition wire_request :: "HttpRequest \<Rightarrow> WireRequest" where
  "wire_request req =
     (let fds = fold set_field (hq_headers req)
            (set_field (''User-Agent'', ''CoinBot/1.0'') (set_field (''Host'', hq_host req) []))
      in \<lparr> wq_verb = toBeastVerb (hq_method req), wq_target = hq_target req,
           wq_fields = (if hq_body req \<noteq> [] then set_field (''Content-Length'', nat_str (length (hq_body req))) fds else fds),
           wq_body = hq_body req \<rparr>)"

section \<open>The exchange\<close>

definition makeError :: "RestErrorCode \<Rightarrow> Ec \<Rightarrow> RestError" where
  "makeError c ec = \<lparr> re_code = c, re_message = ec_message ec, re_http_status = 0 \<rparr>"

definition stage_error :: "RestErrorCode \<Rightarrow> Ec \<Rightarrow> RestError" where
  "stage_error c ec = (if ec_timeout ec then makeError Timeout ec else makeError c ec)"

text \<open>\<open>emplace\<close> keeps the first of two fields with one name.\<close>

definition emplace :: "string \<times> string \<Rightarrow> (string \<times> string) list \<Rightarrow> (string \<times> string) list" where
  "emplace kv m = (if fst kv \<in> fst ` set m then m else m @ [kv])"

definition performOnce :: "Wire \<Rightarrow> HttpRequest \<Rightarrow> (RestError + HttpResponse) \<times> WireRequest option" where
  "performOnce wire req =
     (case wi_resolve wire of Some ec \<Rightarrow> (Inl (stage_error ResolveFailed ec), None) | None \<Rightarrow>
      if \<not> wi_sni wire then (Inl \<lparr> re_code = HandshakeFailed, re_message = ''SNI set failed'', re_http_status = 0 \<rparr>, None) else
      case wi_connect wire of Some ec \<Rightarrow> (Inl (stage_error ConnectFailed ec), None) | None \<Rightarrow>
      case wi_handshake wire of Some ec \<Rightarrow> (Inl (stage_error HandshakeFailed ec), None) | None \<Rightarrow>
      case wi_write wire of Some ec \<Rightarrow> (Inl (stage_error WriteFailed ec), None) | None \<Rightarrow>
      (case wi_read wire of
         Inl ec \<Rightarrow> Inl (stage_error ReadFailed ec)
       | Inr raw \<Rightarrow> Inr \<lparr> hr_status = rr_status raw, hr_headers = fold emplace (rr_fields raw) [], hr_body = rr_body raw \<rparr>,
       Some (wire_request req)))"

text \<open>\<open>RestClient::perform\<close> over the network: attempt \<open>n\<close> meets \<open>wires n\<close>.\<close>

definition rest_perform :: "(nat \<Rightarrow> Wire) \<Rightarrow> RetryPolicy \<Rightarrow> HttpRequest \<Rightarrow> (RestError + HttpResponse) \<times> int list" where
  "rest_perform wires retry req = perform (\<lambda>n r. fst (performOnce (wires n) r)) req retry"

text \<open>The requests that were written, in the order of the attempts.\<close>

definition written :: "(nat \<Rightarrow> Wire) \<Rightarrow> RetryPolicy \<Rightarrow> HttpRequest \<Rightarrow> WireRequest list" where
  "written wires retry req =
     List.map_filter (\<lambda>n. snd (performOnce (wires n) req)) [1..<length (snd (rest_perform wires retry req)) + 2]"

section \<open>Outcomes\<close>

definition reachable_wire :: "Wire \<Rightarrow> bool" where
  "reachable_wire w \<longleftrightarrow> wi_resolve w = None \<and> wi_sni w \<and> wi_connect w = None \<and> wi_handshake w = None \<and> wi_write w = None"

lemma performOnce_reached:
  "reachable_wire w \<Longrightarrow> performOnce w req =
     ((case wi_read w of
         Inl ec \<Rightarrow> Inl (stage_error ReadFailed ec)
       | Inr raw \<Rightarrow> Inr \<lparr> hr_status = rr_status raw, hr_headers = fold emplace (rr_fields raw) [], hr_body = rr_body raw \<rparr>),
      Some (wire_request req))"
  by (simp add: reachable_wire_def performOnce_def)

text \<open>A request is written exactly if every stage before the answer succeeds, and an answer needs a written request.\<close>

lemma performOnce_written: "snd (performOnce w req) \<noteq> None \<longleftrightarrow> reachable_wire w"
  by (simp add: performOnce_def reachable_wire_def split: option.split)

lemma performOnce_answer: "fst (performOnce w req) = Inr resp \<Longrightarrow> reachable_wire w"
  by (auto simp: performOnce_def reachable_wire_def split: option.splits if_splits)

lemma lost_answer_retried: "retryable default_retry (Inl (stage_error ReadFailed ec))"
  by (simp add: retryable_def shouldRetryError_def stage_error_def makeError_def default_retry_def)

text \<open>With the default policy a lost answer leads to a second exchange, and its answer is the result.\<close>

lemma lost_answer_again:
  assumes "hq_host req \<noteq> []" "hq_target req \<noteq> []" "reachable_wire (wires 1)" "wi_read (wires 1) = Inl ec"
  shows "rest_perform wires default_retry req = (fst (performOnce (wires 2) req), [200])"
proof -
  have p: "fst (performOnce (wires 1) req) = Inl (stage_error ReadFailed ec)" using assms(3,4) by (simp add: performOnce_reached)
  have m: "rp_max_attempts default_retry = 2" "rp_base_delay default_retry = 200" by (simp_all add: default_retry_def)
  show ?thesis
    using assms(1,2) p lost_answer_retried [of ec] m
    by (simp add: rest_perform_def perform_def perform_loop.simps [of _ _ 0] perform_loop.simps [of _ _ "Suc 0"] Let_def numeral_2_eq_2)
qed

end
