(* ===== verification/LostAnswer.thy ===== *)
theory LostAnswer
  imports Transport ExchangeClient EngineProperties MarketWorker
begin

text \<open>
  What becomes of an order whose answer is lost: the transport sends it a second time, and the refusal of the second copy is what the client, the
  engine and so the strategy are told. The development's parts meet here: the network, the retries, the client and the engine.
\<close>

lemma order_request_address: "order_request sign dump req = Inr http \<Longrightarrow> hq_host http \<noteq> [] \<and> hq_target http \<noteq> []"
  by (auto simp: order_request_def upbit_request_def Let_def split: sum.splits if_splits)

lemma submit_one_answer: "submit cfg post req s = submit cfg (\<lambda>_. post req) req s"
  by (simp add: submit_def)

text \<open>
  C6: An order that the exchange has taken can be reported as refused. If the answer to the first copy of an order is lost, the transport writes
  the same order again, and if the exchange refuses this copy (as one whose identifier is taken) the submission fails: the
  engine frees the reservation and keeps neither an order nor an identifier, in any reachable state, although the first
  copy was written whole.
\<close>

theorem placed_order_reported_refused:
  assumes "order_request sign dump req = Inr http" "reachable_wire (wires 1)" "reachable_wire (wires 2)"
    "wi_read (wires 1) = Inl lost" "wi_read (wires 2) = Inr refusal" "\<not> isSuccessStatus (rr_status refusal)"
    "post = (\<lambda>r. postOrder (\<lambda>h. fst (rest_perform wires default_retry h)) sign dump parse read_uuid r)"
    "reach cfg m (e, env)" "fin (computeReserveAmount cfg req)" "getBudget (env_am env) m = Some b"
    "mb_reserved_krw b = 0" "amount_ok (mb_available_krw b)" "submit cfg (post_answer post) req (e, env) = (r, e', env')"
  shows "written wires default_retry http = [wire_request http, wire_request http] \<and> wq_body (wire_request http) = hq_body http \<and>
     post req = Inl (makeHttpStatusError (rr_status refusal) ''Upbit POST /v1/orders'' (rr_body refusal)) \<and>
     \<not> er_success r \<and> me_buy_token e' = me_buy_token e \<and> me_sell_uuid e' = me_sell_uuid e \<and> env_store env' = env_store env \<and>
     (\<exists>b'. getBudget (env_am env') m = Some b' \<and> mb_reserved_krw b' = 0)"
proof -
  note addr = order_request_address [OF assms(1)]
  have p: "rest_perform wires default_retry http = (fst (performOnce (wires 2) http), [200])"
    using addr assms(2,4) by (intro lost_answer_again) simp_all
  have sent: "snd (performOnce (wires n) http) = Some (wire_request http)" if "n = 1 \<or> n = 2" for n
    using that assms(2,3) by (auto simp: performOnce_reached)
  have "written wires default_retry http = [wire_request http, wire_request http]"
    using sent [of 1] sent [of 2] by (simp add: written_def p upt_rec List.map_filter_def numeral_2_eq_2)
  moreover have post: "post req = Inl (makeHttpStatusError (rr_status refusal) ''Upbit POST /v1/orders'' (rr_body refusal))"
    using assms(1,3,5,6) p by (simp add: assms(7) postOrder_def performOnce_reached)
  moreover obtain msg where "post_answer post req = Inl msg" using post by (simp add: post_answer_def)
  then have "submit cfg (\<lambda>_. Inl msg) req (e, env) = (r, e', env')"
    using assms(13) submit_one_answer [of cfg "post_answer post" req "(e, env)"] by simp
  note failed_submit_restores [OF assms(8-12) this]
  ultimately show ?thesis by (auto simp: wire_request_def Let_def)
qed

section \<open>Such an order\<close>

definition lossy_wires :: "nat \<Rightarrow> Wire" where
  "lossy_wires n = \<lparr> wi_resolve = None, wi_sni = True, wi_connect = None, wi_handshake = None, wi_write = None,
     wi_read = (if n = 1 then Inl \<lparr> ec_timeout = True, ec_message = ''timeout'' \<rparr>
                else Inr \<lparr> rr_status = 400, rr_fields = [], rr_body = ''duplicate identifier'' \<rparr>) \<rparr>"

lemma buy_request_sent: "\<exists>http. order_request sign dump buy_request = Inr http"
proof -
  have "fin (D 50000)" "0 < val (D 50000)" using rep_int [of 50000] by (simp_all add: fin_lit)
  then show ?thesis using amount_order_request [of buy_request "D 50000" sign dump] by (auto simp: buy_request_def)
qed

theorem placed_order_reported_refused_witness:
  "\<exists>http post. order_request show_sign join_params buy_request = Inr http \<and>
     written lossy_wires default_retry http = [wire_request http, wire_request http] \<and>
     post = (\<lambda>r. postOrder (\<lambda>h. fst (rest_perform lossy_wires default_retry h)) show_sign join_params (\<lambda>t. Inr ()) (\<lambda>j. Inr ''u'') r) \<and>
     \<not> er_success (fst (submit test_config (post_answer post) buy_request (me_new ''KRW-BTC'', test_env)))"
proof -
  define post where "post = (\<lambda>r. postOrder (\<lambda>h. fst (rest_perform lossy_wires default_retry h)) show_sign join_params (\<lambda>t. Inr ()) (\<lambda>j. Inr ''u'') r)"
  obtain http where http: "order_request show_sign join_params buy_request = Inr http" using buy_request_sent by blast
  have w: "reachable_wire (lossy_wires n)" for n by (simp add: reachable_wire_def lossy_wires_def)
  obtain r e' env' where s: "submit test_config (post_answer post) buy_request (me_new ''KRW-BTC'', test_env) = (r, e', env')"
    using prod_cases3 by blast
  have b: "getBudget (env_am test_env) ''KRW-BTC'' = Some ((zero_budget ''KRW-BTC'') \<lparr> mb_available_krw := D 100000, mb_initial_capital := D 100000 \<rparr>)"
    using example_budget_btc by (simp add: test_env_def)
  note result = placed_order_reported_refused [where wires = lossy_wires, OF http w w _ _ _ post_def reach_start _ b _ _ s]
  have "written lossy_wires default_retry http = [wire_request http, wire_request http] \<and> \<not> er_success r"
    using result by (simp add: lossy_wires_def isSuccessStatus_def zero_budget_def)
  then show ?thesis using http s post_def by auto
qed

end
