(* ===== verification/JsonRead.thy ===== *)
theory JsonRead
  imports UpbitMappers "HOL-Library.Monad_Syntax"
begin

text \<open>
  Reading the transfer objects out of JSON values: the \<open>from_json\<close> functions of \<open>src/src/api/upbit/dto\<close> and the serializer for
  optional values of \<open>src/src/util/JsonOptional.h\<close>. The JSON library (nlohmann) is the argument \<open>lib\<close>, its access functions over a
  type of values that is not fixed; an exception of the library is \<open>None\<close>, since every caller catches them all alike. A member that a
  function does not read keeps the value of a value-initialised object: zero, \<open>False\<close> or empty.
\<close>

section \<open>The library and its combinations\<close>

record 'j JsonLib =
  jl_contains :: "'j \<Rightarrow> string \<Rightarrow> bool"
  jl_at :: "'j \<Rightarrow> string \<Rightarrow> 'j option"
  jl_is_null :: "'j \<Rightarrow> bool"
  jl_string :: "'j \<Rightarrow> string option"
  jl_bool :: "'j \<Rightarrow> bool option"
  jl_int :: "'j \<Rightarrow> int option"
  jl_int64 :: "'j \<Rightarrow> int64 option"
  jl_double :: "'j \<Rightarrow> double option"
  jl_elements :: "'j \<Rightarrow> 'j list option"

text \<open>What the documentation of the library says of the access by name: \<open>at\<close> succeeds exactly on a member that is contained.\<close>

definition json_laws :: "'j JsonLib \<Rightarrow> bool" where
  "json_laws lib \<longleftrightarrow> (\<forall>j k. jl_contains lib j k \<longleftrightarrow> jl_at lib j k \<noteq> None)"

text \<open>\<open>j.at(k).get_to(x)\<close>.\<close>

definition required :: "'j JsonLib \<Rightarrow> ('j \<Rightarrow> 'a option) \<Rightarrow> 'j \<Rightarrow> string \<Rightarrow> 'a option" where
  "required lib rd j k = Option.bind (jl_at lib j k) rd"

text \<open>\<open>if (j.contains(k) && !j.at(k).is_null()) j.at(k).get_to(x); else x = d;\<close>\<close>

definition member_or :: "'j JsonLib \<Rightarrow> ('j \<Rightarrow> 'a option) \<Rightarrow> 'a \<Rightarrow> 'j \<Rightarrow> string \<Rightarrow> 'a option" where
  "member_or lib rd d j k =
     (if jl_contains lib j k
      then Option.bind (jl_at lib j k) (\<lambda>v. if jl_is_null lib v then Some d else rd v)
      else Some d)"

text \<open>The serializer for \<open>std::optional\<close>; \<open>enc\<close> and \<open>nul\<close> make JSON values.\<close>

definition read_optional :: "'j JsonLib \<Rightarrow> ('j \<Rightarrow> 'a option) \<Rightarrow> 'j \<Rightarrow> 'a option option" where
  "read_optional lib rd v = (if jl_is_null lib v then Some None else map_option Some (rd v))"

definition write_optional :: "'j \<Rightarrow> ('a \<Rightarrow> 'j) \<Rightarrow> 'a option \<Rightarrow> 'j" where
  "write_optional nul enc x = (case x of Some a \<Rightarrow> enc a | None \<Rightarrow> nul)"

text \<open>An optional member.\<close>

definition optional :: "'j JsonLib \<Rightarrow> ('j \<Rightarrow> 'a option) \<Rightarrow> 'j \<Rightarrow> string \<Rightarrow> 'a option option" where
  "optional lib rd j k = member_or lib (read_optional lib rd) None j k"

text \<open>\<open>NLOHMANN_JSON_SERIALIZE_ENUM\<close>: a value that is none of the listed texts becomes the first enumerator.\<close>

definition read_enum :: "'j JsonLib \<Rightarrow> (string \<times> 'e) list \<Rightarrow> 'j \<Rightarrow> 'e option" where
  "read_enum lib table v =
     (case jl_string lib v of
        None \<Rightarrow> Some (snd (hd table))
      | Some s \<Rightarrow> (case map_of table s of Some e \<Rightarrow> Some e | None \<Rightarrow> Some (snd (hd table))))"

definition side_table :: "(string \<times> Side) list" where
  "side_table = [(''bid'', Bid), (''ask'', Ask)]"

definition state_table :: "(string \<times> OrdState) list" where
  "state_table = [(''wait'', St_wait), (''watch'', St_watch), (''done'', St_done), (''cancel'', St_cancel)]"

definition condition_table :: "(string \<times> OrdCondition) list" where
  "condition_table = [(''ioc'', Ioc), (''fok'', Fok), (''post_only'', Post_only)]"

definition smp_table :: "(string \<times> SMP) list" where
  "smp_table = [(''cancel_maker'', Cancel_maker), (''cancel_taker'', Cancel_taker), (''reduce'', Reduce)]"

text \<open>The elements of an array, each read, the first exception first.\<close>

fun read_all :: "('j \<Rightarrow> 'a option) \<Rightarrow> 'j list \<Rightarrow> 'a list option" where
  "read_all rd [] = Some []"
| "read_all rd (v # vs) = Option.bind (rd v) (\<lambda>a. map_option ((#) a) (read_all rd vs))"

definition read_list :: "'j JsonLib \<Rightarrow> ('j \<Rightarrow> 'a option) \<Rightarrow> 'j \<Rightarrow> 'a list option" where
  "read_list lib rd v = Option.bind (jl_elements lib v) (read_all rd)"

section \<open>Accounts and orders\<close>

definition from_json_account :: "'j JsonLib \<Rightarrow> 'j \<Rightarrow> AccountDto option" where
  "from_json_account lib j = do {
     currency \<leftarrow> required lib (jl_string lib) j ''currency'';
     balance \<leftarrow> required lib (jl_string lib) j ''balance'';
     locked \<leftarrow> required lib (jl_string lib) j ''locked'';
     avg_buy_price \<leftarrow> required lib (jl_string lib) j ''avg_buy_price'';
     avg_buy_price_modified \<leftarrow> required lib (jl_bool lib) j ''avg_buy_price_modified'';
     unit_currency \<leftarrow> required lib (jl_string lib) j ''unit_currency'';
     Some \<lparr> ad_currency = currency, ad_balance = balance, ad_locked = locked, ad_avg_buy_price = avg_buy_price,
       ad_avg_buy_price_modified = avg_buy_price_modified, ad_unit_currency = unit_currency \<rparr> }"

definition from_json_accounts :: "'j JsonLib \<Rightarrow> 'j \<Rightarrow> AccountDto list option" where
  "from_json_accounts lib j = read_list lib (from_json_account lib) j"

definition from_json_trade :: "'j JsonLib \<Rightarrow> 'j \<Rightarrow> ArrayOfTrade option" where
  "from_json_trade lib j = do {
     market \<leftarrow> member_or lib (jl_string lib) [] j ''market'';
     uuid \<leftarrow> member_or lib (jl_string lib) [] j ''uuid'';
     price \<leftarrow> member_or lib (jl_string lib) [] j ''price'';
     volume \<leftarrow> member_or lib (jl_string lib) [] j ''volume'';
     funds \<leftarrow> member_or lib (jl_string lib) [] j ''funds'';
     trend \<leftarrow> member_or lib (jl_string lib) [] j ''trend'';
     created_at \<leftarrow> member_or lib (jl_string lib) [] j ''created_at'';
     side \<leftarrow> member_or lib (read_enum lib side_table) Bid j ''side'';
     Some \<lparr> at_market = market, at_uuid = uuid, at_price = price, at_volume = volume, at_funds = funds, at_trend = trend,
       at_created_at = created_at, at_side = side \<rparr> }"

definition from_json_order :: "'j JsonLib \<Rightarrow> 'j \<Rightarrow> OrderResponseDto option" where
  "from_json_order lib j = do {
     market \<leftarrow> required lib (jl_string lib) j ''market'';
     uuid \<leftarrow> required lib (jl_string lib) j ''uuid'';
     side \<leftarrow> required lib (read_enum lib side_table) j ''side'';
     ord_type \<leftarrow> required lib (jl_string lib) j ''ord_type'';
     state \<leftarrow> required lib (read_enum lib state_table) j ''state'';
     created_at \<leftarrow> required lib (jl_string lib) j ''created_at'';
     price \<leftarrow> optional lib (jl_string lib) j ''price'';
     volume \<leftarrow> optional lib (jl_string lib) j ''volume'';
     remaining_volume \<leftarrow> optional lib (jl_string lib) j ''remaining_volume'';
     executed_volume \<leftarrow> member_or lib (jl_string lib) ''0'' j ''executed_volume'';
     executed_funds \<leftarrow> optional lib (jl_string lib) j ''executed_funds'';
     reserved_fee \<leftarrow> member_or lib (jl_string lib) ''0'' j ''reserved_fee'';
     remaining_fee \<leftarrow> member_or lib (jl_string lib) ''0'' j ''remaining_fee'';
     paid_fee \<leftarrow> member_or lib (jl_string lib) ''0'' j ''paid_fee'';
     locked \<leftarrow> member_or lib (jl_string lib) ''0'' j ''locked'';
     time_in_force \<leftarrow> optional lib (read_enum lib condition_table) j ''time_in_force'';
     smp_type \<leftarrow> optional lib (read_enum lib smp_table) j ''smp_type'';
     prevented_volume \<leftarrow> member_or lib (jl_string lib) ''0'' j ''prevented_volume'';
     prevented_locked \<leftarrow> optional lib (jl_string lib) j ''prevented_locked'';
     trades_count \<leftarrow> member_or lib (jl_int lib) 0 j ''trades_count'';
     identifier \<leftarrow> optional lib (jl_string lib) j ''identifier'';
     trades \<leftarrow> member_or lib (read_list lib (from_json_trade lib)) [] j ''trades'';
     Some \<lparr> rs_market = market, rs_uuid = uuid, rs_side = side, rs_ord_type = ord_type, rs_price = price, rs_volume = volume,
       rs_state = state, rs_created_at = created_at, rs_remaining_volume = remaining_volume, rs_executed_volume = executed_volume,
       rs_executed_funds = executed_funds, rs_reserved_fee = reserved_fee, rs_remaining_fee = remaining_fee, rs_paid_fee = paid_fee,
       rs_locked = locked, rs_time_in_force = time_in_force, rs_smp_type = smp_type, rs_prevented_volume = prevented_volume,
       rs_prevented_locked = prevented_locked, rs_trades_count = trades_count, rs_identifier = identifier, rs_trades = trades
       \<rparr> }"

definition from_json_wait_order :: "'j JsonLib \<Rightarrow> 'j \<Rightarrow> WaitOrderResponseDto option" where
  "from_json_wait_order lib j = do {
     market \<leftarrow> required lib (jl_string lib) j ''market'';
     uuid \<leftarrow> required lib (jl_string lib) j ''uuid'';
     side \<leftarrow> required lib (read_enum lib side_table) j ''side'';
     ord_type \<leftarrow> required lib (jl_string lib) j ''ord_type'';
     price \<leftarrow> optional lib (jl_string lib) j ''price'';
     volume \<leftarrow> optional lib (jl_string lib) j ''volume'';
     state \<leftarrow> required lib (read_enum lib state_table) j ''state'';
     created_at \<leftarrow> required lib (jl_string lib) j ''created_at'';
     remaining_volume \<leftarrow> member_or lib (jl_string lib) ''0'' j ''remaining_volume'';
     executed_volume \<leftarrow> member_or lib (jl_string lib) ''0'' j ''executed_volume'';
     executed_funds \<leftarrow> member_or lib (jl_string lib) ''0'' j ''executed_funds'';
     reserved_fee \<leftarrow> member_or lib (jl_string lib) ''0'' j ''reserved_fee'';
     locked \<leftarrow> member_or lib (jl_string lib) ''0'' j ''locked'';
     remaining_fee \<leftarrow> member_or lib (jl_string lib) ''0'' j ''remaining_fee'';
     paid_fee \<leftarrow> member_or lib (jl_string lib) ''0'' j ''paid_fee'';
     time_in_force \<leftarrow> optional lib (read_enum lib condition_table) j ''time_in_force'';
     smp_type \<leftarrow> optional lib (read_enum lib smp_table) j ''smp_type'';
     prevented_volume \<leftarrow> member_or lib (jl_string lib) ''0'' j ''prevented_volume'';
     prevented_locked \<leftarrow> optional lib (jl_string lib) j ''prevented_locked'';
     trades_count \<leftarrow> member_or lib (jl_int lib) 0 j ''trades_count'';
     identifier \<leftarrow> optional lib (jl_string lib) j ''identifier'';
     Some \<lparr> wr_market = market, wr_uuid = uuid, wr_side = side, wr_ord_type = ord_type, wr_price = price, wr_volume = volume,
       wr_state = state, wr_created_at = created_at, wr_remaining_volume = remaining_volume, wr_executed_volume = executed_volume,
       wr_executed_funds = executed_funds, wr_reserved_fee = reserved_fee, wr_remaining_fee = remaining_fee, wr_paid_fee = paid_fee,
       wr_locked = locked, wr_time_in_force = time_in_force, wr_smp_type = smp_type, wr_prevented_volume = prevented_volume,
       wr_prevented_locked = prevented_locked, wr_trades_count = trades_count, wr_identifier = identifier \<rparr> }"

definition from_json_wait_orders :: "'j JsonLib \<Rightarrow> 'j \<Rightarrow> WaitOrderResponseDto list option" where
  "from_json_wait_orders lib j = read_list lib (from_json_wait_order lib) j"

section \<open>Quotations\<close>

definition from_json_market :: "'j JsonLib \<Rightarrow> 'j \<Rightarrow> MarketDto option" where
  "from_json_market lib j = do {
     market \<leftarrow> required lib (jl_string lib) j ''market'';
     korean_name \<leftarrow> required lib (jl_string lib) j ''korean_name'';
     english_name \<leftarrow> required lib (jl_string lib) j ''english_name'';
     Some \<lparr> md_market = market, md_korean_name = korean_name, md_english_name = english_name, md_market_event = None \<rparr> }"

definition from_json_ticker :: "'j JsonLib \<Rightarrow> 'j \<Rightarrow> TickerDto option" where
  "from_json_ticker lib j = do {
     market \<leftarrow> required lib (jl_string lib) j ''market'';
     opening_price \<leftarrow> required lib (jl_double lib) j ''opening_price'';
     high_price \<leftarrow> required lib (jl_double lib) j ''high_price'';
     low_price \<leftarrow> required lib (jl_double lib) j ''low_price'';
     trade_price \<leftarrow> required lib (jl_double lib) j ''trade_price'';
     prev_closing_price \<leftarrow> required lib (jl_double lib) j ''prev_closing_price'';
     trade_timestamp \<leftarrow> required lib (jl_int64 lib) j ''trade_timestamp'';
     signed_change_price \<leftarrow> required lib (jl_double lib) j ''signed_change_price'';
     signed_change_rate \<leftarrow> required lib (jl_double lib) j ''signed_change_rate'';
     trade_volume \<leftarrow> required lib (jl_double lib) j ''trade_volume'';
     acc_trade_volume \<leftarrow> required lib (jl_double lib) j ''acc_trade_volume'';
     acc_trade_volume_24h \<leftarrow> required lib (jl_double lib) j ''acc_trade_volume_24h'';
     Some \<lparr> td_market = market, td_trade_date = [], td_trade_time = [], td_trade_date_kst = [], td_trade_time_kst = [],
       td_trade_timestamp = trade_timestamp, td_opening_price = opening_price, td_high_price = high_price, td_low_price = low_price,
       td_trade_price = trade_price, td_prev_closing_price = prev_closing_price, td_change = [], td_change_price = 0, td_change_rate
       = 0, td_signed_change_price = signed_change_price, td_signed_change_rate = signed_change_rate, td_trade_volume =
       trade_volume, td_acc_trade_price = 0, td_acc_trade_price_24h = 0, td_acc_trade_volume = acc_trade_volume,
       td_acc_trade_volume_24h = acc_trade_volume_24h, td_highest_52_week_price = 0, td_highest_52_week_date = [],
       td_lowest_52_week_price = 0, td_lowest_52_week_date = [], td_timestamp = 0 \<rparr> }"

definition candle_market :: "'j JsonLib \<Rightarrow> 'j \<Rightarrow> string option" where
  "candle_market lib j =
     (if jl_contains lib j ''market'' then required lib (jl_string lib) j ''market''
      else if jl_contains lib j ''code'' then required lib (jl_string lib) j ''code''
      else Some [])"

definition from_json_candle :: "'j JsonLib \<Rightarrow> 'j \<Rightarrow> CandleDto_Minute option" where
  "from_json_candle lib j = do {
     market \<leftarrow> candle_market lib j;
     opening_price \<leftarrow> required lib (jl_double lib) j ''opening_price'';
     high_price \<leftarrow> required lib (jl_double lib) j ''high_price'';
     low_price \<leftarrow> required lib (jl_double lib) j ''low_price'';
     trade_price \<leftarrow> required lib (jl_double lib) j ''trade_price'';
     candle_acc_trade_volume \<leftarrow> required lib (jl_double lib) j ''candle_acc_trade_volume'';
     candle_date_time_kst \<leftarrow> required lib (jl_string lib) j ''candle_date_time_kst'';
     Some \<lparr> cd_market = market, cd_candle_date_time_utc = [], cd_candle_date_time_kst = candle_date_time_kst,
       cd_opening_price = opening_price, cd_high_price = high_price, cd_low_price = low_price, cd_trade_price = trade_price,
       cd_timestamp = 0, cd_candle_acc_trade_price = 0, cd_candle_acc_trade_volume = candle_acc_trade_volume, cd_unit = 0 \<rparr>
       }"

definition from_json_orderbook_unit :: "'j JsonLib \<Rightarrow> 'j \<Rightarrow> OrderbookUnitDto option" where
  "from_json_orderbook_unit lib j = do {
     ask_price \<leftarrow> required lib (jl_double lib) j ''ask_price'';
     ask_size \<leftarrow> required lib (jl_double lib) j ''ask_size'';
     bid_price \<leftarrow> required lib (jl_double lib) j ''bid_price'';
     bid_size \<leftarrow> required lib (jl_double lib) j ''bid_size'';
     Some \<lparr> ud_ask_price = ask_price, ud_ask_size = ask_size, ud_bid_price = bid_price, ud_bid_size = bid_size \<rparr> }"

definition from_json_orderbook :: "'j JsonLib \<Rightarrow> 'j \<Rightarrow> OrderbookDto option" where
  "from_json_orderbook lib j = do {
     market \<leftarrow> required lib (jl_string lib) j ''market'';
     timestamp \<leftarrow> required lib (jl_int64 lib) j ''timestamp'';
     total_ask_size \<leftarrow> required lib (jl_double lib) j ''total_ask_size'';
     total_bid_size \<leftarrow> required lib (jl_double lib) j ''total_bid_size'';
     orderbook_units \<leftarrow> required lib (read_list lib (from_json_orderbook_unit lib)) j ''orderbook_units'';
     level \<leftarrow> if jl_contains lib j ''level'' then required lib (jl_double lib) j ''level'' else Some 0;
     Some \<lparr> od_market = market, od_timestamp = timestamp, od_total_ask_size = total_ask_size, od_total_bid_size =
       total_bid_size, od_orderbook_units = orderbook_units, od_level = level \<rparr> }"

section \<open>Order messages\<close>

definition from_json_my_order :: "'j JsonLib \<Rightarrow> 'j \<Rightarrow> UpbitMyOrderDto option" where
  "from_json_my_order lib j = do {
     type \<leftarrow> required lib (jl_string lib) j ''type'';
     code \<leftarrow> required lib (jl_string lib) j ''code'';
     uuid \<leftarrow> required lib (jl_string lib) j ''uuid'';
     ask_bid \<leftarrow> required lib (jl_string lib) j ''ask_bid'';
     order_type \<leftarrow> required lib (jl_string lib) j ''order_type'';
     state \<leftarrow> required lib (jl_string lib) j ''state'';
     price \<leftarrow> member_or lib (jl_double lib) 0 j ''price'';
     volume \<leftarrow> member_or lib (jl_double lib) 0 j ''volume'';
     remaining_volume \<leftarrow> member_or lib (jl_double lib) 0 j ''remaining_volume'';
     executed_volume \<leftarrow> member_or lib (jl_double lib) 0 j ''executed_volume'';
     trades_count \<leftarrow> member_or lib (jl_int lib) 0 j ''trades_count'';
     reserved_fee \<leftarrow> member_or lib (jl_double lib) 0 j ''reserved_fee'';
     remaining_fee \<leftarrow> member_or lib (jl_double lib) 0 j ''remaining_fee'';
     paid_fee \<leftarrow> member_or lib (jl_double lib) 0 j ''paid_fee'';
     locked \<leftarrow> member_or lib (jl_double lib) 0 j ''locked'';
     executed_funds \<leftarrow> member_or lib (jl_double lib) 0 j ''executed_funds'';
     trade_uuid \<leftarrow> member_or lib (\<lambda>v. map_option Some (jl_string lib v)) None j ''trade_uuid'';
     trade_fee \<leftarrow> member_or lib (\<lambda>v. map_option Some (jl_double lib v)) None j ''trade_fee'';
     is_maker \<leftarrow> member_or lib (\<lambda>v. map_option Some (jl_bool lib v)) None j ''is_maker'';
     identifier \<leftarrow> member_or lib (\<lambda>v. map_option Some (jl_string lib v)) None j ''identifier'';
     trade_timestamp \<leftarrow> member_or lib (\<lambda>v. map_option Some (jl_int64 lib v)) None j ''trade_timestamp'';
     order_timestamp \<leftarrow> member_or lib (\<lambda>v. map_option Some (jl_int64 lib v)) None j ''order_timestamp'';
     timestamp \<leftarrow> member_or lib (\<lambda>v. map_option Some (jl_int64 lib v)) None j ''timestamp'';
     Some \<lparr> wd_type = type, wd_code = code, wd_uuid = uuid, wd_ask_bid = ask_bid, wd_order_type = order_type, wd_state =
       state, wd_price = price, wd_volume = volume, wd_remaining_volume = remaining_volume, wd_executed_volume = executed_volume,
       wd_trades_count = trades_count, wd_reserved_fee = reserved_fee, wd_remaining_fee = remaining_fee, wd_paid_fee = paid_fee,
       wd_locked = locked, wd_executed_funds = executed_funds, wd_trade_uuid = trade_uuid, wd_trade_fee = trade_fee, wd_is_maker =
       is_maker, wd_identifier = identifier, wd_trade_timestamp = trade_timestamp, wd_order_timestamp = order_timestamp,
       wd_timestamp = timestamp \<rparr> }"

text \<open>The reader that \<open>parseMyOrder\<close> takes: the text is parsed without exceptions, then read.\<close>

definition read_my_order :: "'j JsonLib \<Rightarrow> (string \<Rightarrow> 'j option) \<Rightarrow> string \<Rightarrow> UpbitMyOrderDto option" where
  "read_my_order lib parse text = Option.bind (parse text) (from_json_my_order lib)"

text \<open>The readers that \<open>parseCandle\<close> takes: \<open>j.value("type", "")\<close> throws on a value that is no object or whose member is no text.\<close>

definition read_candle_type :: "'j JsonLib \<Rightarrow> ('j \<Rightarrow> bool) \<Rightarrow> (string \<Rightarrow> 'j option) \<Rightarrow> string \<Rightarrow> exn + string option" where
  "read_candle_type lib is_object parse text =
     (case parse text of
        None \<Rightarrow> Inr None
      | Some j \<Rightarrow>
          if \<not> is_object j then Inl (RuntimeError ''type_error'')
          else if \<not> jl_contains lib j ''type'' then Inr (Some [])
          else (case required lib (jl_string lib) j ''type'' of
                  None \<Rightarrow> Inl (RuntimeError ''type_error'')
                | Some t \<Rightarrow> Inr (Some t)))"

definition read_candle :: "'j JsonLib \<Rightarrow> (string \<Rightarrow> 'j option) \<Rightarrow> string \<Rightarrow> CandleDto_Minute option" where
  "read_candle lib parse text = Option.bind (parse text) (from_json_candle lib)"

section \<open>What reading needs\<close>

definition text_member :: "'j JsonLib \<Rightarrow> 'j \<Rightarrow> string \<Rightarrow> bool" where
  "text_member lib j k \<longleftrightarrow> (\<exists>v s. jl_at lib j k = Some v \<and> jl_string lib v = Some s)"

definition ok_member :: "'j JsonLib \<Rightarrow> ('j \<Rightarrow> 'a option) \<Rightarrow> 'j \<Rightarrow> string \<Rightarrow> bool" where
  "ok_member lib rd j k \<longleftrightarrow> (\<forall>v. jl_at lib j k = Some v \<longrightarrow> jl_is_null lib v \<or> rd v \<noteq> None)"

definition optional_texts :: "string list" where
  "optional_texts = [''price'', ''volume'', ''remaining_volume'', ''executed_volume'', ''executed_funds'', ''reserved_fee'',
     ''remaining_fee'', ''paid_fee'', ''locked'', ''prevented_volume'', ''prevented_locked'', ''identifier'']"

lemma bind_some: "Option.bind m f \<noteq> None \<longleftrightarrow> (\<exists>x. m = Some x \<and> f x \<noteq> None)"
  by (cases m) simp_all

lemma required_text: "(\<exists>x. required lib (jl_string lib) j k = Some x) \<longleftrightarrow> text_member lib j k"
  by (auto simp: required_def text_member_def bind_eq_Some_conv)

lemma enum_total: "\<exists>e. read_enum lib table v = Some e"
  by (simp add: read_enum_def split: option.split)

lemma required_enum: "(\<exists>x. required lib (read_enum lib table) j k = Some x) \<longleftrightarrow> jl_at lib j k \<noteq> None"
  using enum_total [of lib table] by (auto simp: required_def bind_eq_Some_conv)

lemma member_read: "json_laws lib \<Longrightarrow> (\<exists>x. member_or lib rd d j k = Some x) \<longleftrightarrow> ok_member lib rd j k"
  by (auto simp: json_laws_def member_or_def ok_member_def split: bind_splits)

lemma optional_read: "json_laws lib \<Longrightarrow> (\<exists>x. optional lib rd j k = Some x) \<longleftrightarrow> ok_member lib rd j k"
  by (simp add: optional_def member_read) (auto simp: ok_member_def read_optional_def)

lemma enum_ok: "ok_member lib (read_enum lib table) j k"
  using enum_total [of lib table] by (auto simp: ok_member_def)

lemmas member_reads = required_text required_enum member_read optional_read enum_ok

lemma optional_roundtrip:
  "(\<And>a. rd (enc a) = Some a \<and> \<not> jl_is_null lib (enc a)) \<Longrightarrow> jl_is_null lib nul \<Longrightarrow>
     read_optional lib rd (write_optional nul enc x) = Some x"
  by (simp add: read_optional_def write_optional_def split: option.split)

text \<open>
  Exactly when the answer to an order query can be read: its market, identifier, type and creation time must be texts, its side and its
  state must be there, and every other member may be missing or null but must have its type otherwise. So a query fails on a number
  where a text is expected, and never because an optional member is missing.
\<close>

theorem order_answer_readable_iff:
  assumes "json_laws lib"
  shows "from_json_order lib j \<noteq> None \<longleftrightarrow>
     (\<forall>k \<in> {''market'', ''uuid'', ''ord_type'', ''created_at''}. text_member lib j k) \<and>
     jl_at lib j ''side'' \<noteq> None \<and> jl_at lib j ''state'' \<noteq> None \<and>
     (\<forall>k \<in> set optional_texts. ok_member lib (jl_string lib) j k) \<and>
     ok_member lib (jl_int lib) j ''trades_count'' \<and> ok_member lib (read_list lib (from_json_trade lib)) j ''trades''"
  unfolding from_json_order_def bind_some option.distinct not_False_eq_True simp_thms ex_simps optional_texts_def
  using assms by (simp add: member_reads) blast

section \<open>Unknown states\<close>

lemma state_read:
  "from_json_order lib j = Some dto \<Longrightarrow> \<exists>v. jl_at lib j ''state'' = Some v \<and> read_enum lib state_table v = Some (rs_state dto)"
  by (auto simp: from_json_order_def required_def bind_eq_Some_conv)

lemma side_read:
  "from_json_order lib j = Some dto \<Longrightarrow> \<exists>v. jl_at lib j ''side'' = Some v \<and> read_enum lib side_table v = Some (rs_side dto)"
  by (auto simp: from_json_order_def required_def bind_eq_Some_conv)

lemma ws_state_read:
  "from_json_my_order lib j = Some d \<Longrightarrow> \<exists>v. jl_at lib j ''state'' = Some v \<and> jl_string lib v = Some (wd_state d)"
  by (auto simp: from_json_my_order_def required_def bind_eq_Some_conv)

text \<open>
  C40: A state the program does not know means different things on the two ways of the same order. In the answer to an order query it
  becomes the first of the enumeration: the order is open, and an unknown side makes it a buy. In a message of the web socket the
  order is final: rejected, or, for the state \<open>prevented\<close> that only the web socket knows, canceled.
\<close>

theorem unknown_state_reads_differently:
  assumes "from_json_order lib j = Some dto" "from_json_my_order lib j' = Some d"
    "jl_at lib j ''state'' = jl_at lib j' ''state''" "wd_state d \<notin> {''wait'', ''watch'', ''done'', ''cancel'', ''trade''}"
  shows "o_status (toDomain_order dto) = Open \<and> isOpen (toDomain_order dto) \<and>
     o_status (toOrder d) = (if wd_state d = ''prevented'' then Canceled else Rejected) \<and> isDone (toOrder d) \<and>
     (\<forall>v s. jl_at lib j ''side'' = Some v \<and> jl_string lib v = Some s \<and> s \<notin> {''bid'', ''ask''} \<longrightarrow>
        o_position (toDomain_order dto) = BID)"
proof -
  obtain v where v: "jl_at lib j ''state'' = Some v" "read_enum lib state_table v = Some (rs_state dto)" using state_read [OF assms(1)] by blast
  have "jl_string lib v = Some (wd_state d)" using ws_state_read [OF assms(2)] assms(3) v(1) by auto
  then have "rs_state dto = St_wait" using v(2) assms(4) by (auto simp: read_enum_def state_table_def)
  then have "o_status (toDomain_order dto) = Open" by (simp add: toDomain_order_def toDomainStatus_def Let_def)
  moreover have "o_status (toOrder d) = (if wd_state d = ''prevented'' then Canceled else Rejected)"
    using assms(4) by (auto simp: toOrder_def toOrderStatus_def Let_def)
  moreover have "o_position (toDomain_order dto) = BID"
    if "jl_at lib j ''side'' = Some v'" "jl_string lib v' = Some s" "s \<notin> {''bid'', ''ask''}" for v' s
  proof -
    have "rs_side dto = Bid" using side_read [OF assms(1)] that by (auto simp: read_enum_def side_table_def)
    then show ?thesis by (simp add: toDomain_order_def toDomainPosition_def Let_def)
  qed
  ultimately show ?thesis by (simp add: isOpen_def isDone_def status_open_def status_done_def)
qed

section \<open>A concrete library\<close>

datatype sample_json = SNull | SText string | SNum int | SArr "sample_json list" | SObj "(string \<times> sample_json) list"

definition sample_at :: "sample_json \<Rightarrow> string \<Rightarrow> sample_json option" where
  "sample_at j k = (case j of SObj ms \<Rightarrow> map_of ms k | _ \<Rightarrow> None)"

definition sample_lib :: "sample_json JsonLib" where
  "sample_lib = \<lparr> jl_contains = (\<lambda>j k. sample_at j k \<noteq> None), jl_at = sample_at, jl_is_null = (\<lambda>j. j = SNull),
     jl_string = (\<lambda>j. case j of SText s \<Rightarrow> Some s | _ \<Rightarrow> None), jl_bool = (\<lambda>j. None),
     jl_int = (\<lambda>j. case j of SNum i \<Rightarrow> Some i | _ \<Rightarrow> None), jl_int64 = (\<lambda>j. case j of SNum i \<Rightarrow> Some (word_of_int i) | _ \<Rightarrow> None),
     jl_double = (\<lambda>j. case j of SNum i \<Rightarrow> Some (D (of_int i)) | _ \<Rightarrow> None),
     jl_elements = (\<lambda>j. case j of SArr vs \<Rightarrow> Some vs | _ \<Rightarrow> None) \<rparr>"

text \<open>An order with a state and a side the program does not know; \<open>volume\<close> is given.\<close>

definition sample_order :: "sample_json \<Rightarrow> sample_json" where
  "sample_order volume = SObj [(''market'', SText ''KRW-BTC''), (''uuid'', SText ''u''), (''side'', SText ''both''),
     (''ord_type'', SText ''limit''), (''state'', SText ''prevented''), (''created_at'', SText ''2024-01-01T00:00:00+09:00''),
     (''volume'', volume), (''price'', SNull)]"

definition sample_message :: sample_json where
  "sample_message = SObj [(''type'', SText ''myOrder''), (''code'', SText ''KRW-BTC''), (''uuid'', SText ''u''), (''ask_bid'', SText ''BID''),
     (''order_type'', SText ''limit''), (''state'', SText ''prevented'')]"

lemma sample_laws: "json_laws sample_lib"
  by (simp add: json_laws_def sample_lib_def)

lemmas sample_simps = sample_lib_def sample_at_def sample_order_def sample_message_def required_def member_or_def optional_def
  read_optional_def read_enum_def side_table_def state_table_def condition_table_def smp_table_def

theorem order_answer_readable_iff_witness:
  "from_json_order sample_lib (sample_order (SText ''1'')) \<noteq> None \<and> from_json_order sample_lib (sample_order (SNum 1)) = None"
proof -
  note iff = order_answer_readable_iff [OF sample_laws, unfolded text_member_def ok_member_def optional_texts_def]
  have "from_json_order sample_lib (sample_order (SText ''1'')) \<noteq> None"
    unfolding iff by (simp add: sample_lib_def sample_at_def sample_order_def)
  moreover have "\<not> from_json_order sample_lib (sample_order (SNum 1)) \<noteq> None"
    unfolding iff by (simp add: sample_lib_def sample_at_def sample_order_def)
  ultimately show ?thesis by blast
qed

theorem unknown_state_reads_differently_witness:
  "\<exists>dto d. from_json_order sample_lib (sample_order (SText ''1'')) = Some dto \<and> from_json_my_order sample_lib sample_message = Some d \<and>
     o_status (toDomain_order dto) = Open \<and> o_status (toOrder d) = Canceled \<and> o_position (toDomain_order dto) = BID"
proof -
  obtain dto where dto: "from_json_order sample_lib (sample_order (SText ''1'')) = Some dto"
    by (simp add: from_json_order_def sample_simps)
  obtain d where d: "from_json_my_order sample_lib sample_message = Some d" "wd_state d = ''prevented''"
    by (simp add: from_json_my_order_def sample_simps)
  have at: "jl_at sample_lib (sample_order (SText ''1'')) ''state'' = jl_at sample_lib sample_message ''state''"
    "jl_at sample_lib (sample_order (SText ''1'')) ''side'' = Some (SText ''both'')" "jl_string sample_lib (SText ''both'') = Some ''both''"
    by (simp_all add: sample_simps)
  show ?thesis using unknown_state_reads_differently [OF dto d(1) at(1)] d at(2,3) dto by auto
qed

end
