(* ===== verification/PublicClient.thy ===== *)
theory PublicClient
  imports ExchangeClient JsonRead
begin

text \<open>
  The public REST client, \<open>src/src/api/upbit/UpbitPublicRestClient.cpp\<close>: markets, tickers, minute candles and order books. As in
  \<open>ExchangeClient\<close> the transport \<open>rest\<close> and the JSON library (\<open>parse\<close> of a text, and \<open>lib\<close> with its exception text \<open>what\<close>) are
  arguments; the transfer objects are read by the functions of \<open>JsonRead\<close>.
\<close>

section \<open>Requests\<close>

fun joinMarkets :: "string list \<Rightarrow> string" where
  "joinMarkets [] = []"
| "joinMarkets [m] = m"
| "joinMarkets (m # ms) = m @ '','' @ joinMarkets ms"

definition public_request :: "string \<Rightarrow> HttpRequest" where
  "public_request target = upbit_request Get target [(''Accept'', ''application/json'')] []"

definition markets_target :: "bool \<Rightarrow> string" where
  "markets_target isDetails = ''/v1/market/all?is_details='' @ (if isDetails then ''true'' else ''false'')"

definition tickers_target :: "string list \<Rightarrow> string" where
  "tickers_target markets = ''/v1/ticker?markets='' @ joinMarkets markets"

definition candles_target :: "string \<Rightarrow> int \<Rightarrow> int \<Rightarrow> string option \<Rightarrow> string" where
  "candles_target market unit cnt till =
     ''/v1/candles/minutes/'' @ int_str unit @ ''?market='' @ market @ ''&count='' @ int_str cnt @
     (case till of Some t \<Rightarrow> if t \<noteq> [] then ''&to='' @ t else [] | None \<Rightarrow> [])"

definition orderbooks_target :: "string list \<Rightarrow> string option \<Rightarrow> int option \<Rightarrow> string" where
  "orderbooks_target markets level cnt =
     ''/v1/orderbook?markets='' @ joinMarkets markets @
     (case level of Some l \<Rightarrow> if l \<noteq> [] then ''&level='' @ l else [] | None \<Rightarrow> []) @
     (case cnt of Some n \<Rightarrow> if 0 < n then ''&count='' @ int_str n else [] | None \<Rightarrow> [])"

section \<open>Calls\<close>

text \<open>An array of transfer objects, each mapped to the domain.\<close>

definition public_list ::
    "(HttpRequest \<Rightarrow> RestError + HttpResponse) \<Rightarrow> (string \<Rightarrow> string + 'j) \<Rightarrow> string \<Rightarrow> 'j JsonLib \<Rightarrow> ('j \<Rightarrow> 'd option) \<Rightarrow> ('d \<Rightarrow> 'a) \<Rightarrow>
     string \<Rightarrow> string \<Rightarrow> RestError + 'a list" where
  "public_list rest parse what lib rd to_domain loc target =
     (case read_answer parse (\<lambda>j. case read_list lib rd j of None \<Rightarrow> Inl what | Some dtos \<Rightarrow> Inr dtos) loc (rest (public_request target)) of
        Inl e \<Rightarrow> Inl e
      | Inr dtos \<Rightarrow> Inr (map to_domain dtos))"

definition getMarkets ::
    "(HttpRequest \<Rightarrow> RestError + HttpResponse) \<Rightarrow> (string \<Rightarrow> string + 'j) \<Rightarrow> string \<Rightarrow> 'j JsonLib \<Rightarrow> bool \<Rightarrow> RestError + MarketInfo list" where
  "getMarkets rest parse what lib isDetails =
     public_list rest parse what lib (from_json_market lib) toDomain_market ''Upbit GET /v1/market/all'' (markets_target isDetails)"

definition getTickers ::
    "(HttpRequest \<Rightarrow> RestError + HttpResponse) \<Rightarrow> (string \<Rightarrow> string + 'j) \<Rightarrow> string \<Rightarrow> 'j JsonLib \<Rightarrow> string list \<Rightarrow> RestError + Ticker list" where
  "getTickers rest parse what lib markets =
     public_list rest parse what lib (from_json_ticker lib) toDomain_ticker ''Upbit GET /v1/ticker'' (tickers_target markets)"

definition getCandlesMinutes ::
    "(HttpRequest \<Rightarrow> RestError + HttpResponse) \<Rightarrow> (string \<Rightarrow> string + 'j) \<Rightarrow> string \<Rightarrow> 'j JsonLib \<Rightarrow>
     string \<Rightarrow> int \<Rightarrow> int \<Rightarrow> string option \<Rightarrow> RestError + Candle list" where
  "getCandlesMinutes rest parse what lib market unit cnt till =
     public_list rest parse what lib (from_json_candle lib) toDomain_candle ''Upbit GET /v1/candles/minutes/{unit}''
       (candles_target market unit cnt till)"

definition getOrderbooks ::
    "(HttpRequest \<Rightarrow> RestError + HttpResponse) \<Rightarrow> (string \<Rightarrow> string + 'j) \<Rightarrow> string \<Rightarrow> 'j JsonLib \<Rightarrow>
     string list \<Rightarrow> string option \<Rightarrow> int option \<Rightarrow> RestError + Orderbook list" where
  "getOrderbooks rest parse what lib markets level cnt =
     public_list rest parse what lib (from_json_orderbook lib) toDomain_orderbook ''Upbit GET /v1/orderbook''
       (orderbooks_target markets level cnt)"

section \<open>Properties\<close>

lemma read_all_Some: "read_all rd vs = Some xs \<longleftrightarrow> map rd vs = map Some xs"
proof (induction vs arbitrary: xs)
  case (Cons v vs)
  show ?case using Cons.IH by (cases xs) (auto simp: bind_eq_Some_conv)
qed auto

lemma read_list_Some: "read_list lib rd j = Some dtos \<longleftrightarrow> (\<exists>vs. jl_elements lib j = Some vs \<and> map rd vs = map Some dtos)"
  by (auto simp: read_list_def bind_eq_Some_conv read_all_Some)

text \<open>
  An answer is all or nothing: candles are returned exactly when the transport succeeds with a status of success, the body is
  JSON, an array, and every element can be read; then there is one candle per element, in the order of the array.
\<close>

lemma candles_all_or_nothing:
  "getCandlesMinutes rest parse what lib market unit cnt till = Inr cs \<longleftrightarrow>
     (\<exists>resp j vs dtos. rest (public_request (candles_target market unit cnt till)) = Inr resp \<and> isSuccessStatus (hr_status resp) \<and>
        parse (hr_body resp) = Inr j \<and> jl_elements lib j = Some vs \<and> map (from_json_candle lib) vs = map Some dtos \<and>
        cs = map toDomain_candle dtos)"
proof -
  let ?ok = "\<exists>resp j dtos. rest (public_request (candles_target market unit cnt till)) = Inr resp \<and> isSuccessStatus (hr_status resp) \<and>
      parse (hr_body resp) = Inr j \<and> read_list lib (from_json_candle lib) j = Some dtos \<and> cs = map toDomain_candle dtos"
  have "getCandlesMinutes rest parse what lib market unit cnt till = Inr cs \<longleftrightarrow> ?ok"
    by (auto simp: getCandlesMinutes_def public_list_def read_answer_def split: sum.splits option.splits if_splits)
  then show ?thesis by (auto simp: read_list_Some)
qed

end
