(* ===== verification/SharedApi.thy ===== *)
theory SharedApi
  imports Main
begin

text \<open>
  The order interface that the market threads share, \<open>src/src/api/upbit/SharedOrderApi.cpp\<close>: every call takes the mutex, is counted by
  the guard with its compare-and-exchange loop, calls the client, is taken off the count and releases the mutex. All five
  operations have this body, so one machine models them: a request \<open>q\<close> stands for an operation with its arguments, and
  \<open>client q\<close> for the answer of the client to it (the calls of \<open>ExchangeClient\<close>). Each access to shared memory is a step of its
  own, and the threads interleave freely.
\<close>

section \<open>State\<close>

datatype ('q, 'r) Pc =
    Idle
  | Waiting 'q
  | Locked 'q
  | Counted 'q int
  | Loaded 'q int int
  | Entered 'q
  | Calling 'q
  | Answered 'r
  | Leaving 'r
  | Resetting

datatype ('q, 'r) ApiEvent = Begin nat 'q | End nat 'r

record ('q, 'r) Shared =
  sh_mutex :: "nat option"
  sh_in_flight :: int
  sh_max_in_flight :: int
  sh_pc :: "nat \<Rightarrow> ('q, 'r) Pc"
  sh_trace :: "('q, 'r) ApiEvent list"

definition shared_new :: "('q, 'r) Shared" where
  "shared_new = \<lparr> sh_mutex = None, sh_in_flight = 0, sh_max_in_flight = 0, sh_pc = (\<lambda>t. Idle), sh_trace = [] \<rparr>"

text \<open>The constructor refuses a missing client.\<close>

definition shared_construct :: "('q \<Rightarrow> 'r) option \<Rightarrow> string + ('q \<Rightarrow> 'r) \<times> ('q, 'r) Shared" where
  "shared_construct client =
     (case client of None \<Rightarrow> Inl ''SharedOrderApi: client cannot be null'' | Some c \<Rightarrow> Inr (c, shared_new))"

definition goto :: "nat \<Rightarrow> ('q, 'r) Pc \<Rightarrow> ('q, 'r) Shared \<Rightarrow> ('q, 'r) Shared" where
  "goto t p s = s \<lparr> sh_pc := (sh_pc s)(t := p) \<rparr>"

section \<open>Steps\<close>

text \<open>The weak exchange may fail although the values agree; a failure loads the current maximum. \<open>debugResetInFlight\<close> takes no
  mutex and is two stores (\<open>reset_in_flight\<close>, \<open>reset_max\<close>).\<close>

inductive shared_step :: "('q \<Rightarrow> 'r) \<Rightarrow> ('q, 'r) Shared \<Rightarrow> ('q, 'r) Shared \<Rightarrow> bool" for client where
  request: "sh_pc s t = Idle \<Longrightarrow> shared_step client s (goto t (Waiting q) s)"
| lock: "sh_pc s t = Waiting q \<Longrightarrow> sh_mutex s = None \<Longrightarrow> shared_step client s (goto t (Locked q) (s \<lparr> sh_mutex := Some t \<rparr>))"
| fetch_add: "sh_pc s t = Locked q \<Longrightarrow>
     shared_step client s (goto t (Counted q (sh_in_flight s + 1)) (s \<lparr> sh_in_flight := sh_in_flight s + 1 \<rparr>))"
| load: "sh_pc s t = Counted q cur \<Longrightarrow> shared_step client s (goto t (Loaded q cur (sh_max_in_flight s)) s)"
| exchange: "sh_pc s t = Loaded q cur prev \<Longrightarrow> prev < cur \<Longrightarrow> sh_max_in_flight s = prev \<Longrightarrow>
     shared_step client s (goto t (Entered q) (s \<lparr> sh_max_in_flight := cur \<rparr>))"
| exchange_fails: "sh_pc s t = Loaded q cur prev \<Longrightarrow> prev < cur \<Longrightarrow> shared_step client s (goto t (Loaded q cur (sh_max_in_flight s)) s)"
| no_raise: "sh_pc s t = Loaded q cur prev \<Longrightarrow> \<not> prev < cur \<Longrightarrow> shared_step client s (goto t (Entered q) s)"
| call: "sh_pc s t = Entered q \<Longrightarrow> shared_step client s (goto t (Calling q) (s \<lparr> sh_trace := sh_trace s @ [Begin t q] \<rparr>))"
| answer: "sh_pc s t = Calling q \<Longrightarrow>
     shared_step client s (goto t (Answered (client q)) (s \<lparr> sh_trace := sh_trace s @ [End t (client q)] \<rparr>))"
| fetch_sub: "sh_pc s t = Answered r \<Longrightarrow> shared_step client s (goto t (Leaving r) (s \<lparr> sh_in_flight := sh_in_flight s - 1 \<rparr>))"
| unlock: "sh_pc s t = Leaving r \<Longrightarrow> shared_step client s (goto t Idle (s \<lparr> sh_mutex := None \<rparr>))"
| reset_in_flight: "sh_pc s t = Idle \<Longrightarrow> shared_step client s (goto t Resetting (s \<lparr> sh_in_flight := 0 \<rparr>))"
| reset_max: "sh_pc s t = Resetting \<Longrightarrow> shared_step client s (goto t Idle (s \<lparr> sh_max_in_flight := 0 \<rparr>))"

inductive shared_reach :: "('q \<Rightarrow> 'r) \<Rightarrow> ('q, 'r) Shared \<Rightarrow> bool" for client where
  reach_new: "shared_reach client shared_new"
| reach_step: "shared_reach client s \<Longrightarrow> shared_step client s s' \<Longrightarrow> shared_reach client s'"

section \<open>Invariant\<close>

fun inside :: "('q, 'r) Pc \<Rightarrow> bool" where
  "inside Idle \<longleftrightarrow> False"
| "inside (Waiting q) \<longleftrightarrow> False"
| "inside Resetting \<longleftrightarrow> False"
| "inside p \<longleftrightarrow> True"

text \<open>Between the two changes of the count.\<close>

fun counted :: "('q, 'r) Pc \<Rightarrow> bool" where
  "counted Idle \<longleftrightarrow> False"
| "counted (Waiting q) \<longleftrightarrow> False"
| "counted Resetting \<longleftrightarrow> False"
| "counted (Locked q) \<longleftrightarrow> False"
| "counted (Leaving r) \<longleftrightarrow> False"
| "counted p \<longleftrightarrow> True"

fun local_ok :: "('q, 'r) Pc \<Rightarrow> bool" where
  "local_ok (Counted q cur) \<longleftrightarrow> cur \<le> 1"
| "local_ok (Loaded q cur prev) \<longleftrightarrow> cur \<le> 1"
| "local_ok p \<longleftrightarrow> True"

text \<open>The trace of calls that were executed one after the other.\<close>

definition serial_calls :: "('q \<Rightarrow> 'r) \<Rightarrow> (nat \<times> 'q) list \<Rightarrow> ('q, 'r) ApiEvent list" where
  "serial_calls client calls = concat (map (\<lambda>(t, q). [Begin t q, End t (client q)]) calls)"

definition open_call :: "('q, 'r) Shared \<Rightarrow> ('q, 'r) ApiEvent list" where
  "open_call s = (case sh_mutex s of None \<Rightarrow> [] | Some t \<Rightarrow> (case sh_pc s t of Calling q \<Rightarrow> [Begin t q] | _ \<Rightarrow> []))"

definition shared_inv :: "('q \<Rightarrow> 'r) \<Rightarrow> ('q, 'r) Shared \<Rightarrow> bool" where
  "shared_inv client s \<longleftrightarrow>
     (\<forall>t. inside (sh_pc s t) \<longleftrightarrow> sh_mutex s = Some t) \<and> (\<forall>t. local_ok (sh_pc s t)) \<and> sh_max_in_flight s \<le> 1 \<and>
     sh_in_flight s \<le> (case sh_mutex s of None \<Rightarrow> 0 | Some t \<Rightarrow> if counted (sh_pc s t) then 1 else 0) \<and>
     (\<exists>calls. sh_trace s = serial_calls client calls @ open_call s)"

lemma goto_simps [simp]:
  "sh_pc (goto t p s) u = (if u = t then p else sh_pc s u)" "sh_mutex (goto t p s) = sh_mutex s"
  "sh_in_flight (goto t p s) = sh_in_flight s" "sh_max_in_flight (goto t p s) = sh_max_in_flight s" "sh_trace (goto t p s) = sh_trace s"
  by (simp_all add: goto_def)

lemma serial_snoc: "serial_calls client calls @ [Begin t q, End t (client q)] = serial_calls client (calls @ [(t, q)])"
  by (simp add: serial_calls_def)

lemma shared_step_inv:
  assumes "shared_step client s s'" "shared_inv client s"
  shows "shared_inv client s'"
proof -
  have ex: "\<And>u. inside (sh_pc s u) \<longleftrightarrow> sh_mutex s = Some u" and loc: "\<And>u. local_ok (sh_pc s u)" and mx: "sh_max_in_flight s \<le> 1"
    and fl: "sh_in_flight s \<le> (case sh_mutex s of None \<Rightarrow> 0 | Some t \<Rightarrow> if counted (sh_pc s t) then 1 else 0)"
    using assms(2) by (simp_all add: shared_inv_def)
  obtain calls where tr: "sh_trace s = serial_calls client calls @ open_call s" using assms(2) by (auto simp: shared_inv_def)
  have holder: "sh_mutex s = Some t" if "sh_pc s t = p" "inside p" for t p using ex that by metis
  have other: "sh_mutex s \<noteq> Some t" if "sh_pc s t = p" "\<not> inside p" for t p using ex that by metis
  have excl: "\<forall>u. inside (sh_pc s' u) \<longleftrightarrow> sh_mutex s' = Some u" using assms(1)
  proof cases
    case (lock t q)
    then show ?thesis using ex by auto
  next
    case (unlock t r)
    then show ?thesis using ex holder [of t "Leaving r"] by auto
  next
    case (request t q)
    then show ?thesis using ex other [of t Idle] by auto
  next
    case (reset_in_flight t)
    then show ?thesis using ex other [of t Idle] by auto
  next
    case (reset_max t)
    then show ?thesis using ex other [of t Resetting] by auto
  qed (use ex holder in fastforce)+
  have "\<forall>u. local_ok (sh_pc s' u)" using assms(1)
  proof cases
    case (fetch_add t q)
    then show ?thesis using loc fl holder [of t "Locked q"] by auto
  next
    case (load t q cur)
    then show ?thesis using loc loc [of t] by auto
  next
    case (exchange_fails t q cur prev)
    then show ?thesis using loc loc [of t] by auto
  qed (use loc in auto)
  moreover have "sh_max_in_flight s' \<le> 1" using assms(1)
  proof cases
    case (exchange t q cur prev)
    then show ?thesis using loc [of t] by simp
  qed (use mx in auto)
  moreover have "sh_in_flight s' \<le> (case sh_mutex s' of None \<Rightarrow> 0 | Some t \<Rightarrow> if counted (sh_pc s' t) then 1 else 0)" using assms(1)
  proof cases
    case (request t q)
    then show ?thesis using fl other [of t Idle] by (auto split: option.splits)
  next
    case (unlock t r)
    then show ?thesis using fl holder [of t "Leaving r"] by auto
  next
    case (lock t q)
    then show ?thesis using fl by auto
  next
    case (reset_in_flight t)
    then show ?thesis using fl other [of t Idle] by (auto split: option.splits)
  next
    case (reset_max t)
    then show ?thesis using fl other [of t Resetting] by (auto split: option.splits)
  qed (use fl holder in \<open>fastforce split: option.splits if_splits\<close>)+
  moreover have "\<exists>calls. sh_trace s' = serial_calls client calls @ open_call s'" using assms(1)
  proof cases
    case (request t q)
    then have "open_call s' = open_call s" using other [of t Idle] by (auto simp: open_call_def split: option.splits)
    then show ?thesis using tr request by auto
  next
    case (lock t q)
    then show ?thesis using tr by (auto simp: open_call_def)
  next
    case (call t q)
    then show ?thesis using tr holder [of t "Entered q"] by (auto simp: open_call_def)
  next
    case (answer t q)
    then have "sh_trace s' = serial_calls client (calls @ [(t, q)]) @ open_call s'"
      using tr holder [of t "Calling q"] by (simp add: open_call_def flip: serial_snoc)
    then show ?thesis by blast
  next
    case (unlock t r)
    then show ?thesis using tr holder [of t "Leaving r"] by (auto simp: open_call_def)
  next
    case (reset_in_flight t)
    then have "open_call s' = open_call s" using other [of t Idle] by (auto simp: open_call_def split: option.splits)
    then show ?thesis using tr reset_in_flight by auto
  next
    case (reset_max t)
    then have "open_call s' = open_call s" using other [of t Resetting] by (auto simp: open_call_def split: option.splits)
    then show ?thesis using tr reset_max by auto
  qed (use tr holder in \<open>fastforce simp: open_call_def\<close>)+
  ultimately show ?thesis using excl by (simp add: shared_inv_def)
qed

lemma shared_reach_inv: "shared_reach client s \<Longrightarrow> shared_inv client s"
proof (induction rule: shared_reach.induct)
  case reach_new
  have "[] = serial_calls client []" by (simp add: serial_calls_def)
  then show ?case unfolding shared_inv_def open_call_def by (auto simp: shared_new_def)
qed (rule shared_step_inv)

text \<open>
  C11: The calls of all threads are serialised. However the threads interleave, at most one of them is inside, so that the client is only
  ever called by one thread at a time; the calls it has served form a sequence of whole calls, each with the client's answer to its own
  request and returned to the thread that made it; and the counters of the interface never show more than one call in flight.
\<close>

theorem calls_are_serialised:
  assumes "shared_reach client s"
  shows "(\<forall>t u. inside (sh_pc s t) \<and> inside (sh_pc s u) \<longrightarrow> t = u) \<and>
     (\<exists>calls. sh_trace s = serial_calls client calls \<or> (\<exists>t q. sh_trace s = serial_calls client calls @ [Begin t q] \<and> sh_pc s t = Calling q)) \<and>
     sh_in_flight s \<le> 1 \<and> sh_max_in_flight s \<le> 1"
proof -
  note inv = shared_reach_inv [OF assms, unfolded shared_inv_def]
  have "sh_mutex s = Some t" if "inside (sh_pc s t)" for t using inv that by blast
  then have "\<forall>t u. inside (sh_pc s t) \<and> inside (sh_pc s u) \<longrightarrow> t = u" by (metis option.inject)
  moreover have "\<exists>calls. sh_trace s = serial_calls client calls \<or>
      (\<exists>t q. sh_trace s = serial_calls client calls @ [Begin t q] \<and> sh_pc s t = Calling q)"
    using inv by (fastforce simp: open_call_def split: option.splits Pc.splits)
  moreover have "sh_in_flight s \<le> 1" using inv by (auto split: option.splits if_splits)
  ultimately show ?thesis using inv by blast
qed

section \<open>Two threads\<close>

text \<open>Thread 0 has been counted and thread 1 waits.\<close>

definition two_threads :: "(nat, nat) Shared" where
  "two_threads = goto 1 (Waiting 8) (goto 0 (Counted 7 1) (goto 0 (Locked 7) (goto 0 (Waiting 7) shared_new \<lparr> sh_mutex := Some 0 \<rparr>) \<lparr> sh_in_flight := 1 \<rparr>))"

lemma two_threads_reached: "shared_reach Suc two_threads"
proof -
  define s1 where "s1 = goto 0 (Waiting 7) (shared_new :: (nat, nat) Shared)"
  define s2 where "s2 = goto 0 (Locked 7) (s1 \<lparr> sh_mutex := Some 0 \<rparr>)"
  define s3 where "s3 = goto 0 (Counted 7 (sh_in_flight s2 + 1)) (s2 \<lparr> sh_in_flight := sh_in_flight s2 + 1 \<rparr>)"
  have "shared_reach Suc s1" unfolding s1_def by (rule reach_step [OF reach_new]) (rule request, simp add: shared_new_def)
  then have "shared_reach Suc s2" unfolding s2_def by (rule reach_step) (rule lock, simp_all add: s1_def shared_new_def)
  then have "shared_reach Suc s3" unfolding s3_def by (rule reach_step) (rule fetch_add, simp add: s2_def)
  then have "shared_reach Suc (goto 1 (Waiting 8) s3)" by (rule reach_step) (rule request, simp add: s3_def s2_def s1_def shared_new_def)
  moreover have "goto 1 (Waiting 8) s3 = two_threads"
    by (simp add: two_threads_def s3_def s2_def s1_def goto_def shared_new_def)
  ultimately show ?thesis by simp
qed

theorem calls_are_serialised_witness: "sh_pc two_threads 0 = Counted 7 1 \<and> sh_in_flight two_threads = 1 \<and> \<not> inside (sh_pc two_threads 1)"
proof -
  have "sh_pc two_threads 0 = Counted 7 1" "sh_in_flight two_threads = 1" by (simp_all add: two_threads_def goto_def shared_new_def)
  moreover have "inside (sh_pc two_threads 1) \<longrightarrow> (1::nat) = 0"
    using calls_are_serialised [OF two_threads_reached] calculation(1) by (metis inside.simps)
  ultimately show ?thesis by simp
qed

end
