(* ===== verification/Logger.thy ===== *)
theory Logger
  imports TextFormat "HOL-Library.Word"
begin

text \<open>
  The log, \<open>src/src/util/Logger.h\<close>: levels, the two outputs and the line of a call. The number of a line is taken before the mutex and
  the line is written under it, so a call is the two steps \<open>log_begin\<close> and \<open>log_write\<close>, and the calls of several threads interleave
  between them. The time stamp and the text of the arguments are arguments.
\<close>

datatype LogLevel = DEBUG | INFO | WARN | LV_ERROR

fun level_number :: "LogLevel \<Rightarrow> nat" where
  "level_number DEBUG = 0"
| "level_number INFO = 1"
| "level_number WARN = 2"
| "level_number LV_ERROR = 3"

fun levelToString :: "LogLevel \<Rightarrow> string" where
  "levelToString DEBUG = ''DEBUG''"
| "levelToString INFO = ''INFO ''"
| "levelToString WARN = ''WARN ''"
| "levelToString LV_ERROR = ''ERROR''"

text \<open>An output is its lines, each with whether it was flushed at once.\<close>

record Logger =
  lg_seq :: "64 word"
  lg_min_level :: LogLevel
  lg_console_enabled :: bool
  lg_file_open :: bool
  lg_console :: "(string \<times> bool) list"
  lg_file :: "(string \<times> bool) list"

definition logger_new :: Logger where
  "logger_new = \<lparr> lg_seq = 0, lg_min_level = INFO, lg_console_enabled = True, lg_file_open = False, lg_console = [], lg_file = [] \<rparr>"

definition setLevel :: "LogLevel \<Rightarrow> Logger \<Rightarrow> Logger" where
  "setLevel level lg = lg \<lparr> lg_min_level := level \<rparr>"

definition enableFileOutput :: "bool \<Rightarrow> Logger \<Rightarrow> Logger" where
  "enableFileOutput opened lg = lg \<lparr> lg_file_open := opened \<rparr>"

definition disableConsoleOutput :: "Logger \<Rightarrow> Logger" where
  "disableConsoleOutput lg = lg \<lparr> lg_console_enabled := False \<rparr>"

definition log_line :: "string \<Rightarrow> LogLevel \<Rightarrow> 64 word \<Rightarrow> string \<Rightarrow> string" where
  "log_line stamp level seq text =
     ''['' @ stamp @ ''] ['' @ levelToString level @ ''] [#'' @ nat_str (unat seq) @ ''] '' @ text @ [CHR 0x0A]"

text \<open>The filter and the number: \<open>None\<close> is a call that writes nothing.\<close>

definition log_begin :: "LogLevel \<Rightarrow> Logger \<Rightarrow> 64 word option \<times> Logger" where
  "log_begin level lg =
     (if level_number level < level_number (lg_min_level lg) then (None, lg)
      else (Some (lg_seq lg + 1), lg \<lparr> lg_seq := lg_seq lg + 1 \<rparr>))"

definition log_write :: "string \<Rightarrow> LogLevel \<Rightarrow> 64 word \<Rightarrow> string \<Rightarrow> Logger \<Rightarrow> Logger" where
  "log_write stamp level seq text lg =
     (let message = log_line stamp level seq text;
          flush = (2 \<le> level_number level);
          lg1 = (if lg_console_enabled lg then lg \<lparr> lg_console := lg_console lg @ [(message, flush)] \<rparr> else lg)
      in if lg_file_open lg1 then lg1 \<lparr> lg_file := lg_file lg1 @ [(message, flush)] \<rparr> else lg1)"

definition log_call :: "string \<Rightarrow> LogLevel \<Rightarrow> string \<Rightarrow> Logger \<Rightarrow> Logger" where
  "log_call stamp level text lg =
     (case log_begin level lg of (None, lg1) \<Rightarrow> lg1 | (Some seq, lg1) \<Rightarrow> log_write stamp level seq text lg1)"

text \<open>Two calls whose steps interleave can leave their numbers in the outputs in the other order.\<close>

lemma log_order_can_differ:
  "\<exists>lg1 lg2. log_begin INFO logger_new = (Some 1, lg1) \<and> log_begin WARN lg1 = (Some 2, lg2) \<and>
     lg_console (log_write s INFO 1 a (log_write s WARN 2 b lg2)) = [(log_line s WARN 2 b, True), (log_line s INFO 1 a, False)]"
  by (simp add: log_begin_def log_write_def logger_new_def Let_def)

end
